(* ===== verification/Prelude.thy ===== *)
theory Prelude
  imports "HOL-Library.Word"
begin

text \<open>
  The vocabulary every component shares: machine integers and byte vectors, the faults a C++
  operation can end in, commands over an explicit state that stop at the first fault, checked
  accesses to a byte vector, and the byte order of the host (\<open>src/libratel/CpuConfig.h\<close>).
\<close>

section \<open>Collections of facts\<close>

named_theorems codec_defs \<open>definitions of the encoders and decoders\<close>
named_theorems world_defs \<open>definitions of the elementary operations on the heap\<close>
named_theorems method_defs \<open>definitions of the methods of the live objects\<close>

section \<open>Integers and byte vectors\<close>

type_synonym byte = "8 word"
type_synonym u16 = "16 word"
type_synonym u32 = "32 word"
type_synonym u64 = "64 word"

text \<open>\<open>VecByte\<close> and \<open>std::string\<close> are both sequences of 8-bit units.\<close>

type_synonym bytes = "byte list"

lemma unat_byte_le: "unat (b :: byte) \<le> 255"
  using unsigned_less [of b, where 'a = nat] by simp

lemma of_nat_byte_inverse: "n \<le> 255 \<Longrightarrow> unat (of_nat n :: byte) = n"
  by (simp add: unat_of_nat)

section \<open>Faults\<close>

text \<open>
  What can go wrong besides returning an error code. \<open>BadVariantAccess\<close> and the
  four after it are C++ exceptions, the others end the defined behaviour of the program: the model
  stops there.
\<close>

datatype fault =
    OutOfBounds        \<comment> \<open>an access outside a vector or an array\<close>
  | UseAfterFree       \<comment> \<open>a member of an object that has been destroyed\<close>
  | NullDeref          \<comment> \<open>a member of a null pointer\<close>
  | Uninitialised      \<comment> \<open>an object whose lifetime has not begun\<close>
  | Overflow           \<comment> \<open>an overflow of a signed integer\<close>
  | Terminated         \<comment> \<open>a call of \<open>std::terminate\<close>\<close>
  | AssertFailed       \<comment> \<open>a failing \<open>assert\<close>\<close>
  | BadVariantAccess   \<comment> \<open>\<open>std::get\<close> of another alternative\<close>
  | RuntimeError       \<comment> \<open>a thrown \<open>std::runtime_error\<close>\<close>
  | OutOfRange         \<comment> \<open>a thrown \<open>std::out_of_range\<close>\<close>
  | LogicError         \<comment> \<open>a thrown \<open>std::logic_error\<close>\<close>
  | InvalidArgument    \<comment> \<open>a thrown \<open>std::invalid_argument\<close>\<close>
  | BadCast            \<comment> \<open>a thrown \<open>std::bad_any_cast\<close>\<close>
  | WrongCall          \<comment> \<open>a call through a pointer to another type of function\<close>

type_synonym 'a res = "fault + 'a"

definition andThen :: "'a res \<Rightarrow> ('a \<Rightarrow> 'b res) \<Rightarrow> 'b res" where
  "andThen m f = (case m of Inl e \<Rightarrow> Inl e | Inr x \<Rightarrow> f x)"

lemma andThen_simps [simp]:
  "andThen (Inl e) f = Inl e"
  "andThen (Inr x) f = f x"
  by (simp_all add: andThen_def)

lemma andThen_Inr_right [simp]: "andThen m Inr = m"
  by (simp add: andThen_def split: sum.splits)

lemma andThen_assoc: "andThen (andThen m f) g = andThen m (\<lambda>x. andThen (f x) g)"
  by (simp add: andThen_def split: sum.splits)

lemma andThen_eq_Inr_iff:
  "andThen m f = Inr y \<longleftrightarrow> (\<exists>x. m = Inr x \<and> f x = Inr y)"
  by (simp add: andThen_def split: sum.splits)

lemma andThen_cong [fundef_cong]:
  "m = m' \<Longrightarrow> (\<And>x. m' = Inr x \<Longrightarrow> f x = f' x) \<Longrightarrow> andThen m f = andThen m' f'"
  by (simp add: andThen_def split: sum.splits)

section \<open>Commands over an explicit state\<close>

type_synonym 'w cmd = "'w \<Rightarrow> 'w res"

definition skip :: "'w cmd" where
  "skip w = Inr w"

definition whenC :: "bool \<Rightarrow> 'w cmd \<Rightarrow> 'w cmd" where
  "whenC b c = (if b then c else skip)"

text \<open>A block of statements, executed in order until the first fault.\<close>

fun seqs :: "'w cmd list \<Rightarrow> 'w cmd" where
  "seqs [] w = Inr w"
| "seqs (c # cs) w = andThen (c w) (seqs cs)"

lemma skip_apply [simp]: "skip w = Inr w"
  by (simp add: skip_def)

lemma whenC_simps [simp]:
  "whenC True c = c"
  "whenC False c = skip"
  by (simp_all add: whenC_def)

lemma seqs_Nil_Inr [simp]: "seqs [] = Inr"
  by (simp add: fun_eq_iff)

lemma seqs_single [simp]: "seqs [c] = c"
  by (simp add: fun_eq_iff)

lemma seqs_append: "seqs (cs @ ds) w = andThen (seqs cs w) (seqs ds)"
proof (induction cs arbitrary: w)
  case Nil
  then show ?case by simp
next
  case (Cons c cs)
  then show ?case by (cases "c w") (simp_all)
qed

text \<open>An invariant of every statement is one of the block.\<close>

lemma seqs_invariant:
  assumes "\<And>c w w'. c \<in> set cs \<Longrightarrow> P w \<Longrightarrow> c w = Inr w' \<Longrightarrow> P w'"
  shows "P w \<Longrightarrow> seqs cs w = Inr w' \<Longrightarrow> P w'"
  using assms
proof (induction cs arbitrary: w)
  case (Cons c cs)
  then obtain w1 where "c w = Inr w1" "seqs cs w1 = Inr w'"
    by (auto simp: andThen_eq_Inr_iff)
  then show ?case
    using Cons.IH [of w1] Cons.prems(1,3) by auto
qed simp

text \<open>\<open>satisfies P r\<close>: if there is a result, it satisfies \<open>P\<close>.\<close>

definition satisfies :: "('a \<Rightarrow> bool) \<Rightarrow> 'a res \<Rightarrow> bool" where
  "satisfies P r \<longleftrightarrow> (\<forall>x. r = Inr x \<longrightarrow> P x)"

lemma satisfies_simps [simp]: "satisfies P (Inl e)" "satisfies P (Inr x) \<longleftrightarrow> P x"
  by (simp_all add: satisfies_def)

lemma satisfiesD: "satisfies P r \<Longrightarrow> r = Inr x \<Longrightarrow> P x"
  by (simp add: satisfies_def)

lemma satisfies_andThen:
  "(\<And>x. m = Inr x \<Longrightarrow> satisfies P (f x)) \<Longrightarrow> satisfies P (andThen m f)"
  by (cases m) simp_all

lemma satisfies_bind: "satisfies Q m \<Longrightarrow> (\<And>x. Q x \<Longrightarrow> satisfies P (f x)) \<Longrightarrow> satisfies P (andThen m f)"
  by (cases m) simp_all

lemma satisfies_seqs:
  "(\<And>c w. c \<in> set cs \<Longrightarrow> P w \<Longrightarrow> satisfies P (c w)) \<Longrightarrow> P w \<Longrightarrow> satisfies P (seqs cs w)"
  by (simp add: satisfies_def) (metis seqs_invariant)

section \<open>Checked accesses to a vector\<close>

text \<open>
  \<open>buf[i]\<close>, a copy out of \<open>buf\<close> (\<open>std::copy\<close> or \<open>memcpy\<close> from
  \<open>buf.data() + off\<close>) and a copy into it are undefined outside the vector, so the
  model checks each of them. \<open>resize\<close> truncates or appends zeros.
\<close>

definition vec_at :: "'a list \<Rightarrow> nat \<Rightarrow> 'a res" where
  "vec_at buf i = (if i < length buf then Inr (buf ! i) else Inl OutOfBounds)"

definition vec_range :: "'a list \<Rightarrow> nat \<Rightarrow> nat \<Rightarrow> 'a list res" where
  "vec_range buf off n =
     (if off + n \<le> length buf then Inr (take n (drop off buf)) else Inl OutOfBounds)"

definition vec_put :: "nat \<Rightarrow> 'a list \<Rightarrow> 'a list \<Rightarrow> 'a list res" where
  "vec_put off src buf =
     (if off + length src \<le> length buf
      then Inr (take off buf @ src @ drop (off + length src) buf)
      else Inl OutOfBounds)"

definition vec_resize :: "nat \<Rightarrow> bytes \<Rightarrow> bytes" where
  "vec_resize n buf = take n buf @ replicate (n - length buf) 0"

lemma vec_at_ok [simp]: "i < length buf \<Longrightarrow> vec_at buf i = Inr (buf ! i)"
  by (simp add: vec_at_def)

lemma vec_at_hd [simp]: "buf \<noteq> [] \<Longrightarrow> vec_at buf 0 = Inr (buf ! 0)"
  by (simp add: vec_at_def)

lemma nonempty_of_length: "\<not> length buf < n \<Longrightarrow> 0 < n \<Longrightarrow> buf \<noteq> []"
  by auto

lemma drop_plus: "drop (k + n) xs = drop n (drop k xs)"
  by (simp add: add.commute)

lemma vec_range_ok [simp]:
  "off + n \<le> length buf \<Longrightarrow> vec_range buf off n = Inr (take n (drop off buf))"
  by (simp add: vec_range_def)

lemma vec_put_ok:
  "off + length src \<le> length buf \<Longrightarrow>
     vec_put off src buf = Inr (take off buf @ src @ drop (off + length src) buf)"
  by (simp add: vec_put_def)

lemma length_vec_resize [simp]: "length (vec_resize n buf) = n"
  by (simp add: vec_resize_def)

text \<open>
  An encoder fills a vector front to back: after a write at the end of the part already
  filled, that part is longer, whatever the rest of the vector holds.
\<close>

lemma vec_put_fill:
  "length pre = off \<Longrightarrow> length src \<le> length rest \<Longrightarrow>
     vec_put off src (pre @ rest) = Inr ((pre @ src) @ drop (length src) rest)"
  by (simp add: vec_put_def)

lemma vec_resize_grow:
  "length pre \<le> n \<Longrightarrow>
     vec_resize n (pre @ rest) = pre @ vec_resize (n - length pre) rest"
  by (simp add: vec_resize_def)

section \<open>Byte order of the host\<close>

text \<open>
  \<open>CpuConfig.h\<close> defines \<open>RATEL_BYTE_ORDER\<close> as one of two values. The model takes the
  byte order as an argument: a \<open>memcpy\<close> between a buffer and an integer goes through
  \<open>load\<close> and \<open>store\<close>, and \<open>htons\<close>/\<open>ntohs\<close>/\<open>ntohl\<close> swap on a little-endian host only.
\<close>

datatype byte_order = LittleEndian | BigEndian

definition join16 :: "byte \<Rightarrow> byte \<Rightarrow> u16" where
  "join16 hi lo = of_nat (unat hi * 256 + unat lo)"

definition hi16 :: "u16 \<Rightarrow> byte" where
  "hi16 x = of_nat (unat x div 256)"

definition lo16 :: "u16 \<Rightarrow> byte" where
  "lo16 x = of_nat (unat x mod 256)"

definition load16 :: "byte_order \<Rightarrow> bytes \<Rightarrow> u16" where
  "load16 bo bs = (case bo of LittleEndian \<Rightarrow> join16 (bs ! 1) (bs ! 0)
                            | BigEndian \<Rightarrow> join16 (bs ! 0) (bs ! 1))"

definition store16 :: "byte_order \<Rightarrow> u16 \<Rightarrow> bytes" where
  "store16 bo x = (case bo of LittleEndian \<Rightarrow> [lo16 x, hi16 x] | BigEndian \<Rightarrow> [hi16 x, lo16 x])"

definition swap16 :: "u16 \<Rightarrow> u16" where
  "swap16 x = join16 (lo16 x) (hi16 x)"

lemma unat_join16 [simp]: "unat (join16 h l) = unat h * 256 + unat l"
  using unat_byte_le [of h] unat_byte_le [of l] by (simp only: join16_def unat_of_nat) simp

lemma unat_hi16 [simp]: "unat (hi16 x) = unat x div 256"
  using unsigned_less [of x, where 'a = nat] by (simp only: hi16_def unat_of_nat) simp

lemma unat_lo16 [simp]: "unat (lo16 x) = unat x mod 256"
  by (simp only: lo16_def unat_of_nat) simp

lemma hi16_join16 [simp]: "hi16 (join16 h l) = h"
  using unat_byte_le [of l] by (intro unsigned_word_eqI [where 'a = nat]) simp

lemma lo16_join16 [simp]: "lo16 (join16 h l) = l"
  using unat_byte_le [of l] by (intro unsigned_word_eqI [where 'a = nat]) simp

lemma join16_parts [simp]: "join16 (hi16 x) (lo16 x) = x"
  by (intro unsigned_word_eqI [where 'a = nat]) simp

lemma length_store16 [simp]: "length (store16 bo x) = 2"
  by (simp add: store16_def split: byte_order.splits)

lemma load16_store16 [simp]: "load16 bo (store16 bo x) = x"
  by (simp add: load16_def store16_def split: byte_order.splits)

lemma store16_load16: "length bs = 2 \<Longrightarrow> store16 bo (load16 bo bs) = bs"
  by (auto simp: load16_def store16_def numeral_2_eq_2 length_Suc_conv split: byte_order.splits)

lemma store16_swap16 [simp]: "store16 bo (swap16 x) = rev (store16 bo x)"
  by (simp add: store16_def swap16_def split: byte_order.splits)

lemma swap16_swap16 [simp]: "swap16 (swap16 x) = x"
  by (simp add: swap16_def)

text \<open>The same for 32-bit integers.\<close>

definition join32 :: "byte \<Rightarrow> byte \<Rightarrow> byte \<Rightarrow> byte \<Rightarrow> u32" where
  "join32 a b c d = of_nat (((unat a * 256 + unat b) * 256 + unat c) * 256 + unat d)"

definition byte32 :: "nat \<Rightarrow> u32 \<Rightarrow> byte" where
  "byte32 k x = of_nat (unat x div 256 ^ k mod 256)"

definition load32 :: "byte_order \<Rightarrow> bytes \<Rightarrow> u32" where
  "load32 bo bs =
     (case bo of LittleEndian \<Rightarrow> join32 (bs ! 3) (bs ! 2) (bs ! 1) (bs ! 0)
               | BigEndian \<Rightarrow> join32 (bs ! 0) (bs ! 1) (bs ! 2) (bs ! 3))"

definition store32 :: "byte_order \<Rightarrow> u32 \<Rightarrow> bytes" where
  "store32 bo x =
     (case bo of LittleEndian \<Rightarrow> [byte32 0 x, byte32 1 x, byte32 2 x, byte32 3 x]
               | BigEndian \<Rightarrow> [byte32 3 x, byte32 2 x, byte32 1 x, byte32 0 x])"

definition swap32 :: "u32 \<Rightarrow> u32" where
  "swap32 x = join32 (byte32 0 x) (byte32 1 x) (byte32 2 x) (byte32 3 x)"

lemma unat_join32:
  "unat (join32 a b c d) = ((unat a * 256 + unat b) * 256 + unat c) * 256 + unat d"
  using unat_byte_le [of a] unat_byte_le [of b] unat_byte_le [of c] unat_byte_le [of d]
  by (simp only: join32_def unat_of_nat) simp

lemma unat_byte32: "unat (byte32 k x) = unat x div 256 ^ k mod 256"
  by (simp only: byte32_def unat_of_nat) simp

lemma base256_digit:
  "(b :: nat) \<le> 255 \<Longrightarrow> (a * 256 + b) div 256 = a \<and> (a * 256 + b) mod 256 = b"
  by simp

lemma byte32_join32 [simp]:
  "byte32 0 (join32 a b c d) = d"
  "byte32 (Suc 0) (join32 a b c d) = c"
  "byte32 2 (join32 a b c d) = b"
  "byte32 3 (join32 a b c d) = a"
proof -
  note le = unat_byte_le [of a] unat_byte_le [of b] unat_byte_le [of c] unat_byte_le [of d]
  have pw: "(256 :: nat) ^ 2 = 256 * 256" "(256 :: nat) ^ 3 = 256 * (256 * 256)"
    "(256 :: nat) ^ Suc 0 = 256"
    by simp_all
  have top: "unat a mod 256 = unat a"
    using le by simp
  show "byte32 0 (join32 a b c d) = d"
    by (rule unsigned_word_eqI [where 'a = nat])
      (use le in \<open>simp only: unat_byte32 unat_join32 power_0 div_by_1 base256_digit\<close>)
  show "byte32 (Suc 0) (join32 a b c d) = c"
    by (rule unsigned_word_eqI [where 'a = nat])
      (use le in \<open>simp only: unat_byte32 unat_join32 pw div_mult2_eq base256_digit\<close>)
  show "byte32 2 (join32 a b c d) = b"
    by (rule unsigned_word_eqI [where 'a = nat])
      (use le in \<open>simp only: unat_byte32 unat_join32 pw div_mult2_eq base256_digit\<close>)
  show "byte32 3 (join32 a b c d) = a"
    by (rule unsigned_word_eqI [where 'a = nat])
      (use le in \<open>simp only: unat_byte32 unat_join32 pw div_mult2_eq base256_digit top\<close>)
qed

lemma join32_bytes [simp]:
  "join32 (byte32 3 x) (byte32 2 x) (byte32 (Suc 0) x) (byte32 0 x) = x"
proof (rule unsigned_word_eqI [where 'a = nat])
  let ?q = "unat x div 256 div 256 div 256"
  have "unat x < 4294967296"
    using unsigned_less [of x, where 'a = nat] by simp
  then have top: "?q mod 256 = ?q"
    by (simp add: div_mult2_eq [symmetric])
  have pw: "(256 :: nat) ^ 2 = 256 * 256" "(256 :: nat) ^ 3 = 256 * (256 * 256)"
    "(256 :: nat) ^ Suc 0 = 256"
    by simp_all
  show "unat (join32 (byte32 3 x) (byte32 2 x) (byte32 (Suc 0) x) (byte32 0 x)) = unat x"
    by (simp only: unat_join32 unat_byte32 pw div_mult2_eq top power_0 div_by_1 div_mult_mod_eq)
qed

lemma length_store32 [simp]: "length (store32 bo x) = 4"
  by (simp add: store32_def split: byte_order.splits)

lemma length_eq_4: "length bs = 4 \<longleftrightarrow> (\<exists>a b c d. bs = [a, b, c, d])"
  by (auto simp: numeral_eq_Suc length_Suc_conv)

lemma store32_load32: "length bs = 4 \<Longrightarrow> store32 bo (load32 bo bs) = bs"
  by (auto simp: load32_def store32_def length_eq_4 split: byte_order.splits)

lemma load32_store32 [simp]: "load32 bo (store32 bo x) = x"
  by (simp add: load32_def store32_def split: byte_order.splits)

lemma store32_swap32 [simp]: "store32 bo (swap32 x) = rev (store32 bo x)"
  by (simp add: store32_def swap32_def split: byte_order.splits)

text \<open>\<open>htons\<close>, \<open>ntohs\<close> and \<open>ntohl\<close> of the host.\<close>

definition ntohs :: "byte_order \<Rightarrow> u16 \<Rightarrow> u16" where
  "ntohs bo x = (case bo of LittleEndian \<Rightarrow> swap16 x | BigEndian \<Rightarrow> x)"

definition ntohl :: "byte_order \<Rightarrow> u32 \<Rightarrow> u32" where
  "ntohl bo x = (case bo of LittleEndian \<Rightarrow> swap32 x | BigEndian \<Rightarrow> x)"

text \<open>The bytes of an integer sent in network order are those of its big-endian layout.\<close>

lemma store16_ntohs: "store16 bo (ntohs bo x) = store16 BigEndian x"
  by (simp add: ntohs_def store16_def swap16_def split: byte_order.splits)

lemma store32_ntohl: "store32 bo (ntohl bo x) = store32 BigEndian x"
  by (simp add: ntohl_def store32_def swap32_def split: byte_order.splits)

end
