(* ===== verification/SocksTypes.thy ===== *)
theory SocksTypes
  imports Prelude
begin

text \<open>
  The protocol's vocabulary: \<open>src/SocksTypes.h\<close> (constants, addresses, messages) and
  \<open>src/SocksCommon.cpp\<close> (which codes the program knows). A wrapper struct with one
  \<open>Byte _value\<close> is that byte; a C++ \<open>enum : Byte\<close> enumerator is an abbreviation, so
  that an arbitrary byte of the network is a value of the same type.
\<close>

section \<open>Protocol constants\<close>

abbreviation (input) Version5 :: byte where "Version5 \<equiv> 5"

abbreviation (input) NoAuth :: byte where "NoAuth \<equiv> 0"
abbreviation (input) AuthGSSAPI :: byte where "AuthGSSAPI \<equiv> 1"
abbreviation (input) AuthLoginPass :: byte where "AuthLoginPass \<equiv> 2"
abbreviation (input) NoAvailableMethod :: byte where "NoAvailableMethod \<equiv> 255"

abbreviation (input) TCPStream :: byte where "TCPStream \<equiv> 1"
abbreviation (input) TCPPortBinding :: byte where "TCPPortBinding \<equiv> 2"
abbreviation (input) UDPPortBinding :: byte where "UDPPortBinding \<equiv> 3"

abbreviation (input) IPv4Addr :: byte where "IPv4Addr \<equiv> 1"
abbreviation (input) DomainAddr :: byte where "DomainAddr \<equiv> 3"
abbreviation (input) IPv6Addr :: byte where "IPv6Addr \<equiv> 4"

abbreviation (input) RequestGranted :: byte where "RequestGranted \<equiv> 0"
abbreviation (input) GeneralFailure :: byte where "GeneralFailure \<equiv> 1"
abbreviation (input) RulesetFailure :: byte where "RulesetFailure \<equiv> 2"
abbreviation (input) NetworkUnreachable :: byte where "NetworkUnreachable \<equiv> 3"
abbreviation (input) HostUnreachable :: byte where "HostUnreachable \<equiv> 4"
abbreviation (input) ConnectionRefused :: byte where "ConnectionRefused \<equiv> 5"
abbreviation (input) TTLExpired :: byte where "TTLExpired \<equiv> 6"
abbreviation (input) CommandNotSupported :: byte where "CommandNotSupported \<equiv> 7"
abbreviation (input) AddressNotSupported :: byte where "AddressNotSupported \<equiv> 8"

section \<open>Addresses\<close>

text \<open>
  \<open>SocksVariantAddress\<close> is a \<open>std::variant\<close>; the arrays \<open>Byte _value[4]\<close> and
  \<open>Byte _value[16]\<close> are byte lists whose lengths \<open>wf_variant\<close> records.
\<close>

datatype SocksVariantAddress =
    SocksIPv4Address bytes
  | SocksDomainAddress bytes
  | SocksIPv6Address bytes

fun wf_variant :: "SocksVariantAddress \<Rightarrow> bool" where
  "wf_variant (SocksIPv4Address bs) = (length bs = 4)"
| "wf_variant (SocksDomainAddress bs) = True"
| "wf_variant (SocksIPv6Address bs) = (length bs = 16)"

record SocksAddress =
  addr_type :: byte
  addr_addr :: SocksVariantAddress
  addr_port :: u16

text \<open>\<open>SocksAddress{}\<close>: every member is value-initialised.\<close>

definition emptyAddress :: SocksAddress where
  "emptyAddress = \<lparr>addr_type = 0, addr_addr = SocksIPv4Address [0, 0, 0, 0], addr_port = 0\<rparr>"

text \<open>\<open>memcmp(a, b, n) == 0\<close>.\<close>

fun memcmp_eq :: "bytes \<Rightarrow> bytes \<Rightarrow> nat \<Rightarrow> bool res" where
  "memcmp_eq a b 0 = Inr True"
| "memcmp_eq (x # a) (y # b) (Suc n) = (if x = y then memcmp_eq a b n else Inr False)"
| "memcmp_eq a b (Suc n) = Inl OutOfBounds"

definition eqIPv4 :: "bytes \<Rightarrow> bytes \<Rightarrow> bool res" where
  "eqIPv4 lhs rhs = memcmp_eq lhs rhs 4"

definition eqDomain :: "bytes \<Rightarrow> bytes \<Rightarrow> bool res" where
  "eqDomain lhs rhs =
     (if length lhs = length rhs then memcmp_eq lhs rhs (length lhs) else Inr False)"

definition eqIPv6 :: "bytes \<Rightarrow> bytes \<Rightarrow> bool res" where
  "eqIPv6 lhs rhs = memcmp_eq lhs rhs 16"

fun eqVariant :: "SocksVariantAddress \<Rightarrow> SocksVariantAddress \<Rightarrow> bool res" where
  "eqVariant (SocksIPv4Address a) (SocksIPv4Address b) = eqIPv4 a b"
| "eqVariant (SocksDomainAddress a) (SocksDomainAddress b) = eqDomain a b"
| "eqVariant (SocksIPv6Address a) (SocksIPv6Address b) = eqIPv6 a b"
| "eqVariant _ _ = Inr False"

text \<open>\<open>operator ==\<close> on addresses compares the three members in the order of \<open>std::tie\<close>.\<close>

definition eqAddress :: "SocksAddress \<Rightarrow> SocksAddress \<Rightarrow> bool res" where
  "eqAddress lhs rhs =
     (if addr_type lhs \<noteq> addr_type rhs then Inr False
      else andThen (eqVariant (addr_addr lhs) (addr_addr rhs)) (\<lambda>same.
        if \<not> same then Inr False else Inr (addr_port lhs = addr_port rhs)))"

section \<open>Messages\<close>

text \<open>
  The constructors fill \<open>_version\<close> with \<open>Version5\<close>. The members of a command message that
  its constructor leaves indeterminate are 0 here; \<open>SocksDecoder\<close> shows that no decoded
  message depends on them.
\<close>

record SocksGreetingMsg =
  gm_version :: byte
  gm_authMethods :: "byte list"

definition newGreetingMsg :: SocksGreetingMsg where
  "newGreetingMsg = \<lparr>gm_version = Version5, gm_authMethods = []\<rparr>"

record SocksGreetingMsgResp =
  gr_version :: byte
  gr_authMethod :: byte

record SocksUserPassAuthMsg =
  up_user :: bytes
  up_password :: bytes

definition newUserPassAuthMsg :: SocksUserPassAuthMsg where
  "newUserPassAuthMsg = \<lparr>up_user = [], up_password = []\<rparr>"

record SocksUserPassAuthMsgResp =
  ur_version :: byte
  ur_status :: byte

record SocksCommandMsg =
  cm_version :: byte
  cm_command :: byte
  cm_addrType :: byte
  cm_addr :: SocksVariantAddress
  cm_port :: u16

definition newCommandMsg :: SocksCommandMsg where
  "newCommandMsg = \<lparr>cm_version = Version5, cm_command = 0, cm_addrType = 0,
     cm_addr = SocksIPv4Address [0, 0, 0, 0], cm_port = 0\<rparr>"

record SocksCommandMsgResp =
  cr_version :: byte
  cr_status :: byte
  cr_addrType :: byte
  cr_addr :: SocksVariantAddress
  cr_port :: u16

section \<open>Known codes\<close>

definition isVersionSupport :: "byte \<Rightarrow> bool" where
  "isVersionSupport val = (if val = Version5 then True else False)"

definition isAuthMethodExist :: "byte \<Rightarrow> bool" where
  "isAuthMethodExist val =
     (if val = NoAuth \<or> val = AuthGSSAPI \<or> val = AuthLoginPass then True else False)"

definition isCommandExist :: "byte \<Rightarrow> bool" where
  "isCommandExist val =
     (if val = TCPPortBinding \<or> val = TCPStream \<or> val = UDPPortBinding then True else False)"

definition isAddressTypeExist :: "byte \<Rightarrow> bool" where
  "isAddressTypeExist val =
     (if val = IPv4Addr \<or> val = DomainAddr \<or> val = IPv6Addr then True else False)"

lemma isVersionSupport_iff [simp]: "isVersionSupport v \<longleftrightarrow> v = Version5"
  by (simp add: isVersionSupport_def)

lemma isAuthMethodExist_iff: "isAuthMethodExist m \<longleftrightarrow> m \<in> {NoAuth, AuthGSSAPI, AuthLoginPass}"
  by (simp add: isAuthMethodExist_def)

lemma isCommandExist_iff: "isCommandExist c \<longleftrightarrow> c \<in> {TCPStream, TCPPortBinding, UDPPortBinding}"
  by (auto simp: isCommandExist_def)

lemma isAddressTypeExist_iff: "isAddressTypeExist t \<longleftrightarrow> t \<in> {IPv4Addr, DomainAddr, IPv6Addr}"
  by (simp add: isAddressTypeExist_def)

section \<open>Equality of addresses\<close>

lemma memcmp_eq_correct:
  "n \<le> length a \<Longrightarrow> n \<le> length b \<Longrightarrow> memcmp_eq a b n = Inr (take n a = take n b)"
  by (induction a b n rule: memcmp_eq.induct) auto

lemma eqVariant_correct:
  "wf_variant v \<Longrightarrow> wf_variant w \<Longrightarrow> eqVariant v w = Inr (v = w)"
  by (cases v; cases w) (auto simp: eqIPv4_def eqDomain_def eqIPv6_def memcmp_eq_correct)

text \<open>
  The kind of address a type code announces: the encoder and the address conversion read the
  variant through the code, so a well-formed address has the alternative its code names.
\<close>

fun variant_type :: "SocksVariantAddress \<Rightarrow> byte" where
  "variant_type (SocksIPv4Address bs) = IPv4Addr"
| "variant_type (SocksDomainAddress bs) = DomainAddr"
| "variant_type (SocksIPv6Address bs) = IPv6Addr"

definition wf_address :: "SocksAddress \<Rightarrow> bool" where
  "wf_address a \<longleftrightarrow> wf_variant (addr_addr a) \<and> variant_type (addr_addr a) = addr_type a"

text \<open>
  Comparing two well-formed addresses with \<open>operator ==\<close> never reads out of bounds and decides
  their equality.
\<close>

lemma eqAddress_decides_equality:
  "wf_address a \<Longrightarrow> wf_address b \<Longrightarrow> eqAddress a b = Inr (a = b)"
  by (auto simp: eqAddress_def wf_address_def eqVariant_correct)

end
