(* ===== verification/Wire.thy ===== *)
theory Wire
  imports SocksTypes
begin

text \<open>
  The abstract specification of the codec: the byte format of each message, written as a
  function from the message's contents to the octets of RFC 1928 and RFC 1929. The decoders
  and encoders are proved against these functions. \<open>codec\<close> is the interface between an
  encoder and a decoder of one message type.
\<close>

section \<open>Formats\<close>

definition greetingWire :: "byte list \<Rightarrow> bytes" where
  "greetingWire ms = Version5 # of_nat (length ms) # ms"

definition userPassWire :: "bytes \<Rightarrow> bytes \<Rightarrow> bytes" where
  "userPassWire u p = 1 # of_nat (length u) # u @ of_nat (length p) # p"

fun addressWire :: "SocksVariantAddress \<Rightarrow> bytes" where
  "addressWire (SocksIPv4Address bs) = bs"
| "addressWire (SocksDomainAddress bs) = of_nat (length bs) # bs"
| "addressWire (SocksIPv6Address bs) = bs"

definition commandWire ::
  "byte_order \<Rightarrow> byte \<Rightarrow> SocksVariantAddress \<Rightarrow> u16 \<Rightarrow> bytes" where
  "commandWire bo code v port =
     [Version5, code, 0, variant_type v] @ addressWire v @ store16 bo port"

text \<open>An address that fits the format: array lengths, and a domain length that fits a byte.\<close>

fun wire_variant :: "SocksVariantAddress \<Rightarrow> bool" where
  "wire_variant (SocksIPv4Address bs) = (length bs = 4)"
| "wire_variant (SocksDomainAddress bs) = (length bs \<le> 255)"
| "wire_variant (SocksIPv6Address bs) = (length bs = 16)"

lemma wire_variant_wf: "wire_variant v \<Longrightarrow> wf_variant v"
  by (cases v) auto

lemma variant_type_exists: "isAddressTypeExist (variant_type v)"
  by (cases v) (simp_all add: isAddressTypeExist_def)

section \<open>The codec interface\<close>

text \<open>
  \<open>enc\<close> gives the bytes of a message it accepts, \<open>dec\<close> the message of a buffer it
  accepts; \<open>valid\<close> are the messages both sides agree on.
\<close>

locale codec =
  fixes enc :: "'m \<Rightarrow> bytes option"
    and dec :: "bytes \<Rightarrow> 'm option"
    and valid :: "'m \<Rightarrow> bool"
  assumes enc_valid: "valid m \<Longrightarrow> \<exists>buf. enc m = Some buf"
    and dec_enc: "valid m \<Longrightarrow> enc m = Some buf \<Longrightarrow> dec buf = Some m"
begin

text \<open>Distinct messages have distinct encodings: the format is unambiguous.\<close>

lemma enc_injective:
  "valid m \<Longrightarrow> valid m' \<Longrightarrow> enc m = enc m' \<Longrightarrow> m = m'"
  using enc_valid dec_enc by (metis option.inject)

lemma round_trip: "valid m \<Longrightarrow> Option.bind (enc m) dec = Some m"
  using enc_valid dec_enc by fastforce

end

text \<open>Where the decoder accepts only what the encoder writes, the two sides agree exactly.\<close>

locale exact_codec = codec +
  assumes dec_valid: "dec buf = Some m \<Longrightarrow> valid m"
    and enc_dec: "dec buf = Some m \<Longrightarrow> enc m = Some buf"
begin

lemma dec_injective: "dec buf = Some m \<Longrightarrow> dec buf' = Some m \<Longrightarrow> buf = buf'"
  using enc_dec by (metis option.inject)

lemma accepted_iff: "(\<exists>m. dec buf = Some m) \<longleftrightarrow> (\<exists>m. valid m \<and> enc m = Some buf)"
  using dec_valid enc_dec dec_enc by blast

end

end
