(* ===== verification/SocksDecoder.thy ===== *)
theory SocksDecoder
  imports Wire
begin

text \<open>
  \<open>src/SocksDecoder.cpp\<close>: the three overloads of \<open>decode\<close>. Each takes the received
  buffer and the message to fill, and returns the C++ \<open>bool\<close> with the message as it is when
  the call returns, also when it returns \<open>false\<close>. Every read of the buffer is checked.
\<close>

section \<open>Greeting\<close>

function decodeMethods :: "bytes \<Rightarrow> nat \<Rightarrow> SocksGreetingMsg \<Rightarrow> (bool \<times> SocksGreetingMsg) res" where
  "decodeMethods buf i msg =
     (if i < length buf then
        andThen (vec_at buf i) (\<lambda>m.
        if \<not> isAuthMethodExist m then Inr (False, msg)
        else decodeMethods buf (Suc i) (msg\<lparr>gm_authMethods := gm_authMethods msg @ [m]\<rparr>))
      else Inr (True, msg))"
  by pat_completeness auto
termination
  by (relation "measure (\<lambda>(buf, i, msg). length buf - i)") auto

declare decodeMethods.simps [simp del]

definition decodeGreeting :: "bytes \<Rightarrow> SocksGreetingMsg \<Rightarrow> (bool \<times> SocksGreetingMsg) res" where
  [codec_defs]: "decodeGreeting buf msg =
     (if length buf < 2 then Inr (False, msg) else
      andThen (vec_at buf 0) (\<lambda>ver.
      if \<not> isVersionSupport ver then Inr (False, msg) else
      let msg = msg\<lparr>gm_version := ver\<rparr> in
      andThen (vec_at buf 1) (\<lambda>numberOfMethods.
      if length buf \<noteq> unat numberOfMethods + 2 then Inr (False, msg) else
      decodeMethods buf 2 msg)))"

section \<open>User and password\<close>

text \<open>\<open>std::copy\<close> through \<open>std::back_inserter\<close> appends to the string.\<close>

definition decodeUserPass ::
  "bytes \<Rightarrow> SocksUserPassAuthMsg \<Rightarrow> (bool \<times> SocksUserPassAuthMsg) res" where
  [codec_defs]: "decodeUserPass buf msg =
     (if length buf < 3 then Inr (False, msg) else
      andThen (vec_at buf 0) (\<lambda>ver.
      if ver \<noteq> 1 then Inr (False, msg) else
      andThen (vec_at buf 1) (\<lambda>userLen.
      if length buf < unat userLen + 3 then Inr (False, msg) else
      andThen (vec_range buf 2 (unat userLen)) (\<lambda>user.
      let msg = msg\<lparr>up_user := up_user msg @ user\<rparr> in
      andThen (vec_at buf (2 + unat userLen)) (\<lambda>passLen.
      if length buf \<noteq> unat userLen + unat passLen + 3 then Inr (False, msg) else
      andThen (vec_range buf (3 + unat userLen) (unat passLen)) (\<lambda>pass.
      Inr (True, msg\<lparr>up_password := up_password msg @ pass\<rparr>)))))))"

section \<open>Command\<close>

definition decodeIPv4 ::
  "byte_order \<Rightarrow> bytes \<Rightarrow> SocksCommandMsg \<Rightarrow> (bool \<times> SocksCommandMsg) res" where
  [codec_defs]: "decodeIPv4 bo buf msg =
     (if length buf < 8 then Inr (False, msg) else
      andThen (vec_range buf 4 4) (\<lambda>raw.
      let ip = load32 bo raw in
      Inr (True, msg\<lparr>cm_addr := SocksIPv4Address (store32 bo ip)\<rparr>)))"

definition decodeDomain :: "bytes \<Rightarrow> SocksCommandMsg \<Rightarrow> (bool \<times> SocksCommandMsg) res" where
  [codec_defs]: "decodeDomain buf msg =
     (if length buf < 5 then Inr (False, msg) else
      andThen (vec_at buf 4) (\<lambda>domainLen.
      if length buf < 5 + unat domainLen then Inr (False, msg) else
      andThen (vec_range buf 5 (unat domainLen)) (\<lambda>name.
      Inr (True, msg\<lparr>cm_addr := SocksDomainAddress name\<rparr>))))"

definition decodeIPv6 :: "bytes \<Rightarrow> SocksCommandMsg \<Rightarrow> (bool \<times> SocksCommandMsg) res" where
  [codec_defs]: "decodeIPv6 buf msg =
     (if length buf < 20 then Inr (False, msg) else
      andThen (vec_range buf 4 16) (\<lambda>raw.
      Inr (True, msg\<lparr>cm_addr := SocksIPv6Address raw\<rparr>)))"

definition portFrom ::
  "byte_order \<Rightarrow> bytes \<Rightarrow> nat \<Rightarrow> SocksCommandMsg \<Rightarrow> (bool \<times> SocksCommandMsg) res" where
  [codec_defs]: "portFrom bo buf off msg =
     andThen (vec_range buf off 2) (\<lambda>raw. Inr (True, msg\<lparr>cm_port := load16 bo raw\<rparr>))"

definition decodePort ::
  "byte_order \<Rightarrow> bytes \<Rightarrow> SocksCommandMsg \<Rightarrow> (bool \<times> SocksCommandMsg) res" where
  [codec_defs]: "decodePort bo buf msg =
     (if cm_addrType msg = IPv4Addr then
        (if length buf \<noteq> 10 then Inr (False, msg) else portFrom bo buf 8 msg)
      else if cm_addrType msg = DomainAddr then
        (case cm_addr msg of
           SocksDomainAddress name \<Rightarrow>
             if length buf \<noteq> 7 + length name then Inr (False, msg)
             else portFrom bo buf (5 + length name) msg
         | _ \<Rightarrow> Inl BadVariantAccess)
      else if cm_addrType msg = IPv6Addr then
        (if length buf \<noteq> 22 then Inr (False, msg) else portFrom bo buf 20 msg)
      else Inr (False, msg))"

definition decodeCommand ::
  "byte_order \<Rightarrow> bytes \<Rightarrow> SocksCommandMsg \<Rightarrow> (bool \<times> SocksCommandMsg) res" where
  [codec_defs]: "decodeCommand bo buf msg =
     (if length buf < 6 then Inr (False, msg) else
      andThen (vec_at buf 0) (\<lambda>ver.
      if \<not> isVersionSupport ver then Inr (False, msg) else
      andThen (vec_at buf 2) (\<lambda>reserved.
      if reserved \<noteq> 0 then Inr (False, msg) else
      let msg = msg\<lparr>cm_version := ver\<rparr> in
      andThen (vec_at buf 1) (\<lambda>cmd.
      if \<not> isCommandExist cmd then Inr (False, msg) else
      let msg = msg\<lparr>cm_command := cmd\<rparr> in
      andThen (vec_at buf 3) (\<lambda>ty.
      if \<not> isAddressTypeExist ty then Inr (False, msg) else
      let msg = msg\<lparr>cm_addrType := ty\<rparr> in
      andThen
        (if ty = IPv4Addr then decodeIPv4 bo buf msg
         else if ty = DomainAddr then decodeDomain buf msg
         else if ty = IPv6Addr then decodeIPv6 buf msg
         else Inr (False, msg)) (\<lambda>(ok, msg).
      if \<not> ok then Inr (False, msg) else
      andThen (decodePort bo buf msg) (\<lambda>(ok, msg).
      if \<not> ok then Inr (False, msg) else Inr (True, msg))))))))"

section \<open>Results\<close>

text \<open>The loop over the methods: the known prefix is appended; true if nothing else is left.\<close>

lemma decodeMethods_eq:
  "decodeMethods buf i msg =
     Inr (list_all isAuthMethodExist (drop i buf),
          msg\<lparr>gm_authMethods := gm_authMethods msg @ takeWhile isAuthMethodExist (drop i buf)\<rparr>)"
proof (induction buf i msg rule: decodeMethods.induct)
  case (1 buf i msg)
  show ?case
  proof (cases "i < length buf")
    case True
    then have "drop i buf = buf ! i # drop (Suc i) buf"
      by (simp add: Cons_nth_drop_Suc)
    with True 1 show ?thesis
      by (cases "isAuthMethodExist (buf ! i)") (simp_all add: decodeMethods.simps [of buf i])
  next
    case False
    then show ?thesis
      by (simp add: decodeMethods.simps [of buf i])
  qed
qed

lemma takeWhile_all: "list_all P xs \<Longrightarrow> takeWhile P xs = xs"
  by (induction xs) auto

lemma nat_of_byte_wire: "n = unat (b :: byte) \<Longrightarrow> of_nat n = b \<and> n \<le> 255"
  using unat_byte_le [of b] by simp

lemma decodeGreeting_accepts:
  "decodeGreeting buf msg = Inr (True, m) \<longleftrightarrow>
     (\<exists>ms. length ms \<le> 255 \<and> list_all isAuthMethodExist ms \<and> buf = greetingWire ms \<and>
       m = msg\<lparr>gm_version := Version5, gm_authMethods := gm_authMethods msg @ ms\<rparr>)"
proof (cases buf)
  case Nil
  then show ?thesis by (simp add: codec_defs greetingWire_def)
next
  case (Cons v rest)
  show ?thesis
  proof (cases rest)
    case Nil
    with Cons show ?thesis by (simp add: codec_defs greetingWire_def)
  next
    case (Cons n ms)
    with \<open>buf = v # rest\<close> show ?thesis
      using nat_of_byte_wire [of "length ms" n]
      by (auto simp: codec_defs greetingWire_def decodeMethods_eq takeWhile_all
          of_nat_byte_inverse Let_def)
  qed
qed

lemma userPass_layout:
  assumes "length buf = ul + pl + 3"
  shows "buf = buf ! 0 # buf ! 1 # take ul (drop 2 buf) @ buf ! (2 + ul) # take pl (drop (3 + ul) buf)"
proof -
  obtain v n rest where buf: "buf = v # n # rest" "length rest = ul + pl + 1"
    using assms by (cases buf; cases "tl buf") auto
  then have "drop ul rest = rest ! ul # drop (Suc ul) rest"
    by (simp add: Cons_nth_drop_Suc)
  then have "rest = take ul rest @ rest ! ul # drop (Suc ul) rest"
    by (metis append_take_drop_id)
  with buf show ?thesis
    by (simp add: numeral_eq_Suc)
qed

lemma decodeUserPass_accepts:
  "decodeUserPass buf msg = Inr (True, m) \<longleftrightarrow>
     (\<exists>u p. length u \<le> 255 \<and> length p \<le> 255 \<and> buf = userPassWire u p \<and>
       m = \<lparr>up_user = up_user msg @ u, up_password = up_password msg @ p\<rparr>)"
  (is "?dec \<longleftrightarrow> ?wire")
proof
  assume dec: ?dec
  let ?ul = "unat (buf ! 1)"
  let ?pl = "unat (buf ! (2 + ?ul))"
  from dec have long: "\<not> length buf < 3"
    by (auto simp: codec_defs)
  then have "buf \<noteq> []" by auto
  with dec long have len: "length buf = ?ul + ?pl + 3" and v: "buf ! 0 = 1"
    and m: "m = \<lparr>up_user = up_user msg @ take ?ul (drop 2 buf),
                 up_password = up_password msg @ take ?pl (drop (3 + ?ul) buf)\<rparr>"
    by (auto simp: codec_defs Let_def split: if_splits)
  have "buf = userPassWire (take ?ul (drop 2 buf)) (take ?pl (drop (3 + ?ul) buf))"
    using userPass_layout [OF len] len v by (simp add: userPassWire_def)
  then show ?wire
    using len m unat_byte_le [of "buf ! 1"] unat_byte_le [of "buf ! (2 + ?ul)"]
    by (intro exI [of _ "take ?ul (drop 2 buf)"] exI [of _ "take ?pl (drop (3 + ?ul) buf)"]) simp
next
  assume ?wire
  then obtain u p where le: "length u \<le> 255" "length p \<le> 255" and buf: "buf = userPassWire u p"
    and m: "m = \<lparr>up_user = up_user msg @ u, up_password = up_password msg @ p\<rparr>"
    by blast
  have "drop (3 + length u) buf = p"
    unfolding buf userPassWire_def by (simp add: numeral_eq_Suc)
  with le m show ?dec
    by (simp add: buf codec_defs userPassWire_def of_nat_byte_inverse nth_append Let_def)
qed

text \<open>The port is the two bytes behind the address.\<close>

lemma portFrom_ok:
  "off + 2 \<le> length buf \<Longrightarrow>
     portFrom bo buf off msg = Inr (True, msg\<lparr>cm_port := load16 bo (take 2 (drop off buf))\<rparr>)"
  by (simp add: portFrom_def)

lemma commandWire_length:
  "wire_variant v \<Longrightarrow> length (commandWire bo c v p) =
     (case v of SocksIPv4Address _ \<Rightarrow> 10 | SocksDomainAddress n \<Rightarrow> 7 + length n
              | SocksIPv6Address _ \<Rightarrow> 22)"
  by (cases v) (simp_all add: commandWire_def)

lemma decodeCommand_wire:
  assumes "isCommandExist c" and "wire_variant v"
  shows "decodeCommand bo (commandWire bo c v p) msg =
    Inr (True, \<lparr>cm_version = Version5, cm_command = c, cm_addrType = variant_type v,
      cm_addr = v, cm_port = p\<rparr>)"
proof (cases v)
  case (SocksIPv4Address bs)
  with assms show ?thesis
    by (simp add: codec_defs commandWire_def isAddressTypeExist_def Let_def store32_load32)
next
  case (SocksDomainAddress bs)
  with assms show ?thesis
    by (simp add: codec_defs commandWire_def isAddressTypeExist_def Let_def of_nat_byte_inverse
        drop_plus)
next
  case (SocksIPv6Address bs)
  with assms show ?thesis
    by (simp add: codec_defs commandWire_def isAddressTypeExist_def Let_def)
qed

lemma header_layout:
  "4 \<le> length buf \<Longrightarrow> buf = buf ! 0 # buf ! 1 # buf ! 2 # buf ! 3 # drop 4 buf"
  by (cases buf; cases "tl buf"; cases "tl (tl buf)"; cases "tl (tl (tl buf))")
    (auto simp: numeral_eq_Suc)

lemma port_bytes:
  "length buf = off + 2 \<Longrightarrow> store16 bo (load16 bo (take 2 (drop off buf))) = drop off buf"
  by (simp add: store16_load16)

lemma command_layout:
  assumes "length buf = 4 + k + 2"
  shows "buf = [buf ! 0, buf ! 1, buf ! 2, buf ! 3] @ take k (drop 4 buf) @
           store16 bo (load16 bo (take 2 (drop (4 + k) buf)))"
proof -
  have "drop 4 buf = take k (drop 4 buf) @ drop (4 + k) buf"
    by (metis append_take_drop_id drop_plus)
  with assms show ?thesis
    using header_layout [of buf] port_bytes [of buf "4 + k" bo] by simp
qed

lemma decodeCommand_long:
  "decodeCommand bo buf msg = Inr (True, m) \<Longrightarrow> 6 \<le> length buf \<and> buf \<noteq> []"
  by (auto simp: decodeCommand_def split: if_splits)

lemma decodeCommand_accepts_only_wire:
  assumes dec: "decodeCommand bo buf msg = Inr (True, m)"
  shows "\<exists>c v p. isCommandExist c \<and> wire_variant v \<and> buf = commandWire bo c v p \<and>
    m = \<lparr>cm_version = Version5, cm_command = c, cm_addrType = variant_type v,
         cm_addr = v, cm_port = p\<rparr>"
proof -
  have long: "6 \<le> length buf" "buf \<noteq> []"
    using decodeCommand_long [OF dec] by simp_all
  with dec have hd: "buf ! 0 = Version5" "buf ! 2 = 0" "isCommandExist (buf ! 1)"
    and ty: "isAddressTypeExist (buf ! 3)"
    by (auto simp: decodeCommand_def Let_def split: if_splits)
  from ty consider "buf ! 3 = IPv4Addr" | "buf ! 3 = DomainAddr" | "buf ! 3 = IPv6Addr"
    by (auto simp: isAddressTypeExist_def split: if_splits)
  then show ?thesis
  proof cases
    case 1
    with dec long hd ty have len: "length buf = 4 + 4 + 2"
      and m: "m = \<lparr>cm_version = Version5, cm_command = buf ! 1, cm_addrType = IPv4Addr,
         cm_addr = SocksIPv4Address (take 4 (drop 4 buf)), cm_port = load16 bo (take 2 (drop 8 buf))\<rparr>"
      by (auto simp: codec_defs Let_def store32_load32 split: if_splits)
    show ?thesis
      using command_layout [OF len, of bo] hd m 1 len
      by (intro exI [of _ "buf ! 1"] exI [of _ "SocksIPv4Address (take 4 (drop 4 buf))"]
          exI [of _ "load16 bo (take 2 (drop 8 buf))"]) (simp add: commandWire_def)
  next
    case 2
    let ?n = "unat (buf ! 4)"
    have fits: "\<not> length buf < 5 + ?n"
      using dec long hd ty 2 by (auto simp: codec_defs Let_def split: if_splits)
    with dec long hd ty 2 have len: "length buf = 4 + (1 + ?n) + 2"
      and m: "m = \<lparr>cm_version = Version5, cm_command = buf ! 1, cm_addrType = DomainAddr,
         cm_addr = SocksDomainAddress (take ?n (drop 5 buf)),
         cm_port = load16 bo (take 2 (drop (5 + ?n) buf))\<rparr>"
      by (auto simp: codec_defs Let_def split: if_splits)
    have "take (1 + ?n) (drop 4 buf) = buf ! 4 # take ?n (drop 5 buf)"
      using long by (simp add: Cons_nth_drop_Suc [symmetric])
    then show ?thesis
      using command_layout [OF len, of bo] hd m 2 len unat_byte_le [of "buf ! 4"]
      by (intro exI [of _ "buf ! 1"] exI [of _ "SocksDomainAddress (take ?n (drop 5 buf))"]
          exI [of _ "load16 bo (take 2 (drop (5 + ?n) buf))"]) (simp add: commandWire_def)
  next
    case 3
    with dec long hd ty have len: "length buf = 4 + 16 + 2"
      and m: "m = \<lparr>cm_version = Version5, cm_command = buf ! 1, cm_addrType = IPv6Addr,
         cm_addr = SocksIPv6Address (take 16 (drop 4 buf)),
         cm_port = load16 bo (take 2 (drop 20 buf))\<rparr>"
      by (auto simp: codec_defs Let_def split: if_splits)
    show ?thesis
      using command_layout [OF len, of bo] hd m 3 len
      by (intro exI [of _ "buf ! 1"] exI [of _ "SocksIPv6Address (take 16 (drop 4 buf))"]
          exI [of _ "load16 bo (take 2 (drop 20 buf))"]) (simp add: commandWire_def)
  qed
qed

text \<open>No read of a decoder leaves the buffer, and no variant is read as another alternative.\<close>

lemma decodeGreeting_no_fault: "\<exists>r. decodeGreeting buf msg = Inr r"
  by (cases "length buf < 2") (auto simp: codec_defs Let_def decodeMethods_eq nonempty_of_length)

lemma decodeUserPass_no_fault: "\<exists>r. decodeUserPass buf msg = Inr r"
  by (cases "length buf < 3") (auto simp: codec_defs Let_def nonempty_of_length)

lemma decodePort_no_fault:
  "cm_addrType msg = DomainAddr \<Longrightarrow> cm_addr msg = SocksDomainAddress n \<Longrightarrow>
     \<exists>r. decodePort bo buf msg = Inr r"
  "cm_addrType msg \<noteq> DomainAddr \<Longrightarrow> \<exists>r. decodePort bo buf msg = Inr r"
  by (auto simp: codec_defs)

lemma decodeIPv4_result:
  "decodeIPv4 bo buf msg = Inr (8 \<le> length buf, if 8 \<le> length buf
     then msg\<lparr>cm_addr := SocksIPv4Address (take 4 (drop 4 buf))\<rparr> else msg)"
  by (simp add: decodeIPv4_def Let_def store32_load32)

lemma decodeIPv6_result:
  "decodeIPv6 buf msg = Inr (20 \<le> length buf, if 20 \<le> length buf
     then msg\<lparr>cm_addr := SocksIPv6Address (take 16 (drop 4 buf))\<rparr> else msg)"
  by (simp add: decodeIPv6_def)

lemma decodeDomain_result:
  assumes "5 \<le> length buf"
  shows "decodeDomain buf msg =
    (let n = unat (buf ! 4) in Inr (5 + n \<le> length buf, if 5 + n \<le> length buf
     then msg\<lparr>cm_addr := SocksDomainAddress (take n (drop 5 buf))\<rparr> else msg))"
  using assms by (simp add: decodeDomain_def Let_def)

lemma finish_no_fault:
  "\<exists>r. m = Inr r \<Longrightarrow> \<exists>r. andThen m (\<lambda>(ok, msg). if \<not> ok then Inr (False, msg) else Inr (True, msg)) = Inr r"
  by (auto split: prod.splits)

lemma decodeCommand_no_fault: "\<exists>r. decodeCommand bo buf msg = Inr r"
proof (cases "length buf < 6 \<or> buf ! 0 \<noteq> Version5 \<or> buf ! 2 \<noteq> 0 \<or> \<not> isCommandExist (buf ! 1) \<or>
    \<not> isAddressTypeExist (buf ! 3)")
  case True
  show ?thesis
  proof (cases "length buf < 6")
    case False
    then have "buf \<noteq> []" by auto
    with True False show ?thesis
      by (auto simp: decodeCommand_def Let_def)
  qed (auto simp: decodeCommand_def)
next
  case False
  then have long: "\<not> length buf < 6" and "buf \<noteq> []" by auto
  moreover from False consider "buf ! 3 = IPv4Addr" | "buf ! 3 = DomainAddr" | "buf ! 3 = IPv6Addr"
    by (auto simp: isAddressTypeExist_def split: if_splits)
  then show ?thesis
  proof cases
    case 1
    with False \<open>buf \<noteq> []\<close> show ?thesis
      by (auto simp: decodeCommand_def Let_def decodeIPv4_result
          simp del: split_paired_Ex intro!: finish_no_fault decodePort_no_fault(2))
  next
    case 2
    with False \<open>buf \<noteq> []\<close> show ?thesis
      by (auto simp: decodeCommand_def Let_def decodeDomain_result
          simp del: split_paired_Ex intro!: finish_no_fault decodePort_no_fault(1))
  next
    case 3
    with False \<open>buf \<noteq> []\<close> show ?thesis
      by (auto simp: decodeCommand_def Let_def decodeIPv6_result
          simp del: split_paired_Ex intro!: finish_no_fault decodePort_no_fault(2))
  qed
qed

text \<open>
  C11: on every buffer a peer can send, and whatever the message held before, none of the three
  decoders reads outside the buffer or takes a variant for another alternative.
\<close>

theorem decoders_memory_safe:
  "(\<exists>r. decodeGreeting buf g = Inr r) \<and> (\<exists>r. decodeUserPass buf u = Inr r) \<and>
   (\<exists>r. decodeCommand bo buf c = Inr r)"
  using decodeGreeting_no_fault decodeUserPass_no_fault decodeCommand_no_fault by blast

end
