(* ===== verification/SocksEncoder.thy ===== *)
theory SocksEncoder
  imports Wire
begin

text \<open>
  \<open>src/SocksEncoder.cpp\<close>: the six overloads of \<open>encode\<close>. Each takes the message and the
  caller's buffer and returns the C++ \<open>bool\<close> with the buffer as it is when the call
  returns, also when it returns \<open>false\<close>. Every write is checked; \<open>std::get\<close> of the wrong
  alternative is the exception \<open>BadVariantAccess\<close>.
\<close>

section \<open>Greeting\<close>

fun putEach :: "nat \<Rightarrow> byte list \<Rightarrow> bytes \<Rightarrow> bytes res" where
  "putEach i [] buf = Inr buf"
| "putEach i (m # ms) buf = andThen (vec_put i [m] buf) (putEach (Suc i) ms)"

definition encodeGreeting :: "SocksGreetingMsg \<Rightarrow> bytes \<Rightarrow> (bool \<times> bytes) res" where
  [codec_defs]: "encodeGreeting msg buf =
     (let ms = gm_authMethods msg in
      if gm_version msg \<noteq> Version5 \<or> \<not> isVersionSupport (gm_version msg) then Inr (False, buf)
      else if ms = [] then Inr (False, buf)
      else if list_ex (\<lambda>m. \<not> isAuthMethodExist m \<and> m \<noteq> NoAvailableMethod) ms
      then Inr (False, buf)
      else
        andThen (vec_put 0 [gm_version msg] (vec_resize (2 + length ms) buf)) (\<lambda>buf.
        andThen (vec_put 1 [of_nat (length ms)] buf) (\<lambda>buf.
        andThen (putEach 2 ms buf) (\<lambda>buf. Inr (True, buf)))))"

definition encodeGreetingResp :: "SocksGreetingMsgResp \<Rightarrow> bytes \<Rightarrow> (bool \<times> bytes) res" where
  [codec_defs]: "encodeGreetingResp msg buf =
     (if gr_version msg \<noteq> Version5 \<or> \<not> isVersionSupport (gr_version msg) then Inr (False, buf)
      else if \<not> isAuthMethodExist (gr_authMethod msg) \<and> gr_authMethod msg \<noteq> NoAvailableMethod
      then Inr (False, buf)
      else
        andThen (vec_put 0 [gr_version msg] (vec_resize 2 buf)) (\<lambda>buf.
        andThen (vec_put 1 [gr_authMethod msg] buf) (\<lambda>buf. Inr (True, buf))))"

section \<open>User and password\<close>

definition wrongString :: "bytes \<Rightarrow> bool" where
  "wrongString str \<longleftrightarrow> str = [] \<or> length str > 255"

definition encodeUserPass :: "SocksUserPassAuthMsg \<Rightarrow> bytes \<Rightarrow> (bool \<times> bytes) res" where
  [codec_defs]: "encodeUserPass msg buf =
     (let u = up_user msg; p = up_password msg in
      if wrongString u \<or> wrongString p then Inr (False, buf)
      else
        andThen (vec_put 0 [1] (vec_resize (length u + length p + 3) buf)) (\<lambda>buf.
        andThen (vec_put 1 [of_nat (length u)] buf) (\<lambda>buf.
        andThen (vec_put 2 u buf) (\<lambda>buf.
        andThen (vec_put (length u + 2) [of_nat (length p)] buf) (\<lambda>buf.
        andThen (vec_put (length u + 3) p buf) (\<lambda>buf. Inr (True, buf)))))))"

definition encodeUserPassResp :: "SocksUserPassAuthMsgResp \<Rightarrow> bytes \<Rightarrow> (bool \<times> bytes) res" where
  [codec_defs]: "encodeUserPassResp msg buf =
     (if ur_version msg \<noteq> Version5 \<or> \<not> isVersionSupport (ur_version msg) then Inr (False, buf)
      else
        andThen (vec_put 0 [ur_version msg] (vec_resize 2 buf)) (\<lambda>buf.
        andThen (vec_put 1 [ur_status msg] buf) (\<lambda>buf. Inr (True, buf))))"

section \<open>Command\<close>

definition encodeCommand ::
  "byte_order \<Rightarrow> SocksCommandMsg \<Rightarrow> bytes \<Rightarrow> (bool \<times> bytes) res" where
  [codec_defs]: "encodeCommand bo msg buf =
     (if cm_version msg \<noteq> Version5 then Inr (False, buf)
      else if \<not> isAddressTypeExist (cm_addrType msg) then Inr (False, buf)
      else if \<not> isCommandExist (cm_command msg) then Inr (False, buf)
      else
        andThen (vec_put 0 [cm_version msg] (vec_resize 6 buf)) (\<lambda>buf.
        andThen (vec_put 1 [cm_command msg] buf) (\<lambda>buf.
        andThen (vec_put 2 [0] buf) (\<lambda>buf.
        andThen (vec_put 3 [cm_addrType msg] buf) (\<lambda>buf.
        andThen
          (if cm_addrType msg = IPv4Addr then
             (case cm_addr msg of
                SocksIPv4Address a \<Rightarrow>
                  andThen (vec_range a 0 4) (\<lambda>raw.
                  andThen (vec_put 4 raw (vec_resize 10 buf)) (\<lambda>buf. Inr (True, buf)))
              | _ \<Rightarrow> Inl BadVariantAccess)
           else if cm_addrType msg = DomainAddr then
             (case cm_addr msg of
                SocksDomainAddress a \<Rightarrow>
                  andThen (vec_put 4 [of_nat (length a)] (vec_resize (7 + length a) buf)) (\<lambda>buf.
                  andThen (vec_put 5 a buf) (\<lambda>buf. Inr (True, buf)))
              | _ \<Rightarrow> Inl BadVariantAccess)
           else if cm_addrType msg = IPv6Addr then
             (case cm_addr msg of
                SocksIPv6Address a \<Rightarrow>
                  andThen (vec_range a 0 16) (\<lambda>raw.
                  andThen (vec_put 4 raw (vec_resize 22 buf)) (\<lambda>buf. Inr (True, buf)))
              | _ \<Rightarrow> Inl BadVariantAccess)
           else Inr (False, buf)) (\<lambda>(ok, buf).
        if \<not> ok then Inr (False, buf)
        else
          andThen (vec_put (length buf - 2) (store16 bo (cm_port msg)) buf) (\<lambda>buf.
          Inr (True, buf))))))))"

definition encodeCommandResp ::
  "byte_order \<Rightarrow> SocksCommandMsgResp \<Rightarrow> bytes \<Rightarrow> (bool \<times> bytes) res" where
  [codec_defs]: "encodeCommandResp bo msg buf =
     (if cr_version msg \<noteq> Version5 \<or> \<not> isVersionSupport (cr_version msg) then Inr (False, buf)
      else if \<not> isAddressTypeExist (cr_addrType msg) then Inr (False, buf)
      else
        andThen (vec_put 0 [cr_version msg] (vec_resize 6 buf)) (\<lambda>buf.
        andThen (vec_put 1 [cr_status msg] buf) (\<lambda>buf.
        andThen (vec_put 2 [0] buf) (\<lambda>buf.
        andThen (vec_put 3 [cr_addrType msg] buf) (\<lambda>buf.
        if cr_addrType msg = IPv4Addr then
          (case cr_addr msg of
             SocksIPv4Address a \<Rightarrow>
               andThen (vec_put 4 a (vec_resize 10 buf)) (\<lambda>buf.
               andThen (vec_put 8 (store16 bo (cr_port msg)) buf) (\<lambda>buf. Inr (True, buf)))
           | _ \<Rightarrow> Inl BadVariantAccess)
        else if cr_addrType msg = DomainAddr then
          (case cr_addr msg of
             SocksDomainAddress a \<Rightarrow>
               if length a > 255 then Inr (False, buf)
               else
                 andThen (vec_put 4 [of_nat (length a)] (vec_resize (7 + length a) buf)) (\<lambda>buf.
                 andThen (vec_put 5 a buf) (\<lambda>buf.
                 andThen (vec_put (5 + length a) (store16 bo (cr_port msg)) buf) (\<lambda>buf.
                 Inr (True, buf))))
           | _ \<Rightarrow> Inl BadVariantAccess)
        else if cr_addrType msg = IPv6Addr then
          (case cr_addr msg of
             SocksIPv6Address a \<Rightarrow>
               andThen (vec_put 4 a (vec_resize 22 buf)) (\<lambda>buf.
               andThen (vec_put 20 (store16 bo (cr_port msg)) buf) (\<lambda>buf. Inr (True, buf)))
           | _ \<Rightarrow> Inl BadVariantAccess)
        else Inr (True, buf))))))"

section \<open>Results\<close>

lemma putEach_fill:
  "length pre = i \<Longrightarrow> length ms \<le> length rest \<Longrightarrow>
     putEach i ms (pre @ rest) = Inr (pre @ ms @ drop (length ms) rest)"
proof (induction ms arbitrary: i pre rest)
  case Nil
  then show ?case by simp
next
  case (Cons m ms)
  then obtain r rest' where rest: "rest = r # rest'"
    by (cases rest) auto
  have "vec_put i [m] (pre @ rest) = Inr ((pre @ [m]) @ rest')"
    using vec_put_fill [of pre i "[m]" rest] Cons.prems rest by simp
  with Cons.IH [of "pre @ [m]" "Suc i" rest'] Cons.prems rest show ?case
    by simp
qed

lemma encodeGreeting_wire:
  assumes "gm_version msg = Version5" and "gm_authMethods msg \<noteq> []"
    and "list_all (\<lambda>m. isAuthMethodExist m \<or> m = NoAvailableMethod) (gm_authMethods msg)"
  shows "encodeGreeting msg buf = Inr (True, greetingWire (gm_authMethods msg))"
proof -
  let ?ms = "gm_authMethods msg"
  let ?r = "drop 2 (vec_resize (2 + length ?ms) buf)"
  have "\<not> list_ex (\<lambda>m. \<not> isAuthMethodExist m \<and> m \<noteq> NoAvailableMethod) ?ms"
    using assms(3) by (auto simp: list_ex_iff list_all_iff)
  moreover have "putEach 2 ?ms ([Version5, of_nat (length ?ms)] @ ?r) = Inr (greetingWire ?ms)"
    by (subst putEach_fill) (simp_all add: greetingWire_def)
  ultimately show ?thesis
    using assms(1,2) by (simp add: codec_defs Let_def vec_put_def numeral_2_eq_2)
qed

lemma encodeUserPass_wire:
  assumes "\<not> wrongString (up_user msg)" and "\<not> wrongString (up_password msg)"
  shows "encodeUserPass msg buf = Inr (True, userPassWire (up_user msg) (up_password msg))"
  using assms
  by (simp add: codec_defs Let_def vec_put_def userPassWire_def numeral_eq_Suc)

text \<open>The four header bytes of a command or its reply, written into the resized buffer.\<close>

lemma put_header:
  "length buf = 6 \<Longrightarrow>
     andThen (vec_put 0 [a] buf) (\<lambda>buf.
     andThen (vec_put 1 [b] buf) (\<lambda>buf.
     andThen (vec_put 2 [c] buf) (\<lambda>buf.
     andThen (vec_put 3 [d] buf) k))) = k (a # b # c # d # drop 4 buf)"
  by (simp add: vec_put_def numeral_eq_Suc)

lemma resize_header:
  "length rest = 2 \<Longrightarrow> 6 \<le> n \<Longrightarrow>
     vec_resize n (a # b # c # d # rest) = a # b # c # d # rest @ replicate (n - 6) 0"
  by (simp add: vec_resize_def)

lemma encodeCommand_wire:
  assumes "cm_version msg = Version5" and "isCommandExist (cm_command msg)"
    and "wf_variant (cm_addr msg)" and "variant_type (cm_addr msg) = cm_addrType msg"
  shows "encodeCommand bo msg buf =
    Inr (True, commandWire bo (cm_command msg) (cm_addr msg) (cm_port msg))"
proof -
  have ex: "isAddressTypeExist (cm_addrType msg)"
    using variant_type_exists [of "cm_addr msg"] assms(4) by simp
  show ?thesis
  proof (cases "cm_addr msg")
    case (SocksIPv4Address a)
    with assms ex show ?thesis
      by (simp add: encodeCommand_def put_header resize_header vec_put_def commandWire_def)
  next
    case (SocksDomainAddress a)
    with assms ex show ?thesis
      by (simp add: encodeCommand_def put_header resize_header vec_put_def commandWire_def
          numeral_eq_Suc)
  next
    case (SocksIPv6Address a)
    with assms ex show ?thesis
      by (simp add: encodeCommand_def put_header resize_header vec_put_def commandWire_def)
  qed
qed

lemma encodeCommandResp_wire:
  assumes "cr_version msg = Version5"
    and "wire_variant (cr_addr msg)" and "variant_type (cr_addr msg) = cr_addrType msg"
  shows "encodeCommandResp bo msg buf =
    Inr (True, commandWire bo (cr_status msg) (cr_addr msg) (cr_port msg))"
proof -
  have ex: "isAddressTypeExist (cr_addrType msg)"
    using variant_type_exists [of "cr_addr msg"] assms(3) by simp
  show ?thesis
  proof (cases "cr_addr msg")
    case (SocksIPv4Address a)
    with assms ex show ?thesis
      by (simp add: encodeCommandResp_def put_header resize_header vec_put_def commandWire_def)
  next
    case (SocksDomainAddress a)
    with assms ex show ?thesis
      by (simp add: encodeCommandResp_def put_header resize_header vec_put_def commandWire_def
          numeral_eq_Suc)
  next
    case (SocksIPv6Address a)
    with assms ex show ?thesis
      by (simp add: encodeCommandResp_def put_header resize_header vec_put_def commandWire_def)
  qed
qed

end
