(* ===== verification/Codec.thy ===== *)
theory Codec
  imports SocksDecoder SocksEncoder
begin

text \<open>
  \<open>SocksDecoder\<close> and \<open>SocksEncoder\<close> together: which buffers are accepted, the round trips of
  the three message types that both classes handle (interpretations of \<open>codec\<close>), and the
  replies, which only the encoder handles.
\<close>

section \<open>The two classes as codecs\<close>

text \<open>The result of an encoder or a decoder that returned \<open>true\<close>.\<close>

definition accepted :: "(bool \<times> 'a) res \<Rightarrow> 'a option" where
  "accepted r = (case r of Inl e \<Rightarrow> None | Inr (ok, x) \<Rightarrow> if ok then Some x else None)"

lemma accepted_eq_Some: "accepted r = Some x \<longleftrightarrow> r = Inr (True, x)"
  by (auto simp: accepted_def split: sum.splits)

lemma accepted_Inr [simp]: "accepted (Inr (True, x)) = Some x"
  by (simp add: accepted_def)

definition valid_greeting :: "SocksGreetingMsg \<Rightarrow> bool" where
  "valid_greeting m \<longleftrightarrow> gm_version m = Version5 \<and> gm_authMethods m \<noteq> [] \<and>
     length (gm_authMethods m) \<le> 255 \<and> list_all isAuthMethodExist (gm_authMethods m)"

definition valid_userPass :: "SocksUserPassAuthMsg \<Rightarrow> bool" where
  "valid_userPass m \<longleftrightarrow> \<not> wrongString (up_user m) \<and> \<not> wrongString (up_password m)"

definition valid_command :: "SocksCommandMsg \<Rightarrow> bool" where
  "valid_command m \<longleftrightarrow> cm_version m = Version5 \<and> isCommandExist (cm_command m) \<and>
     wire_variant (cm_addr m) \<and> variant_type (cm_addr m) = cm_addrType m"

lemma valid_greeting_encodes:
  "valid_greeting m \<Longrightarrow> encodeGreeting m buf = Inr (True, greetingWire (gm_authMethods m))"
  by (rule encodeGreeting_wire) (auto simp: valid_greeting_def list_all_iff)

lemma valid_userPass_encodes:
  "valid_userPass m \<Longrightarrow>
     encodeUserPass m buf = Inr (True, userPassWire (up_user m) (up_password m))"
  by (simp add: valid_userPass_def encodeUserPass_wire)

lemma valid_command_encodes:
  "valid_command m \<Longrightarrow>
     encodeCommand bo m buf = Inr (True, commandWire bo (cm_command m) (cm_addr m) (cm_port m))"
  by (simp add: valid_command_def encodeCommand_wire wire_variant_wf)

interpretation gc: codec
  "\<lambda>m. accepted (encodeGreeting m [])" "\<lambda>buf. accepted (decodeGreeting buf newGreetingMsg)"
  valid_greeting
proof
  fix m buf
  assume v: "valid_greeting m"
  then show "\<exists>buf. accepted (encodeGreeting m []) = Some buf"
    by (simp add: valid_greeting_encodes)
  assume "accepted (encodeGreeting m []) = Some buf"
  with v show "accepted (decodeGreeting buf newGreetingMsg) = Some m"
    by (auto simp: valid_greeting_encodes accepted_eq_Some decodeGreeting_accepts
        valid_greeting_def newGreetingMsg_def)
qed

interpretation uc: codec
  "\<lambda>m. accepted (encodeUserPass m [])" "\<lambda>buf. accepted (decodeUserPass buf newUserPassAuthMsg)"
  valid_userPass
proof
  fix m buf
  assume v: "valid_userPass m"
  then show "\<exists>buf. accepted (encodeUserPass m []) = Some buf"
    by (simp add: valid_userPass_encodes)
  assume "accepted (encodeUserPass m []) = Some buf"
  with v have "buf = userPassWire (up_user m) (up_password m)"
    by (simp add: valid_userPass_encodes)
  with v show "accepted (decodeUserPass buf newUserPassAuthMsg) = Some m"
    unfolding accepted_eq_Some decodeUserPass_accepts
    by (intro exI [of _ "up_user m"] exI [of _ "up_password m"])
      (simp add: valid_userPass_def wrongString_def newUserPassAuthMsg_def)
qed

interpretation cc: exact_codec
  "\<lambda>m. accepted (encodeCommand bo m [])" "\<lambda>buf. accepted (decodeCommand bo buf newCommandMsg)"
  valid_command
  for bo
proof
  fix m buf
  show "valid_command m \<Longrightarrow> \<exists>buf. accepted (encodeCommand bo m []) = Some buf"
    by (simp add: valid_command_encodes)
  show "accepted (decodeCommand bo buf newCommandMsg) = Some m"
    if "valid_command m" and "accepted (encodeCommand bo m []) = Some buf"
    using that by (auto simp: valid_command_encodes accepted_eq_Some decodeCommand_wire valid_command_def)
  assume "accepted (decodeCommand bo buf newCommandMsg) = Some m"
  then have "decodeCommand bo buf newCommandMsg = Inr (True, m)"
    by (simp add: accepted_eq_Some)
  from decodeCommand_accepts_only_wire [OF this]
  obtain c v p where wire: "isCommandExist c" "wire_variant v" "buf = commandWire bo c v p"
    and m: "m = \<lparr>cm_version = Version5, cm_command = c, cm_addrType = variant_type v,
         cm_addr = v, cm_port = p\<rparr>"
    by blast
  then show v: "valid_command m"
    by (simp add: valid_command_def)
  show "accepted (encodeCommand bo m []) = Some buf"
    using v wire m by (simp add: valid_command_encodes)
qed

section \<open>Accepted buffers\<close>

lemma greeting_iff:
  "decodeGreeting buf newGreetingMsg = Inr (True, m) \<longleftrightarrow>
     (\<exists>ms. length ms \<le> 255 \<and> set ms \<subseteq> {NoAuth, AuthGSSAPI, AuthLoginPass} \<and>
       buf = greetingWire ms \<and> m = \<lparr>gm_version = Version5, gm_authMethods = ms\<rparr>)"
proof -
  have known: "list_all isAuthMethodExist ms \<longleftrightarrow> set ms \<subseteq> {NoAuth, AuthGSSAPI, AuthLoginPass}" for ms
    by (auto simp: list_all_iff isAuthMethodExist_iff)
  show ?thesis
    by (simp add: decodeGreeting_accepts newGreetingMsg_def known)
qed

lemma userPass_iff:
  "decodeUserPass buf newUserPassAuthMsg = Inr (True, m) \<longleftrightarrow>
     (\<exists>u p. length u \<le> 255 \<and> length p \<le> 255 \<and> buf = userPassWire u p \<and>
       m = \<lparr>up_user = u, up_password = p\<rparr>)"
  by (simp add: decodeUserPass_accepts newUserPassAuthMsg_def)

text \<open>
  C13: a greeting is accepted exactly when it is version 5, a count and that many methods, each
  of them known to the program; the decoded message lists these methods in order.
\<close>

theorem greeting_language:
  "decodeGreeting buf newGreetingMsg = Inr (True, m) \<longleftrightarrow>
     (\<exists>ms. length ms \<le> 255 \<and> set ms \<subseteq> {NoAuth, AuthGSSAPI, AuthLoginPass} \<and>
       buf = greetingWire ms \<and> m = \<lparr>gm_version = Version5, gm_authMethods = ms\<rparr>)"
  by (rule greeting_iff)

text \<open>
  C14: a user/password message is accepted exactly when it is the sub-negotiation version 1 and
  two length-prefixed strings that fill the buffer; these are the decoded user and password.
\<close>

theorem userPass_language:
  "decodeUserPass buf newUserPassAuthMsg = Inr (True, m) \<longleftrightarrow>
     (\<exists>u p. length u \<le> 255 \<and> length p \<le> 255 \<and> buf = userPassWire u p \<and>
       m = \<lparr>up_user = u, up_password = p\<rparr>)"
  by (rule userPass_iff)

text \<open>
  C12: a command is accepted exactly when it is the wire format of a known command and an address
  that fits its announced type, with nothing behind the port; the decoded message has these
  values, whatever the message object held before the call.
\<close>

theorem command_language:
  "decodeCommand bo buf old = Inr (True, m) \<longleftrightarrow>
     (\<exists>c v p. c \<in> {TCPStream, TCPPortBinding, UDPPortBinding} \<and> wire_variant v \<and>
       buf = commandWire bo c v p \<and>
       m = \<lparr>cm_version = Version5, cm_command = c, cm_addrType = variant_type v,
            cm_addr = v, cm_port = p\<rparr>)"
  (is "?dec \<longleftrightarrow> ?wire")
proof
  assume ?dec
  from decodeCommand_accepts_only_wire [OF this] show ?wire
    unfolding isCommandExist_iff .
next
  assume ?wire
  then show ?dec
    by (elim exE conjE) (simp add: decodeCommand_wire isCommandExist_iff)
qed

section \<open>Round trips\<close>

text \<open>
  A valid command message, encoded into any buffer and decoded into any message object, comes
  back unchanged.
\<close>

theorem command_round_trip:
  assumes "valid_command m"
  shows "\<exists>wire. encodeCommand bo m buf = Inr (True, wire) \<and> decodeCommand bo wire old = Inr (True, m)"
proof -
  have "cm_version m = Version5" and "isCommandExist (cm_command m)" and "wire_variant (cm_addr m)"
    and "variant_type (cm_addr m) = cm_addrType m"
    using assms by (simp_all add: valid_command_def)
  then show ?thesis
    using valid_command_encodes [OF assms] by (simp add: decodeCommand_wire)
qed

theorem command_round_trip_witness:
  "\<exists>wire. encodeCommand LittleEndian \<lparr>cm_version = 5, cm_command = 1, cm_addrType = 3,
       cm_addr = SocksDomainAddress [101, 120], cm_port = 80\<rparr> [9, 9] = Inr (True, wire) \<and>
     decodeCommand LittleEndian wire newCommandMsg = Inr (True, \<lparr>cm_version = 5, cm_command = 1,
       cm_addrType = 3, cm_addr = SocksDomainAddress [101, 120], cm_port = 80\<rparr>)"
  by (rule command_round_trip) (simp add: valid_command_def isCommandExist_def)

text \<open>
  A valid greeting and a valid user/password message survive encoding and decoding; two
  valid messages with the same encoding are equal.
\<close>

theorem login_round_trips:
  assumes "valid_greeting g" and "valid_userPass u" and "valid_userPass u'"
  shows "Option.bind (accepted (encodeGreeting g [])) (\<lambda>b. accepted (decodeGreeting b newGreetingMsg)) = Some g
    \<and> Option.bind (accepted (encodeUserPass u [])) (\<lambda>b. accepted (decodeUserPass b newUserPassAuthMsg)) = Some u
    \<and> (accepted (encodeUserPass u []) = accepted (encodeUserPass u' []) \<longleftrightarrow> u = u')"
  using gc.round_trip [OF assms(1)] uc.round_trip [OF assms(2)] uc.enc_injective [OF assms(2,3)]
  by blast

theorem login_round_trips_witness:
  "Option.bind (accepted (encodeGreeting \<lparr>gm_version = 5, gm_authMethods = [0, 2]\<rparr> []))
     (\<lambda>b. accepted (decodeGreeting b newGreetingMsg)) = Some \<lparr>gm_version = 5, gm_authMethods = [0, 2]\<rparr>"
proof -
  have "valid_greeting \<lparr>gm_version = 5, gm_authMethods = [0, 2]\<rparr>"
    by (simp add: valid_greeting_def isAuthMethodExist_def)
  moreover have "valid_userPass \<lparr>up_user = [104], up_password = [116]\<rparr>"
    by (simp add: valid_userPass_def wrongString_def)
  ultimately show ?thesis
    using login_round_trips by blast
qed

section \<open>Errors and bounds of the encoder\<close>

lemma address_type_cases:
  "isAddressTypeExist t \<Longrightarrow> t = IPv4Addr \<or> t = DomainAddr \<or> t = IPv6Addr"
  by (auto simp: isAddressTypeExist_def split: if_splits)

text \<open>
  For a reply whose address has well-formed arrays, the encoder throws exactly when the
  reply passes its checks and the variant holds another alternative than the announced type;
  it never writes outside the buffer.
\<close>

theorem commandResp_throws_iff:
  assumes "wf_variant (cr_addr msg)"
  shows "encodeCommandResp bo msg buf = Inl e \<longleftrightarrow>
    e = BadVariantAccess \<and> cr_version msg = Version5 \<and> isAddressTypeExist (cr_addrType msg) \<and>
    variant_type (cr_addr msg) \<noteq> cr_addrType msg"
proof (cases "cr_version msg = Version5 \<and> isAddressTypeExist (cr_addrType msg)")
  case True
  show ?thesis
  proof (cases "cr_addr msg")
    case (SocksIPv4Address a)
    with True assms show ?thesis
      by (auto dest!: address_type_cases simp: encodeCommandResp_def put_header resize_header vec_put_def)
  next
    case (SocksDomainAddress a)
    with True show ?thesis
      by (auto dest!: address_type_cases
          simp: encodeCommandResp_def put_header resize_header vec_put_def)
  next
    case (SocksIPv6Address a)
    with True assms show ?thesis
      by (auto dest!: address_type_cases simp: encodeCommandResp_def put_header resize_header vec_put_def)
  qed
next
  case False
  then show ?thesis
    by (auto simp: encodeCommandResp_def)
qed

theorem commandResp_throws_iff_witness:
  "encodeCommandResp BigEndian \<lparr>cr_version = 5, cr_status = 0, cr_addrType = 3,
     cr_addr = SocksIPv4Address [1, 2, 3, 4], cr_port = 80\<rparr> [] = Inl BadVariantAccess"
  by (subst commandResp_throws_iff) (simp_all add: isAddressTypeExist_def)

lemma of_nat_byte_unat: "unat (of_nat n :: byte) = n mod 256"
  by (simp add: unat_of_nat)

text \<open>
  A greeting with more than 255 known methods is encoded without an error, but its count byte
  has wrapped around modulo 256 and no decoder accepts the result.
\<close>

theorem greeting_count_wraps:
  assumes "gm_version g = Version5" and "list_all isAuthMethodExist (gm_authMethods g)"
    and "255 < length (gm_authMethods g)"
  shows "\<exists>wire. encodeGreeting g buf = Inr (True, wire) \<and> wire = greetingWire (gm_authMethods g) \<and>
    unat (wire ! 1) = length (gm_authMethods g) mod 256 \<and>
    accepted (decodeGreeting wire newGreetingMsg) = None"
proof -
  let ?ms = "gm_authMethods g"
  have "?ms \<noteq> []" using assms(3) by auto
  then have enc: "encodeGreeting g buf = Inr (True, greetingWire ?ms)"
    using assms(1,2) by (intro encodeGreeting_wire) (auto simp: list_all_iff)
  have "greetingWire ?ms \<noteq> greetingWire ms" if "length ms \<le> 255" for ms
    using that assms(3) by (auto simp: greetingWire_def)
  then have "accepted (decodeGreeting (greetingWire ?ms) newGreetingMsg) \<noteq> Some m" for m
    by (auto simp: accepted_eq_Some greeting_iff)
  with enc show ?thesis
    by (auto simp: greetingWire_def of_nat_byte_unat)
qed

theorem greeting_count_wraps_witness:
  "\<exists>wire. encodeGreeting \<lparr>gm_version = 5, gm_authMethods = replicate 300 2\<rparr> [] = Inr (True, wire) \<and>
     wire = greetingWire (replicate 300 2) \<and> unat (wire ! 1) = 44 \<and>
     accepted (decodeGreeting wire newGreetingMsg) = None"
  using greeting_count_wraps [of "\<lparr>gm_version = 5, gm_authMethods = replicate 300 2\<rparr>" "[]"]
  by (simp add: list_all_iff isAuthMethodExist_def)

text \<open>The failure replies of the session carry \<open>SocksAddress{}\<close>, whose type code 0 is unknown.\<close>

lemma encode_emptyAddress:
  "encodeCommandResp bo \<lparr>cr_version = Version5, cr_status = st, cr_addrType = addr_type emptyAddress,
     cr_addr = addr_addr emptyAddress, cr_port = addr_port emptyAddress\<rparr> buf = Inr (False, buf)"
  by (simp add: encodeCommandResp_def emptyAddress_def isAddressTypeExist_def)

lemma encodeGreetingResp_ok:
  "isAuthMethodExist m \<or> m = NoAvailableMethod \<Longrightarrow>
     encodeGreetingResp \<lparr>gr_version = Version5, gr_authMethod = m\<rparr> buf = Inr (True, [Version5, m])"
  by (simp add: encodeGreetingResp_def vec_put_def numeral_2_eq_2)

lemma encodeUserPassResp_ok:
  "encodeUserPassResp \<lparr>ur_version = Version5, ur_status = st\<rparr> buf = Inr (True, [Version5, st])"
  by (simp add: encodeUserPassResp_def vec_put_def numeral_2_eq_2)

end
