(* ===== verification/StateMachine.thy ===== *)
theory StateMachine
  imports Codec
begin

text \<open>
  \<open>src/StateMachine.h\<close> and \<open>src/StateMachine.cpp\<close>: the server side of the handshake.

  The machine stores one value, \<open>_state\<close>, and talks to its owner through the six methods of
  \<open>IStateMachineOwner\<close>, which the owner may answer by calling the machine again before it
  returns. The methods are therefore commands over the whole state \<open>'w\<close> in which machine and
  owner live, and take as arguments how \<open>_state\<close> is read and written there and what the owner's
  methods do (\<open>machine_base\<close> and its extensions). Reading or writing \<open>_state\<close> of a machine that
  no longer exists is a fault. The owner in the program is \<open>InConnTracker\<close> (theory
  \<open>InConnTracker\<close>); the owner of this theory records the calls it gets, as the mock of the
  repository's tests does.
\<close>

section \<open>State and owner interface\<close>

datatype sm_state =
    WaitForGreeting
  | WaitForPassAuth
  | WaitForPassAuthResult
  | WaitForCommand
  | WaitForProxyStart
  | ProxyStarted
  | ProxyStartFailed
  | ProtocolError

text \<open>
  The record is split by what the methods need: the two results that come back into the machine
  (\<open>processPassAuthResult\<close>, \<open>processStartProxyResult\<close>) only send replies, while the
  messages of the client also start requests.
\<close>

record 'w machine_base =
  getState :: "'w \<Rightarrow> sm_state res"
  putState :: "sm_state \<Rightarrow> 'w cmd"
  onProtocolError :: "string \<Rightarrow> 'w cmd"

record 'w machine_sender = "'w machine_base" +
  sendGreetingResponse :: "byte \<Rightarrow> 'w cmd"
  sendPassAuthResponse :: "byte \<Rightarrow> 'w cmd"
  sendCommandResponse :: "byte \<Rightarrow> SocksAddress \<Rightarrow> 'w cmd"

record 'w machine_owner = "'w machine_sender" +
  requestPassAuth :: "bytes \<Rightarrow> bytes \<Rightarrow> 'w cmd"
  startProxy :: "byte \<Rightarrow> SocksAddress \<Rightarrow> 'w cmd"

section \<open>Methods\<close>

fun stateToStr :: "sm_state \<Rightarrow> string" where
  "stateToStr WaitForGreeting = ''State::WaitForGreeting''"
| "stateToStr WaitForPassAuth = ''State::WaitForPassAuth''"
| "stateToStr WaitForPassAuthResult = ''State::WaitForPassAuthResult''"
| "stateToStr WaitForCommand = ''State::WaitForCommand''"
| "stateToStr WaitForProxyStart = ''State::WaitForProxyStart''"
| "stateToStr ProxyStarted = ''State::ProxyStarted''"
| "stateToStr ProxyStartFailed = ''State::ProxyStartFailed''"
| "stateToStr ProtocolError = ''State::ProtocolError''"

text \<open>\<open>setState\<close> reads the old state for its log line, then stores the new one.\<close>

definition setState :: "('w, 'z) machine_base_scheme \<Rightarrow> sm_state \<Rightarrow> 'w cmd" where
  "setState M newState w = andThen (getState M w) (\<lambda>_. putState M newState w)"

definition protocolError :: "('w, 'z) machine_base_scheme \<Rightarrow> string \<Rightarrow> 'w cmd" where
  "protocolError M reason w =
     andThen (setState M ProtocolError w) (\<lambda>w.
     andThen (getState M w) (\<lambda>st.
     onProtocolError M (''Protocol error in state: '' @ stateToStr st @ '', reason: '' @ reason) w))"

definition processPassAuthResult :: "('w, 'z) machine_sender_scheme \<Rightarrow> bool \<Rightarrow> 'w cmd" where
  "processPassAuthResult M success w =
     andThen (getState M w) (\<lambda>st.
     if st \<noteq> WaitForPassAuthResult
     then protocolError M ''Password authentication result is not expected'' w
     else if success
     then andThen (setState M WaitForCommand w) (sendPassAuthResponse M 0)
     else sendPassAuthResponse M 1 w)"

definition processStartProxyResult ::
  "('w, 'z) machine_sender_scheme \<Rightarrow> byte \<Rightarrow> SocksAddress \<Rightarrow> 'w cmd" where
  "processStartProxyResult M status localAddress w =
     andThen (getState M w) (\<lambda>st.
     if st \<noteq> WaitForProxyStart then protocolError M ''Start proxy is not expected'' w
     else
       andThen (sendCommandResponse M status localAddress w) (\<lambda>w.
       if status = RequestGranted then setState M ProxyStarted w
       else setState M ProxyStartFailed w))"

definition processGreetingMsg ::
  "('w, 'z) machine_sender_scheme \<Rightarrow> SocksGreetingMsg \<Rightarrow> 'w cmd" where
  "processGreetingMsg M msg w =
     andThen (getState M w) (\<lambda>st.
     if st \<noteq> WaitForGreeting then protocolError M ''Greeting is not expected'' w
     else
       let authMethods = gm_authMethods msg;
           res = (case find (\<lambda>m. m = AuthLoginPass) authMethods of
                    Some _ \<Rightarrow> AuthLoginPass | None \<Rightarrow> NoAvailableMethod) in
       andThen (sendGreetingResponse M res w) (\<lambda>w.
       if res = AuthLoginPass then setState M WaitForPassAuth w
       else protocolError M ''Unsupported auth method'' w))"

definition processPassAuthMsg ::
  "('w, 'z) machine_owner_scheme \<Rightarrow> SocksUserPassAuthMsg \<Rightarrow> 'w cmd" where
  "processPassAuthMsg M msg w =
     andThen (getState M w) (\<lambda>st.
     if st \<noteq> WaitForPassAuth then protocolError M ''Password auth is not expected'' w
     else
       andThen (setState M WaitForPassAuthResult w)
         (requestPassAuth M (up_user msg) (up_password msg)))"

definition processCommandMsg ::
  "('w, 'z) machine_owner_scheme \<Rightarrow> SocksCommandMsg \<Rightarrow> 'w cmd" where
  "processCommandMsg M msg w =
     andThen (getState M w) (\<lambda>st.
     if st \<noteq> WaitForCommand then protocolError M ''Command is not expected'' w
     else
       andThen (setState M WaitForProxyStart w)
         (startProxy M (cm_command msg)
           \<lparr>addr_type = cm_addrType msg, addr_addr = cm_addr msg, addr_port = cm_port msg\<rparr>))"

definition processBuffer ::
  "byte_order \<Rightarrow> ('w, 'z) machine_owner_scheme \<Rightarrow> bytes \<Rightarrow> 'w cmd" where
  "processBuffer bo M buffer w =
     andThen (getState M w) (\<lambda>st.
     case st of
       WaitForGreeting \<Rightarrow>
         andThen (decodeGreeting buffer newGreetingMsg) (\<lambda>(ok, msg).
         if \<not> ok then protocolError M ''Greeting decode error'' w
         else processGreetingMsg M msg w)
     | WaitForPassAuth \<Rightarrow>
         andThen (decodeUserPass buffer newUserPassAuthMsg) (\<lambda>(ok, msg).
         if \<not> ok then protocolError M ''User/Password authentication decode error'' w
         else processPassAuthMsg M msg w)
     | WaitForCommand \<Rightarrow>
         andThen (decodeCommand bo buffer newCommandMsg) (\<lambda>(ok, msg).
         if \<not> ok then protocolError M ''Command decode error'' w
         else processCommandMsg M msg w)
     | _ \<Rightarrow> protocolError M ''Message in wrong state'' w)"

section \<open>The interface between the machine and the place it is stored in\<close>

text \<open>
  \<open>M\<close> gives access to one machine in the state: writing its \<open>_state\<close> succeeds exactly where
  reading it does, and what is read back is what was written.
\<close>

locale machine_store =
  fixes M :: "('w, 'z) machine_base_scheme"
  assumes put_live: "getState M w = Inr s \<Longrightarrow> \<exists>w'. putState M t w = Inr w' \<and> getState M w' = Inr t"
begin

lemma setState_live:
  "getState M w = Inr s \<Longrightarrow> \<exists>w'. setState M t w = Inr w' \<and> putState M t w = Inr w' \<and> getState M w' = Inr t"
  using put_live [of w s t] by (auto simp: setState_def)

text \<open>
  Every protocol error reaches the owner with the state already \<open>ProtocolError\<close>, and so does
  the text it is given: the state in which the error happened is not in it.
\<close>

lemma protocolError_calls_owner:
  assumes "getState M w = Inr s"
  shows "\<exists>w'. putState M ProtocolError w = Inr w' \<and> getState M w' = Inr ProtocolError \<and>
    protocolError M reason w =
      onProtocolError M (''Protocol error in state: State::ProtocolError, reason: '' @ reason) w'"
  using put_live [OF assms, of ProtocolError] assms by (auto simp: protocolError_def setState_def)

lemma dead_machine: "getState M w = Inl e \<Longrightarrow> setState M t w = Inl e \<and> protocolError M r w = Inl e"
  by (simp add: setState_def protocolError_def)

end

end
