(* ===== verification/Handshake.thy ===== *)
theory Handshake
  imports StateMachine
begin

text \<open>
  The state machine of \<open>StateMachine.cpp\<close> on its own: an owner that records the calls it gets
  (the \<open>StateMachineOwnerMock\<close> of \<open>src/Tests/Mocks.h\<close>), an abstract specification of the
  handshake as a labelled transition relation, the refinement between the two, and the safety
  properties that follow for every sequence of inputs.
\<close>

section \<open>The recording owner\<close>

datatype owner_call =
    CGreetingResponse byte
  | CRequestPassAuth bytes bytes
  | CPassAuthResponse byte
  | CStartProxy byte SocksAddress
  | CCommandResponse byte SocksAddress
  | CProtocolError string

record recorder =
  rec_state :: sm_state
  rec_calls :: "owner_call list"

definition note_call :: "owner_call \<Rightarrow> recorder cmd" where
  "note_call c w = Inr (w\<lparr>rec_calls := rec_calls w @ [c]\<rparr>)"

definition recordingOwner :: "recorder machine_owner" where
  "recordingOwner =
     \<lparr>getState = (\<lambda>w. Inr (rec_state w)),
      putState = (\<lambda>s w. Inr (w\<lparr>rec_state := s\<rparr>)),
      onProtocolError = (\<lambda>r. note_call (CProtocolError r)),
      sendGreetingResponse = (\<lambda>m. note_call (CGreetingResponse m)),
      sendPassAuthResponse = (\<lambda>s. note_call (CPassAuthResponse s)),
      sendCommandResponse = (\<lambda>s a. note_call (CCommandResponse s a)),
      requestPassAuth = (\<lambda>u p. note_call (CRequestPassAuth u p)),
      startProxy = (\<lambda>c a. note_call (CStartProxy c a))\<rparr>"

lemma recordingOwner_simps [simp]:
  "getState recordingOwner w = Inr (rec_state w)"
  "putState recordingOwner s w = Inr (w\<lparr>rec_state := s\<rparr>)"
  "onProtocolError recordingOwner r w = Inr (w\<lparr>rec_calls := rec_calls w @ [CProtocolError r]\<rparr>)"
  "sendGreetingResponse recordingOwner m w = Inr (w\<lparr>rec_calls := rec_calls w @ [CGreetingResponse m]\<rparr>)"
  "sendPassAuthResponse recordingOwner st w = Inr (w\<lparr>rec_calls := rec_calls w @ [CPassAuthResponse st]\<rparr>)"
  "sendCommandResponse recordingOwner st a w = Inr (w\<lparr>rec_calls := rec_calls w @ [CCommandResponse st a]\<rparr>)"
  "requestPassAuth recordingOwner u p w = Inr (w\<lparr>rec_calls := rec_calls w @ [CRequestPassAuth u p]\<rparr>)"
  "startProxy recordingOwner c a w = Inr (w\<lparr>rec_calls := rec_calls w @ [CStartProxy c a]\<rparr>)"
  by (simp_all add: recordingOwner_def note_call_def)

interpretation rec_store: machine_store recordingOwner
  by unfold_locales simp

text \<open>The three entry points of the machine, and a run over a list of inputs.\<close>

datatype sm_input =
    Buffer bytes
  | PassAuthResult bool
  | StartProxyResult byte SocksAddress

fun feed :: "byte_order \<Rightarrow> sm_input \<Rightarrow> recorder cmd" where
  "feed bo (Buffer b) = processBuffer bo recordingOwner b"
| "feed bo (PassAuthResult ok) = processPassAuthResult recordingOwner ok"
| "feed bo (StartProxyResult st a) = processStartProxyResult recordingOwner st a"

definition newMachine :: recorder where
  "newMachine = \<lparr>rec_state = WaitForGreeting, rec_calls = []\<rparr>"

definition feedAll :: "byte_order \<Rightarrow> sm_input list \<Rightarrow> recorder res" where
  "feedAll bo ins = seqs (map (feed bo) ins) newMachine"

section \<open>The specification\<close>

text \<open>
  The messages of the client are those of the wire format. \<open>expected bo s i\<close>: the input \<open>i\<close> is one the
  handshake can go on with in the state \<open>s\<close>.
\<close>

definition greeting_buffer :: "byte list \<Rightarrow> bytes \<Rightarrow> bool" where
  "greeting_buffer ms b \<longleftrightarrow> length ms \<le> 255 \<and> set ms \<subseteq> {NoAuth, AuthGSSAPI, AuthLoginPass} \<and> b = greetingWire ms"

definition login_buffer :: "bytes \<Rightarrow> bytes \<Rightarrow> bytes \<Rightarrow> bool" where
  "login_buffer u p b \<longleftrightarrow> length u \<le> 255 \<and> length p \<le> 255 \<and> b = userPassWire u p"

definition command_buffer :: "byte_order \<Rightarrow> byte \<Rightarrow> SocksAddress \<Rightarrow> bytes \<Rightarrow> bool" where
  "command_buffer bo c a b \<longleftrightarrow> isCommandExist c \<and> wire_variant (addr_addr a) \<and> wf_address a \<and>
     b = commandWire bo c (addr_addr a) (addr_port a)"

fun expected :: "byte_order \<Rightarrow> sm_state \<Rightarrow> sm_input \<Rightarrow> bool" where
  "expected bo WaitForGreeting (Buffer b) \<longleftrightarrow> (\<exists>ms. greeting_buffer ms b)"
| "expected bo WaitForPassAuth (Buffer b) \<longleftrightarrow> (\<exists>u p. login_buffer u p b)"
| "expected bo WaitForPassAuthResult (PassAuthResult ok) \<longleftrightarrow> True"
| "expected bo WaitForCommand (Buffer b) \<longleftrightarrow> (\<exists>c a. command_buffer bo c a b)"
| "expected bo WaitForProxyStart (StartProxyResult st a) \<longleftrightarrow> True"
| "expected bo s i \<longleftrightarrow> False"

text \<open>The text of an error, which always names the state the machine is in afterwards.\<close>

definition error_text :: "string \<Rightarrow> string" where
  "error_text reason = ''Protocol error in state: State::ProtocolError, reason: '' @ reason"

fun unexpected :: "sm_state \<Rightarrow> sm_input \<Rightarrow> string" where
  "unexpected WaitForGreeting (Buffer b) = ''Greeting decode error''"
| "unexpected WaitForPassAuth (Buffer b) = ''User/Password authentication decode error''"
| "unexpected WaitForCommand (Buffer b) = ''Command decode error''"
| "unexpected s (Buffer b) = ''Message in wrong state''"
| "unexpected s (PassAuthResult ok) = ''Password authentication result is not expected''"
| "unexpected s (StartProxyResult st a) = ''Start proxy is not expected''"

text \<open>
  One step: the state, the input, the calls the owner gets in order, and the next state. There is one rule
  for each kind of expected input, and an error for all others.
\<close>

inductive spec_step :: "byte_order \<Rightarrow> sm_state \<Rightarrow> sm_input \<Rightarrow> owner_call list \<Rightarrow> sm_state \<Rightarrow> bool" for bo where
  greeted: "greeting_buffer ms b \<Longrightarrow> AuthLoginPass \<in> set ms \<Longrightarrow>
     spec_step bo WaitForGreeting (Buffer b) [CGreetingResponse AuthLoginPass] WaitForPassAuth"
| refused: "greeting_buffer ms b \<Longrightarrow> AuthLoginPass \<notin> set ms \<Longrightarrow>
     spec_step bo WaitForGreeting (Buffer b)
       [CGreetingResponse NoAvailableMethod, CProtocolError (error_text ''Unsupported auth method'')] ProtocolError"
| asked: "login_buffer u p b \<Longrightarrow>
     spec_step bo WaitForPassAuth (Buffer b) [CRequestPassAuth u p] WaitForPassAuthResult"
| granted: "spec_step bo WaitForPassAuthResult (PassAuthResult True) [CPassAuthResponse 0] WaitForCommand"
| denied: "spec_step bo WaitForPassAuthResult (PassAuthResult False) [CPassAuthResponse 1] WaitForPassAuthResult"
| command: "command_buffer bo c a b \<Longrightarrow>
     spec_step bo WaitForCommand (Buffer b) [CStartProxy c a] WaitForProxyStart"
| started: "spec_step bo WaitForProxyStart (StartProxyResult RequestGranted a)
     [CCommandResponse RequestGranted a] ProxyStarted"
| failed: "st \<noteq> RequestGranted \<Longrightarrow>
     spec_step bo WaitForProxyStart (StartProxyResult st a) [CCommandResponse st a] ProxyStartFailed"
| error: "\<not> expected bo s i \<Longrightarrow> spec_step bo s i [CProtocolError (error_text (unexpected s i))] ProtocolError"

inductive_simps spec_from_greeting: "spec_step bo WaitForGreeting (Buffer b) cs t"
inductive_simps spec_from_passAuth: "spec_step bo WaitForPassAuth (Buffer b) cs t"
inductive_simps spec_from_passAuthResult: "spec_step bo WaitForPassAuthResult (PassAuthResult ok) cs t"
inductive_simps spec_from_command: "spec_step bo WaitForCommand (Buffer b) cs t"
inductive_simps spec_from_proxyStart: "spec_step bo WaitForProxyStart (StartProxyResult st a) cs t"
inductive_cases spec_stepE: "spec_step bo s i cs t"

text \<open>A run: the inputs, the state they lead to and all calls made.\<close>

inductive spec_run :: "byte_order \<Rightarrow> sm_input list \<Rightarrow> sm_state \<Rightarrow> owner_call list \<Rightarrow> bool" for bo where
  run_start: "spec_run bo [] WaitForGreeting []"
| run_step: "spec_run bo ins s cs \<Longrightarrow> spec_step bo s i ds t \<Longrightarrow> spec_run bo (ins @ [i]) t (cs @ ds)"

section \<open>Refinement\<close>

lemma protocolError_rec [simp]:
  "protocolError recordingOwner r w = Inr \<lparr>rec_state = ProtocolError, rec_calls = rec_calls w @
     [CProtocolError (error_text r)]\<rparr>"
  by (simp add: protocolError_def setState_def error_text_def)

lemma setState_rec [simp]: "setState recordingOwner s w = Inr (w\<lparr>rec_state := s\<rparr>)"
  by (simp add: setState_def)

text \<open>The decoders accept the buffers of the specification.\<close>

lemma accepts_greeting:
  "decodeGreeting b newGreetingMsg = Inr (True, m) \<longleftrightarrow>
     (\<exists>ms. greeting_buffer ms b \<and> m = \<lparr>gm_version = Version5, gm_authMethods = ms\<rparr>)"
  by (auto simp: greeting_iff greeting_buffer_def)

lemma accepts_login:
  "decodeUserPass b newUserPassAuthMsg = Inr (True, m) \<longleftrightarrow>
     (\<exists>u p. login_buffer u p b \<and> m = \<lparr>up_user = u, up_password = p\<rparr>)"
  by (auto simp: userPass_iff login_buffer_def)

lemma address_eta [simp]:
  "\<lparr>addr_type = addr_type a, addr_addr = addr_addr a, addr_port = addr_port a\<rparr> = (a :: SocksAddress)"
  by simp

lemma accepts_command:
  "decodeCommand bo b newCommandMsg = Inr (True, m) \<longleftrightarrow>
     (\<exists>c a. command_buffer bo c a b \<and> m = \<lparr>cm_version = Version5, cm_command = c,
       cm_addrType = addr_type a, cm_addr = addr_addr a, cm_port = addr_port a\<rparr>)"
proof
  assume "decodeCommand bo b newCommandMsg = Inr (True, m)"
  from decodeCommand_accepts_only_wire [OF this] obtain c v p where "isCommandExist c" "wire_variant v"
    "b = commandWire bo c v p" "m = \<lparr>cm_version = Version5, cm_command = c, cm_addrType = variant_type v,
      cm_addr = v, cm_port = p\<rparr>"
    by blast
  then show "\<exists>c a. command_buffer bo c a b \<and> m = \<lparr>cm_version = Version5, cm_command = c,
       cm_addrType = addr_type a, cm_addr = addr_addr a, cm_port = addr_port a\<rparr>"
    by (intro exI [of _ c] exI [of _ "\<lparr>addr_type = variant_type v, addr_addr = v, addr_port = p\<rparr>"])
      (simp add: command_buffer_def wf_address_def wire_variant_wf)
qed (auto simp: command_buffer_def decodeCommand_wire wf_address_def)

text \<open>One input of the machine is one step of the specification.\<close>

definition steps_to :: "byte_order \<Rightarrow> recorder \<Rightarrow> sm_input \<Rightarrow> recorder res \<Rightarrow> bool" where
  "steps_to bo w i r \<longleftrightarrow> (\<exists>w' ds. r = Inr w' \<and> rec_calls w' = rec_calls w @ ds \<and>
     spec_step bo (rec_state w) i ds (rec_state w'))"

lemma steps_toI:
  "r = Inr w' \<Longrightarrow> rec_calls w' = rec_calls w @ ds \<Longrightarrow> spec_step bo (rec_state w) i ds (rec_state w') \<Longrightarrow>
     steps_to bo w i r"
  by (auto simp: steps_to_def)

lemma steps_to_error: "\<not> expected bo (rec_state w) i \<Longrightarrow>
     steps_to bo w i (protocolError recordingOwner (unexpected (rec_state w) i) w)"
  by (rule steps_toI, simp, simp, simp add: spec_step.error)

text \<open>A message of the client: decoded and processed, or an error.\<close>

lemma decoded_step:
  assumes "\<exists>r. dec = Inr r" and "\<And>msg. dec = Inr (True, msg) \<Longrightarrow> steps_to bo w (Buffer b) (process msg)"
    and "expected bo (rec_state w) (Buffer b) \<Longrightarrow> \<exists>msg. dec = Inr (True, msg)"
    and "unexpected (rec_state w) (Buffer b) = reason"
  shows "steps_to bo w (Buffer b)
    (andThen dec (\<lambda>(ok, msg). if \<not> ok then protocolError recordingOwner reason w else process msg))"
proof -
  obtain ok msg where dec: "dec = Inr (ok, msg)"
    using assms(1) by (metis surj_pair)
  show ?thesis
  proof (cases ok)
    case True
    then show ?thesis
      using assms(2) dec by simp
  next
    case False
    then have "\<not> expected bo (rec_state w) (Buffer b)"
      using assms(3) dec by auto
    then show ?thesis
      using False dec steps_to_error assms(4) by auto
  qed
qed

lemma find_login: "AuthLoginPass \<in> set ms \<Longrightarrow> find (\<lambda>m. m = AuthLoginPass) ms = Some AuthLoginPass"
  by (induction ms) auto

lemma greeting_step:
  assumes "rec_state w = WaitForGreeting" "greeting_buffer (gm_authMethods msg) b"
  shows "steps_to bo w (Buffer b) (processGreetingMsg recordingOwner msg w)"
proof (cases "AuthLoginPass \<in> set (gm_authMethods msg)")
  case True
  then have "find (\<lambda>m. m = AuthLoginPass) (gm_authMethods msg) = Some AuthLoginPass"
    using find_login by blast
  with assms True show ?thesis
    by (auto simp: processGreetingMsg_def steps_to_def intro: spec_step.greeted)
next
  case False
  then have "find (\<lambda>m. m = AuthLoginPass) (gm_authMethods msg) = None"
    by (auto simp: find_None_iff)
  with assms False show ?thesis
    by (auto simp: processGreetingMsg_def steps_to_def intro: spec_step.refused)
qed

lemma buffer_step: "steps_to bo w (Buffer b) (processBuffer bo recordingOwner b w)"
proof (cases "rec_state w")
  case WaitForGreeting
  have "steps_to bo w (Buffer b) (andThen (decodeGreeting b newGreetingMsg) (\<lambda>(ok, msg).
      if \<not> ok then protocolError recordingOwner ''Greeting decode error'' w
      else processGreetingMsg recordingOwner msg w))"
    using WaitForGreeting decodeGreeting_no_fault
    by (intro decoded_step) (auto simp: accepts_greeting greeting_step)
  with WaitForGreeting show ?thesis
    by (simp add: processBuffer_def)
next
  case WaitForPassAuth
  have "steps_to bo w (Buffer b) (andThen (decodeUserPass b newUserPassAuthMsg) (\<lambda>(ok, msg).
      if \<not> ok then protocolError recordingOwner ''User/Password authentication decode error'' w
      else processPassAuthMsg recordingOwner msg w))"
    using WaitForPassAuth decodeUserPass_no_fault
    by (intro decoded_step)
      (auto simp: accepts_login processPassAuthMsg_def steps_to_def intro: spec_step.asked)
  with WaitForPassAuth show ?thesis
    by (simp add: processBuffer_def)
next
  case WaitForCommand
  have "steps_to bo w (Buffer b) (andThen (decodeCommand bo b newCommandMsg) (\<lambda>(ok, msg).
      if \<not> ok then protocolError recordingOwner ''Command decode error'' w
      else processCommandMsg recordingOwner msg w))"
    using WaitForCommand decodeCommand_no_fault
    by (intro decoded_step)
      (auto simp: accepts_command processCommandMsg_def steps_to_def intro: spec_step.command)
  with WaitForCommand show ?thesis
    by (simp add: processBuffer_def)
qed (use steps_to_error [of bo w "Buffer b"] in \<open>simp_all add: processBuffer_def\<close>)

lemma passAuthResult_step: "steps_to bo w (PassAuthResult ok) (processPassAuthResult recordingOwner ok w)"
proof (cases "rec_state w = WaitForPassAuthResult")
  case True
  then show ?thesis
    by (cases ok) (auto simp: processPassAuthResult_def steps_to_def spec_from_passAuthResult)
next
  case False
  then have "\<not> expected bo (rec_state w) (PassAuthResult ok)"
    "unexpected (rec_state w) (PassAuthResult ok) = ''Password authentication result is not expected''"
    by (cases "rec_state w"; simp)+
  with False steps_to_error [of bo w "PassAuthResult ok"] show ?thesis
    by (simp add: processPassAuthResult_def)
qed

lemma proxyResult_step: "steps_to bo w (StartProxyResult st a) (processStartProxyResult recordingOwner st a w)"
proof (cases "rec_state w = WaitForProxyStart")
  case True
  then show ?thesis
    by (auto simp: processStartProxyResult_def steps_to_def spec_from_proxyStart)
next
  case False
  then have "\<not> expected bo (rec_state w) (StartProxyResult st a)"
    "unexpected (rec_state w) (StartProxyResult st a) = ''Start proxy is not expected''"
    by (cases "rec_state w"; simp)+
  with False steps_to_error [of bo w "StartProxyResult st a"] show ?thesis
    by (simp add: processStartProxyResult_def)
qed

lemma feed_step: "steps_to bo w i (feed bo i w)"
  by (cases i) (simp_all add: buffer_step passAuthResult_step proxyResult_step)

lemma feedAll_snoc: "feedAll bo (ins @ [i]) = andThen (feedAll bo ins) (feed bo i)"
  by (simp add: feedAll_def seqs_append)

lemma feedAll_spec: "\<exists>w. feedAll bo ins = Inr w \<and> spec_run bo ins (rec_state w) (rec_calls w)"
proof (induction ins rule: rev_induct)
  case Nil
  show ?case
    by (simp add: feedAll_def newMachine_def spec_run.run_start)
next
  case (snoc i ins)
  then obtain w where w: "feedAll bo ins = Inr w" "spec_run bo ins (rec_state w) (rec_calls w)"
    by blast
  obtain w1 ds where "feed bo i w = Inr w1" "rec_calls w1 = rec_calls w @ ds"
    "spec_step bo (rec_state w) i ds (rec_state w1)"
    using feed_step [of bo w i] by (auto simp: steps_to_def)
  with w show ?case
    using spec_run.run_step [OF w(2)] by (simp add: feedAll_snoc)
qed

text \<open>The specification is deterministic.\<close>

lemma command_buffer_unique:
  assumes "command_buffer bo c a b" "command_buffer bo c' a' b"
  shows "c = c' \<and> a = a'"
proof -
  have "decodeCommand bo b newCommandMsg = Inr (True, \<lparr>cm_version = Version5, cm_command = c,
      cm_addrType = addr_type a, cm_addr = addr_addr a, cm_port = addr_port a\<rparr>)"
    "decodeCommand bo b newCommandMsg = Inr (True, \<lparr>cm_version = Version5, cm_command = c',
      cm_addrType = addr_type a', cm_addr = addr_addr a', cm_port = addr_port a'\<rparr>)"
    using assms unfolding accepts_command by blast+
  then show ?thesis
    by (cases a; cases a') simp
qed

lemma login_buffer_unique: "login_buffer u p b \<Longrightarrow> login_buffer u' p' b \<Longrightarrow> u = u' \<and> p = p'"
  using accepts_login [of b "\<lparr>up_user = u, up_password = p\<rparr>"]
    accepts_login [of b "\<lparr>up_user = u', up_password = p'\<rparr>"] by simp

lemma greeting_buffer_unique: "greeting_buffer ms b \<Longrightarrow> greeting_buffer ms' b \<Longrightarrow> ms = ms'"
  using accepts_greeting [of b "\<lparr>gm_version = Version5, gm_authMethods = ms\<rparr>"]
    accepts_greeting [of b "\<lparr>gm_version = Version5, gm_authMethods = ms'\<rparr>"] by simp

lemma spec_step_deterministic:
  assumes "spec_step bo s i cs t" and "spec_step bo s i ds u"
  shows "t = u \<and> cs = ds"
  using assms
  by (elim spec_stepE)
    (auto dest: command_buffer_unique login_buffer_unique greeting_buffer_unique)

lemma spec_run_deterministic:
  "spec_run bo ins s cs \<Longrightarrow> spec_run bo ins t ds \<Longrightarrow>
     s = t \<and> cs = ds"
proof (induction arbitrary: t ds rule: spec_run.induct)
  case run_start
  then show ?case by cases simp_all
next
  case (run_step ins s cs i es u)
  from run_step.prems show ?case
    by cases (use run_step.IH spec_step_deterministic [OF run_step.hyps(2)] in auto)
qed

text \<open>
  C5: fed any sequence of buffers, verdicts and results, the machine never faults, and its state and
  its calls, with all their arguments, are the only ones the specification has for this
  sequence: the specification reads the inputs as labels of its steps, takes only the messages
  of the wire format and the results that are awaited, and answers all else with an error.
\<close>

theorem machine_refines_spec:
  "\<exists>w. feedAll bo ins = Inr w \<and> {(s, cs). spec_run bo ins s cs} = {(rec_state w, rec_calls w)}"
  using feedAll_spec [of bo ins] spec_run_deterministic by blast

section \<open>Safety\<close>

text \<open>
  \<open>login_asked ins cs\<close>: the inputs are a greeting that offers user/password authentication, a
  login and any number of refusals; the calls are the answer to the greeting, one request to check that
  login and an answer for each refusal. \<open>authenticated\<close>: an acceptance comes behind.
\<close>

definition login_asked :: "sm_input list \<Rightarrow> owner_call list \<Rightarrow> bool" where
  "login_asked ins cs \<longleftrightarrow> (\<exists>ms b u p b' k. greeting_buffer ms b \<and> AuthLoginPass \<in> set ms \<and> login_buffer u p b' \<and>
     ins = [Buffer b, Buffer b'] @ replicate k (PassAuthResult False) \<and>
     cs = [CGreetingResponse AuthLoginPass, CRequestPassAuth u p] @ replicate k (CPassAuthResponse 1))"

definition authenticated :: "sm_input list \<Rightarrow> owner_call list \<Rightarrow> bool" where
  "authenticated ins cs \<longleftrightarrow> (\<exists>ins' cs'. login_asked ins' cs' \<and>
     ins = ins' @ [PassAuthResult True] \<and> cs = cs' @ [CPassAuthResponse 0])"

text \<open>What inputs and calls look like in each state before the proxy, and at any time.\<close>

fun phase_calls :: "sm_state \<Rightarrow> sm_input list \<Rightarrow> owner_call list \<Rightarrow> bool" where
  "phase_calls WaitForGreeting ins cs \<longleftrightarrow> ins = [] \<and> cs = []"
| "phase_calls WaitForPassAuth ins cs \<longleftrightarrow> (\<exists>ms b. greeting_buffer ms b \<and> AuthLoginPass \<in> set ms \<and>
     ins = [Buffer b] \<and> cs = [CGreetingResponse AuthLoginPass])"
| "phase_calls WaitForPassAuthResult ins cs \<longleftrightarrow> login_asked ins cs"
| "phase_calls WaitForCommand ins cs \<longleftrightarrow> authenticated ins cs"
| "phase_calls s ins cs \<longleftrightarrow> True"

definition is_start :: "owner_call \<Rightarrow> bool" where
  "is_start c \<longleftrightarrow> (case c of CStartProxy k a \<Rightarrow> True | _ \<Rightarrow> False)"

lemma is_start_simps [simp]:
  "is_start (CStartProxy k a)" "\<not> is_start (CGreetingResponse m)" "\<not> is_start (CRequestPassAuth u p)"
  "\<not> is_start (CPassAuthResponse st)" "\<not> is_start (CCommandResponse st a)" "\<not> is_start (CProtocolError r)"
  by (simp_all add: is_start_def)

text \<open>One call to start a proxy, with its cause, between calls that are none.\<close>

definition one_start ::
    "byte_order \<Rightarrow> sm_input list \<Rightarrow> owner_call list \<Rightarrow> byte \<Rightarrow> SocksAddress \<Rightarrow> owner_call list \<Rightarrow> bool" where
  "one_start bo ins pre c a post \<longleftrightarrow> (\<exists>before b rest. ins = before @ Buffer b # rest \<and>
     authenticated before pre \<and> command_buffer bo c a b \<and> list_all (\<lambda>x. \<not> is_start x) (pre @ post))"

definition start_ok :: "byte_order \<Rightarrow> sm_input list \<Rightarrow> owner_call list \<Rightarrow> bool" where
  "start_ok bo ins cs \<longleftrightarrow> list_all (\<lambda>x. \<not> is_start x) cs \<or>
     (\<exists>pre c a post. cs = pre @ CStartProxy c a # post \<and> one_start bo ins pre c a post)"

lemma authenticated_no_start: "authenticated ins cs \<Longrightarrow> list_all (\<lambda>x. \<not> is_start x) cs"
  by (auto simp: authenticated_def login_asked_def list_all_iff)

lemma login_asked_again:
  assumes "login_asked ins cs"
  shows "login_asked (ins @ [PassAuthResult False]) (cs @ [CPassAuthResponse 1])"
proof -
  obtain ms b u p b' k where "greeting_buffer ms b" "AuthLoginPass \<in> set ms" "login_buffer u p b'"
    "ins = [Buffer b, Buffer b'] @ replicate k (PassAuthResult False)"
    "cs = [CGreetingResponse AuthLoginPass, CRequestPassAuth u p] @ replicate k (CPassAuthResponse 1)"
    using assms by (auto simp: login_asked_def)
  then show ?thesis
    unfolding login_asked_def
    by (intro exI [of _ ms] exI [of _ b] exI [of _ u] exI [of _ p] exI [of _ b'] exI [of _ "Suc k"])
      (simp add: replicate_append_same)
qed

lemma phase_calls_step:
  assumes "phase_calls s ins cs" and "spec_step bo s i ds t"
  shows "phase_calls t (ins @ [i]) (cs @ ds)"
  using assms(2,1)
proof cases
  case granted
  with assms(1) show ?thesis by (auto simp: authenticated_def)
next
  case denied
  with assms(1) show ?thesis by (simp add: login_asked_again)
next
  case (asked u p b)
  with assms(1) show ?thesis
    by (fastforce simp: login_asked_def)
qed (use assms(1) in auto)

lemma one_start_append:
  "one_start bo ins pre c a post \<Longrightarrow> list_all (\<lambda>x. \<not> is_start x) ds \<Longrightarrow> one_start bo (ins @ [i]) pre c a (post @ ds)"
  unfolding one_start_def by fastforce

lemma start_ok_step:
  assumes ok: "start_ok bo ins cs" and phase: "phase_calls s ins cs" and step: "spec_step bo s i ds t"
  shows "start_ok bo (ins @ [i]) (cs @ ds)"
proof (cases "list_all (\<lambda>x. \<not> is_start x) ds")
  case True
  show ?thesis
  proof (cases "list_all (\<lambda>x. \<not> is_start x) cs")
    case True
    then show ?thesis
      using \<open>list_all _ ds\<close> by (simp add: start_ok_def)
  next
    case False
    then obtain pre c a post where "cs = pre @ CStartProxy c a # post" "one_start bo ins pre c a post"
      using ok by (auto simp: start_ok_def)
    then show ?thesis
      using one_start_append [OF _ True] unfolding start_ok_def by fastforce
  qed
next
  case False
  from step show ?thesis
  proof cases
    case (command c a b)
    then have "one_start bo (ins @ [i]) cs c a []"
      using phase authenticated_no_start by (auto simp: one_start_def)
    then show ?thesis
      using command unfolding start_ok_def by blast
  qed (use False in simp_all)
qed

lemma spec_run_calls: "spec_run bo ins s cs \<Longrightarrow> phase_calls s ins cs \<and> start_ok bo ins cs"
proof (induction rule: spec_run.induct)
  case run_start
  show ?case by (simp add: start_ok_def)
next
  case (run_step ins s cs i ds t)
  then show ?case
    using phase_calls_step start_ok_step by blast
qed

lemma one_start_unique:
  assumes "pre @ CStartProxy c a # post = pre' @ CStartProxy c' a' # post'"
    and "list_all (\<lambda>x. \<not> is_start x) (pre' @ post')"
  shows "pre = pre' \<and> c = c' \<and> a = a' \<and> post = post'"
  using assms by (auto simp: append_eq_append_conv2 Cons_eq_append_conv append_eq_Cons_conv list_all_iff)

text \<open>
  C16: in every run, whatever the client sends and whatever results come back, the machine asks
  for a proxy at most once, and what it was fed and did before is this and nothing else: a greeting with the method
  user/password, which it chose; a login, which it passed on to be checked; any number of
  negative verdicts, each reported as 1; a positive verdict, reported as 0. The next input is then the
  command, and the request is for exactly the command and the address in it.
\<close>

theorem no_proxy_without_authentication:
  assumes "feedAll bo ins = Inr w" and "rec_calls w = pre @ CStartProxy c a # post"
  shows "\<exists>before b rest. ins = before @ Buffer b # rest \<and> authenticated before pre \<and>
    command_buffer bo c a b \<and> list_all (\<lambda>x. \<not> is_start x) (pre @ post)"
proof -
  from assms(1) feedAll_spec [of bo ins] have "start_ok bo ins (rec_calls w)"
    using spec_run_calls by force
  then obtain pre' c' a' post' where start: "rec_calls w = pre' @ CStartProxy c' a' # post'"
    "one_start bo ins pre' c' a' post'"
    using assms(2) by (auto simp: start_ok_def list_all_iff)
  have "pre = pre' \<and> c = c' \<and> a = a' \<and> post = post'"
    using start assms(2) by (intro one_start_unique) (auto simp: one_start_def)
  with start(2) show ?thesis
    by (simp add: one_start_def)
qed

text \<open>A run with one refusal; the verdict in front of the command is positive.\<close>

definition demo_login :: "sm_input list" where
  "demo_login = [Buffer (greetingWire [2]), Buffer (userPassWire [104] [116]), PassAuthResult False, PassAuthResult True,
     Buffer (commandWire BigEndian 1 (SocksIPv4Address [10, 0, 0, 1]) 80)]"

theorem no_proxy_without_authentication_witness:
  "\<exists>w a pre post before b rest. feedAll BigEndian demo_login = Inr w \<and> rec_calls w = pre @ CStartProxy 1 a # post \<and>
     demo_login = before @ Buffer b # rest \<and> authenticated before pre \<and> command_buffer BigEndian 1 a b \<and>
     PassAuthResult True \<in> set before"
proof -
  let ?a = "\<lparr>addr_type = 1, addr_addr = SocksIPv4Address [10, 0, 0, 1], addr_port = 80\<rparr>"
  let ?pre = "[CGreetingResponse 2, CRequestPassAuth [104] [116], CPassAuthResponse 1, CPassAuthResponse 0]"
  have "decodeGreeting (greetingWire [2]) newGreetingMsg = Inr (True, \<lparr>gm_version = 5, gm_authMethods = [2]\<rparr>)"
    by (simp add: greeting_iff)
  moreover have "decodeUserPass (userPassWire [104] [116]) newUserPassAuthMsg
      = Inr (True, \<lparr>up_user = [104], up_password = [116]\<rparr>)"
    by (simp add: userPass_iff)
  moreover have "decodeCommand BigEndian (commandWire BigEndian 1 (SocksIPv4Address [10, 0, 0, 1]) 80) newCommandMsg
      = Inr (True, \<lparr>cm_version = 5, cm_command = 1, cm_addrType = 1, cm_addr = SocksIPv4Address [10, 0, 0, 1], cm_port = 80\<rparr>)"
    using decodeCommand_wire [of 1 "SocksIPv4Address [10, 0, 0, 1]"] by (simp add: isCommandExist_def)
  ultimately obtain w where w: "feedAll BigEndian demo_login = Inr w" "rec_calls w = ?pre @ CStartProxy 1 ?a # []"
    by (simp add: demo_login_def feedAll_def newMachine_def processBuffer_def processGreetingMsg_def Let_def
        processPassAuthMsg_def processPassAuthResult_def processCommandMsg_def)
  from no_proxy_without_authentication [OF this] obtain before b rest where
    "demo_login = before @ Buffer b # rest" "authenticated before ?pre" "command_buffer BigEndian 1 ?a b"
    by blast
  moreover from this(2) have "PassAuthResult True \<in> set before"
    by (auto simp: authenticated_def)
  ultimately show ?thesis
    using w by blast
qed

section \<open>Types of the calls\<close>

text \<open>What a call of the owner is, given the inputs so far: its type, and the input it comes from.\<close>

fun call_typed :: "byte_order \<Rightarrow> sm_input list \<Rightarrow> owner_call \<Rightarrow> bool" where
  "call_typed bo ins (CGreetingResponse m) \<longleftrightarrow> (\<exists>ms b. Buffer b \<in> set ins \<and> greeting_buffer ms b \<and>
     m = (if AuthLoginPass \<in> set ms then AuthLoginPass else NoAvailableMethod))"
| "call_typed bo ins (CRequestPassAuth u p) \<longleftrightarrow> length u \<le> 255 \<and> length p \<le> 255 \<and>
     Buffer (userPassWire u p) \<in> set ins"
| "call_typed bo ins (CPassAuthResponse st) \<longleftrightarrow>
     st = 0 \<and> PassAuthResult True \<in> set ins \<or> st = 1 \<and> PassAuthResult False \<in> set ins"
| "call_typed bo ins (CStartProxy c a) \<longleftrightarrow>
     isCommandExist c \<and> wf_address a \<and> wire_variant (addr_addr a) \<and> isAddressTypeExist (addr_type a) \<and>
     Buffer (commandWire bo c (addr_addr a) (addr_port a)) \<in> set ins"
| "call_typed bo ins (CCommandResponse st a) \<longleftrightarrow> StartProxyResult st a \<in> set ins"
| "call_typed bo ins (CProtocolError r) \<longleftrightarrow> r = error_text ''Unsupported auth method'' \<or>
     (\<exists>s i. i \<in> set ins \<and> \<not> expected bo s i \<and> r = error_text (unexpected s i))"

lemma wf_address_exists: "wf_address a \<Longrightarrow> isAddressTypeExist (addr_type a)"
  using variant_type_exists [of "addr_addr a"] by (simp add: wf_address_def)

lemma call_typed_more: "call_typed bo ins c \<Longrightarrow> call_typed bo (ins @ [i]) c"
  by (cases c) (auto split: if_splits)

lemma spec_step_typed: "spec_step bo s i cs t \<Longrightarrow> list_all (call_typed bo (ins @ [i])) cs"
  by (erule spec_stepE) (auto simp: wf_address_exists login_buffer_def command_buffer_def)

lemma spec_run_typed: "spec_run bo ins s cs \<Longrightarrow> list_all (call_typed bo ins) cs"
proof (induction rule: spec_run.induct)
  case (run_step ins s cs i ds t)
  then show ?case
    using spec_step_typed [OF run_step.hyps(2)] call_typed_more by (auto simp: list_all_iff)
qed simp

text \<open>
  C18: whatever bytes arrive and whatever results come back, every run of the machine ends without a fault and every
  call its owner gets is well typed and has its cause among the inputs: the method chosen is the one for the methods of
  a greeting; a login is one that was received and fits its length bytes; its status is that of a verdict;
  the address to connect to has a known type with the alternative and the bytes of that type, the
  command is known, and both were received; a reply to a command has the status and the
  address of a result, whatever these are; and an error names what was not expected.
\<close>

theorem owner_calls_are_typed:
  "\<exists>w. feedAll bo ins = Inr w \<and> list_all (call_typed bo ins) (rec_calls w)"
  using feedAll_spec [of bo ins] spec_run_typed by blast

section \<open>Whole handshakes and error paths\<close>

text \<open>
  A client that offers user/password, logs in with accepted credentials and sends a valid
  command gets through: the machine makes exactly these five calls, passing on the user, the
  password and the address it was sent, and ends in \<open>ProxyStarted\<close>.
\<close>

theorem complete_handshake:
  assumes "length ms \<le> 255" "set ms \<subseteq> {NoAuth, AuthGSSAPI, AuthLoginPass}" "AuthLoginPass \<in> set ms"
    and "length u \<le> 255" "length p \<le> 255" "isCommandExist c" "wire_variant v"
  shows "feedAll bo [Buffer (greetingWire ms), Buffer (userPassWire u p), PassAuthResult True,
      Buffer (commandWire bo c v port), StartProxyResult RequestGranted local] =
    Inr \<lparr>rec_state = ProxyStarted, rec_calls =
      [CGreetingResponse AuthLoginPass, CRequestPassAuth u p, CPassAuthResponse 0,
       CStartProxy c \<lparr>addr_type = variant_type v, addr_addr = v, addr_port = port\<rparr>,
       CCommandResponse RequestGranted local]\<rparr>"
proof -
  have "decodeGreeting (greetingWire ms) newGreetingMsg = Inr (True, \<lparr>gm_version = Version5, gm_authMethods = ms\<rparr>)"
    using assms(1,2) by (auto simp: greeting_iff)
  moreover have "decodeUserPass (userPassWire u p) newUserPassAuthMsg = Inr (True, \<lparr>up_user = u, up_password = p\<rparr>)"
    using assms(4,5) by (auto simp: userPass_iff)
  moreover have "find (\<lambda>m. m = AuthLoginPass) ms = Some AuthLoginPass"
    using assms(3) by (induction ms) auto
  ultimately show ?thesis
    using decodeCommand_wire [OF assms(6,7), of bo port newCommandMsg]
    by (simp add: feedAll_def newMachine_def processBuffer_def processGreetingMsg_def Let_def
        processPassAuthMsg_def processPassAuthResult_def processCommandMsg_def
        processStartProxyResult_def)
qed

theorem complete_handshake_witness:
  "feedAll LittleEndian [Buffer (greetingWire [0, 2]), Buffer (userPassWire [104] [116]), PassAuthResult True,
      Buffer (commandWire LittleEndian 1 (SocksIPv4Address [10, 0, 0, 1]) 80), StartProxyResult 0 emptyAddress] =
    Inr \<lparr>rec_state = ProxyStarted, rec_calls =
      [CGreetingResponse 2, CRequestPassAuth [104] [116], CPassAuthResponse 0,
       CStartProxy 1 \<lparr>addr_type = 1, addr_addr = SocksIPv4Address [10, 0, 0, 1], addr_port = 80\<rparr>,
       CCommandResponse 0 emptyAddress]\<rparr>"
  by (subst complete_handshake) (simp_all add: isCommandExist_def)

text \<open>
  A well-formed greeting that does not offer user/password authentication is answered with
  \<open>NoAvailableMethod\<close>, exactly once, and then reported as a protocol error.
\<close>

theorem greeting_without_password_refused:
  assumes "length ms \<le> 255" "set ms \<subseteq> {NoAuth, AuthGSSAPI}"
  shows "feedAll bo [Buffer (greetingWire ms)] = Inr \<lparr>rec_state = ProtocolError, rec_calls =
    [CGreetingResponse NoAvailableMethod,
     CProtocolError (error_text ''Unsupported auth method'')]\<rparr>"
proof -
  have "decodeGreeting (greetingWire ms) newGreetingMsg = Inr (True, \<lparr>gm_version = Version5, gm_authMethods = ms\<rparr>)"
    using assms by (auto simp: greeting_iff)
  moreover have "find (\<lambda>m. m = AuthLoginPass) ms = None"
    using assms(2) by (auto simp: find_None_iff)
  ultimately show ?thesis
    by (simp add: feedAll_def newMachine_def processBuffer_def processGreetingMsg_def)
qed

theorem greeting_without_password_refused_witness:
  "feedAll BigEndian [Buffer (greetingWire [0])] = Inr \<lparr>rec_state = ProtocolError, rec_calls =
    [CGreetingResponse 255,
     CProtocolError (error_text ''Unsupported auth method'')]\<rparr>"
  by (rule greeting_without_password_refused) simp_all

text \<open>
  Data that arrives while the machine waits for a result, or after the handshake, is never
  decoded: it is a protocol error in every such state, and the state \<open>ProtocolError\<close> is final.
\<close>

theorem early_data_is_an_error:
  assumes "rec_state w \<in> {WaitForPassAuthResult, WaitForProxyStart, ProxyStarted, ProxyStartFailed, ProtocolError}"
  shows "feed bo (Buffer b) w = Inr \<lparr>rec_state = ProtocolError, rec_calls = rec_calls w @
    [CProtocolError (error_text ''Message in wrong state'')]\<rparr>
    \<and> (\<forall>i w'. rec_state w = ProtocolError \<and> feed bo i w = Inr w' \<longrightarrow> rec_state w' = ProtocolError)"
proof
  show "feed bo (Buffer b) w = Inr \<lparr>rec_state = ProtocolError, rec_calls = rec_calls w @
    [CProtocolError (error_text ''Message in wrong state'')]\<rparr>"
    using assms by (auto simp: processBuffer_def)
  show "\<forall>i w'. rec_state w = ProtocolError \<and> feed bo i w = Inr w' \<longrightarrow> rec_state w' = ProtocolError"
  proof (intro allI impI, elim conjE)
    fix i w'
    assume "rec_state w = ProtocolError" and "feed bo i w = Inr w'"
    then show "rec_state w' = ProtocolError"
      by (cases i) (auto simp: processBuffer_def processPassAuthResult_def processStartProxyResult_def)
  qed
qed

theorem early_data_is_an_error_witness:
  "feed BigEndian (Buffer [5, 1, 2]) \<lparr>rec_state = WaitForProxyStart, rec_calls = []\<rparr> =
    Inr \<lparr>rec_state = ProtocolError, rec_calls =
      [CProtocolError (error_text ''Message in wrong state'')]\<rparr>"
  using early_data_is_an_error [of "\<lparr>rec_state = WaitForProxyStart, rec_calls = []\<rparr>" BigEndian "[5, 1, 2]"]
  by simp

section \<open>Progress\<close>

text \<open>The order of the enumerators in \<open>StateMachine.h\<close>, which is that of the handshake.\<close>

fun state_rank :: "sm_state \<Rightarrow> nat" where
  "state_rank WaitForGreeting = 0"
| "state_rank WaitForPassAuth = 1"
| "state_rank WaitForPassAuthResult = 2"
| "state_rank WaitForCommand = 3"
| "state_rank WaitForProxyStart = 4"
| "state_rank ProxyStarted = 5"
| "state_rank ProxyStartFailed = 6"
| "state_rank ProtocolError = 7"

instantiation sm_state :: linorder
begin

definition less_eq_sm_state :: "sm_state \<Rightarrow> sm_state \<Rightarrow> bool" where
  "less_eq_sm_state s t \<longleftrightarrow> state_rank s \<le> state_rank t"

definition less_sm_state :: "sm_state \<Rightarrow> sm_state \<Rightarrow> bool" where
  "less_sm_state s t \<longleftrightarrow> state_rank s < state_rank t"

instance
proof
  fix s t :: sm_state
  show "s \<le> t \<Longrightarrow> t \<le> s \<Longrightarrow> s = t"
    by (cases s; cases t) (simp_all add: less_eq_sm_state_def)
qed (auto simp: less_eq_sm_state_def less_sm_state_def)

end

lemma below_error: "s < ProtocolError \<or> s = ProtocolError"
  by (cases s) (simp_all add: less_sm_state_def)

text \<open>Where an input leaves the state as it is.\<close>

definition stays :: "sm_state \<Rightarrow> sm_input \<Rightarrow> bool" where
  "stays s i \<longleftrightarrow> s = WaitForPassAuthResult \<and> i = PassAuthResult False \<or> s = ProtocolError"

lemma spec_step_progress: "spec_step bo s i cs t \<Longrightarrow> if stays s i then t = s else s < t"
  using below_error [of s] by (auto elim!: spec_stepE simp: less_sm_state_def stays_def)

lemma feed_progress:
  "\<exists>w'. feed bo i w = Inr w' \<and>
     (if stays (rec_state w) i then rec_state w' = rec_state w else rec_state w < rec_state w')"
  using feed_step [of bo w i] spec_step_progress unfolding steps_to_def by blast

lemma feed_more: "\<exists>w'. seqs (map (feed bo) rest) w = Inr w' \<and> rec_state w \<le> rec_state w'"
proof (induction rest arbitrary: w)
  case (Cons i rest)
  obtain w1 where "feed bo i w = Inr w1" "rec_state w \<le> rec_state w1"
    using feed_progress [of bo i w] by (auto intro: less_imp_le split: if_splits)
  with Cons.IH [of w1] show ?case
    by (auto intro: order_trans)
qed simp

text \<open>
  C17: the handshake only moves forward. Whatever has been received, what comes later never takes
  the machine back to an earlier state; every single input moves it to a later one, except a
  negative verdict on a login while a verdict is awaited, and any input after an error: these, and
  only these, leave the state as it is.
\<close>

theorem handshake_never_goes_back:
  "\<exists>w w1 w2. feedAll bo ins = Inr w \<and>
     feedAll bo (ins @ [i]) = Inr w1 \<and>
     (if rec_state w = WaitForPassAuthResult \<and> i = PassAuthResult False \<or> rec_state w = ProtocolError
      then rec_state w1 = rec_state w else rec_state w < rec_state w1) \<and>
     feedAll bo (ins @ rest) = Inr w2 \<and> rec_state w \<le> rec_state w2"
proof -
  obtain w where "feedAll bo ins = Inr w"
    using feed_more [of bo ins newMachine] by (auto simp: feedAll_def)
  then show ?thesis
    using feed_progress [of bo i w] feed_more [of bo rest w]
    by (auto simp: feedAll_def seqs_append stays_def)
qed

end
