(* ===== verification/StringUtils.thy ===== *)
theory StringUtils
  imports Prelude
begin

text \<open>
  \<open>src/libratel/StringUtils.cpp\<close>: \<open>stringSplit\<close>, with the two operations of \<open>std::string\<close>
  it uses. A position is \<open>None\<close> for \<open>npos\<close>. The loop of \<open>stringSplit\<close> need not end, so it
  is a \<open>partial_function\<close>: \<open>None\<close> is a call that never returns.
\<close>

section \<open>The operations of \<open>std::string\<close>\<close>

text \<open>The first occurrence of \<open>d\<close>; the empty string occurs everywhere.\<close>

fun findSub :: "bytes \<Rightarrow> bytes \<Rightarrow> nat option" where
  "findSub d [] = (if d = [] then Some 0 else None)"
| "findSub d (x # xs) =
     (if take (length d) (x # xs) = d then Some 0 else map_option Suc (findSub d xs))"

text \<open>\<open>str.find(d, pos)\<close> and \<open>str.substr(pos, n)\<close>.\<close>

definition str_find :: "bytes \<Rightarrow> bytes \<Rightarrow> nat \<Rightarrow> nat option" where
  "str_find str d pos =
     (if length str < pos then None else map_option (\<lambda>i. pos + i) (findSub d (drop pos str)))"

definition str_substr :: "bytes \<Rightarrow> nat \<Rightarrow> nat option \<Rightarrow> bytes res" where
  "str_substr str pos n =
     (if length str < pos then Inl OutOfRange
      else Inr (case n of None \<Rightarrow> drop pos str | Some k \<Rightarrow> take k (drop pos str)))"

section \<open>\<open>stringSplit\<close>\<close>

text \<open>
  The body of the \<open>while\<close>: \<open>it - prev\<close> is \<open>npos - prev\<close> when nothing is found, a count
  beyond the end of the string, which \<open>substr\<close> clips.
\<close>

partial_function (option) splitLoop ::
  "bytes \<Rightarrow> bytes \<Rightarrow> nat \<Rightarrow> nat option \<Rightarrow> bytes list \<Rightarrow> bytes list res option" where
  "splitLoop str delim prev it parts =
     (if it = None then Some (Inr parts)
      else
        let it = str_find str delim prev in
        case str_substr str prev (map_option (\<lambda>i. i - prev) it) of
          Inl e \<Rightarrow> Some (Inl e)
        | Inr part \<Rightarrow>
            splitLoop str delim (prev + (length delim + length part)) it (parts @ [part]))"

definition stringSplit :: "bytes \<Rightarrow> bytes \<Rightarrow> bytes list res option" where
  "stringSplit str delim =
     (let it = str_find str delim 0 in
      case str_substr str 0 it of
        Inl e \<Rightarrow> Some (Inl e)
      | Inr part \<Rightarrow>
          splitLoop str delim (case it of None \<Rightarrow> 0 | Some i \<Rightarrow> i + length delim) it [part])"

section \<open>Specification: the fields between the delimiters\<close>

lemma findSub_bound:
  "findSub d s = Some i \<Longrightarrow> i + length d \<le> length s \<and> take (length d) (drop i s) = d"
proof (induction d s arbitrary: i rule: findSub.induct)
  case (1 d)
  then show ?case by (simp split: if_splits)
next
  case (2 d x xs)
  show ?case
  proof (cases "take (length d) (x # xs) = d")
    case True
    with 2 show ?thesis
      by (metis add_0 drop0 findSub.simps(2) length_take min.cobounded1 option.inject)
  next
    case False
    with 2 show ?thesis by auto
  qed
qed

lemma findSub_none: "findSub d s = None \<Longrightarrow> take (length d) (drop i s) = d \<Longrightarrow> length s < i"
proof (induction d s arbitrary: i rule: findSub.induct)
  case (1 d)
  then show ?case by (cases i) (auto split: if_splits)
next
  case (2 d x xs)
  then show ?case by (cases i) (auto split: if_splits)
qed

function splitOn :: "bytes \<Rightarrow> bytes \<Rightarrow> bytes list" where
  "splitOn d s =
     (case findSub d s of
        None \<Rightarrow> [s]
      | Some i \<Rightarrow> if d = [] then [s] else take i s # splitOn d (drop (i + length d) s))"
  by pat_completeness auto
termination
  by (relation "measure (\<lambda>(d, s). length s)") (auto dest!: findSub_bound simp flip: length_greater_0_conv)

declare splitOn.simps [simp del]

fun joinWith :: "bytes \<Rightarrow> bytes list \<Rightarrow> bytes" where
  "joinWith d [] = []"
| "joinWith d [s] = s"
| "joinWith d (s # t # ss) = s @ d @ joinWith d (t # ss)"

lemma splitOn_nonempty: "splitOn d s \<noteq> []"
  by (simp add: splitOn.simps split: option.splits)

lemma joinWith_Cons: "ss \<noteq> [] \<Longrightarrow> joinWith d (s # ss) = s @ d @ joinWith d ss"
  by (cases ss) simp_all

lemma join_splitOn: "joinWith d (splitOn d s) = s"
proof (induction d s rule: splitOn.induct)
  case (1 d s)
  show ?case
  proof (cases "findSub d s")
    case None
    then show ?thesis by (simp add: splitOn.simps [of d s])
  next
    case (Some i)
    show ?thesis
    proof (cases "d = []")
      case True
      with Some show ?thesis by (simp add: splitOn.simps [of "[]" s])
    next
      case False
      have "s = take i s @ d @ drop (i + length d) s"
        using findSub_bound [OF Some] by (metis append_take_drop_id drop_plus)
      with Some False 1 show ?thesis
        by (simp add: splitOn.simps [of d s] joinWith_Cons splitOn_nonempty)
    qed
  qed
qed

section \<open>The loop computes the fields\<close>

lemma splitLoop_fields:
  assumes "d \<noteq> []" and "prev \<le> length str"
  shows "splitLoop str d prev (Some k) parts = Some (Inr (parts @ splitOn d (drop prev str)))"
  using assms(2)
proof (induction "length str - prev" arbitrary: prev k parts rule: less_induct)
  case less
  show ?case
  proof (cases "findSub d (drop prev str)")
    case None
    with less.prems show ?thesis
      by (simp add: splitLoop.simps [of str d prev] splitLoop.simps [of str d _ None] Let_def
          str_find_def str_substr_def splitOn.simps [of d "drop prev str"])
  next
    case (Some i)
    let ?next = "prev + i + length d"
    have fit: "?next \<le> length str" and "0 < length d"
      using findSub_bound [OF Some] less.prems assms(1) by auto
    then have "splitLoop str d ?next (Some (prev + i)) (parts @ [take i (drop prev str)]) =
        Some (Inr ((parts @ [take i (drop prev str)]) @ splitOn d (drop ?next str)))"
      using less.prems by (intro less.hyps) linarith+
    moreover have "min (length str - prev) i = i"
      using fit by simp
    ultimately show ?thesis
      using Some less.prems assms(1)
      by (simp add: splitLoop.simps [of str d prev] Let_def str_find_def str_substr_def
          splitOn.simps [of d "drop prev str"] ac_simps)
  qed
qed

lemma stringSplit_fields:
  assumes "d \<noteq> []"
  shows "stringSplit str d = Some (Inr (splitOn d str))"
proof (cases "findSub d str")
  case None
  then show ?thesis
    by (simp add: stringSplit_def Let_def str_find_def str_substr_def splitLoop.simps
        splitOn.simps [of d str])
next
  case (Some i)
  with findSub_bound [OF Some] assms show ?thesis
    by (simp add: stringSplit_def Let_def str_find_def str_substr_def splitLoop_fields
        splitOn.simps [of d str])
qed

text \<open>With an empty delimiter the position never moves.\<close>

lemma findSub_empty [simp]: "findSub [] s = Some 0"
  by (cases s) simp_all

lemma splitLoop_stuck:
  assumes "splitLoop str d prev it parts = Some r"
  shows "d = [] \<longrightarrow> it \<noteq> None \<longrightarrow> prev \<le> length str \<longrightarrow> False"
proof (rule splitLoop.raw_induct [where P = "\<lambda>str d prev it parts r.
      d = [] \<longrightarrow> it \<noteq> None \<longrightarrow> prev \<le> length str \<longrightarrow> False", OF _ assms], intro impI)
  fix f str d prev it parts r
  assume IH: "\<And>str d prev it parts r. f str d prev it parts = Some r \<Longrightarrow>
      d = [] \<longrightarrow> it \<noteq> None \<longrightarrow> prev \<le> length str \<longrightarrow> False"
    and eq: "(if it = None then Some (Inr parts)
      else
        let it = str_find str d prev in
        case str_substr str prev (map_option (\<lambda>i. i - prev) it) of
          Inl e \<Rightarrow> Some (Inl e)
        | Inr part \<Rightarrow> f str d (prev + (length d + length part)) it (parts @ [part])) = Some r"
    and hyps: "d = []" "it \<noteq> None" "prev \<le> length str"
  from eq hyps have "f str [] prev (Some prev) (parts @ [[]]) = Some r"
    by (simp add: str_find_def str_substr_def)
  with IH hyps(3) show False by blast
qed

lemma findSub_least:
  "findSub d s = Some i \<Longrightarrow> j < i \<Longrightarrow> take (length d) (drop j s) \<noteq> d"
proof (induction d s arbitrary: i j rule: findSub.induct)
  case (1 d)
  then show ?case by (auto split: if_splits)
next
  case (2 d x xs)
  then show ?case by (cases j) (auto split: if_splits)
qed

lemma findSub_before_first:
  assumes "findSub d s = Some i" and "d \<noteq> []"
  shows "findSub d (take i s) = None"
proof (rule ccontr)
  assume "findSub d (take i s) \<noteq> None"
  then obtain j where j: "findSub d (take i s) = Some j" by auto
  have "0 < length d" using assms(2) by simp
  with findSub_bound [OF j] have le: "j < i" "j + length d \<le> i"
    unfolding length_take by linarith+
  then have "length d \<le> i - j" by linarith
  with findSub_bound [OF j] have "take (length d) (drop j s) = d"
    by (simp add: drop_take min_def)
  with le show False
    using findSub_least [OF assms(1)] by blast
qed

lemma splitOn_fields_clean: "d \<noteq> [] \<Longrightarrow> list_all (\<lambda>f. findSub d f = None) (splitOn d s)"
proof (induction d s rule: splitOn.induct)
  case (1 d s)
  then show ?case
    by (cases "findSub d s") (simp_all add: splitOn.simps [of d s] findSub_before_first)
qed

text \<open>
  C24: \<open>stringSplit\<close> returns exactly when the delimiter is not empty, and then never throws: its
  result is the list of fields between the successive occurrences of the delimiter. No field
  holds the delimiter, and joining the fields with it gives the string back.
\<close>

theorem stringSplit_result:
  "stringSplit str d = (if d = [] then None else Some (Inr (splitOn d str))) \<and>
   joinWith d (splitOn d str) = str \<and>
   (d = [] \<or> list_all (\<lambda>f. findSub d f = None) (splitOn d str))"
proof -
  have "stringSplit str [] = None"
  proof (cases "stringSplit str []")
    case (Some r)
    then show ?thesis
      using splitLoop_stuck [of str "[]" 0 "Some 0" "[[]]" r]
      by (simp add: stringSplit_def Let_def str_find_def str_substr_def)
  qed
  then show ?thesis
    by (simp add: stringSplit_fields join_splitOn splitOn_fields_clean)
qed

end
