(* ===== verification/Authorizer.thy ===== *)
theory Authorizer
  imports StringUtils SocksTypes
begin

text \<open>
  \<open>src/SocksLoginPassAuthorizer.cpp\<close>: the logins file and the check of a user and a password.
  The content of the file is an argument (\<open>None\<close>: it cannot be opened); \<open>std::getline\<close> cuts
  it at line feeds. The map \<open>_userLoginPass\<close> is a partial function.
\<close>

section \<open>Reading the file\<close>

abbreviation (input) line_feed :: byte where "line_feed \<equiv> 10"
abbreviation (input) comma :: bytes where "comma \<equiv> [44]"

text \<open>
  The lines \<open>std::getline\<close> delivers: a line feed ends a line, and the last line may end with
  the file.
\<close>

function getlines :: "bytes \<Rightarrow> bytes list" where
  "getlines s =
     (if s = [] then []
      else takeWhile (\<lambda>c. c \<noteq> line_feed) s # getlines (tl (dropWhile (\<lambda>c. c \<noteq> line_feed) s)))"
  by pat_completeness auto
termination
proof (relation "measure length")
  fix s :: bytes
  assume "s \<noteq> []"
  then have "0 < length s" by simp
  moreover have "length (dropWhile (\<lambda>c. c \<noteq> line_feed) s) \<le> length s"
    by (rule length_dropWhile_le)
  ultimately have "length (dropWhile (\<lambda>c. c \<noteq> line_feed) s) - 1 < length s"
    by linarith
  then show "(tl (dropWhile (\<lambda>c. c \<noteq> line_feed) s), s) \<in> measure length"
    by simp
qed simp

declare getlines.simps [simp del]

type_synonym logins = "bytes \<rightharpoonup> bytes"

fun readLines :: "bytes list \<Rightarrow> logins \<Rightarrow> logins res option" where
  "readLines [] m = Some (Inr m)"
| "readLines (line # lines) m =
     (case stringSplit line comma of
        None \<Rightarrow> None
      | Some (Inl e) \<Rightarrow> Some (Inl e)
      | Some (Inr strings) \<Rightarrow>
          if length strings < 2 then readLines lines m
          else readLines lines (m(strings ! 0 \<mapsto> strings ! 1)))"

definition readFile :: "bytes option \<Rightarrow> logins \<Rightarrow> (bool \<times> logins) res option" where
  "readFile content m =
     (case content of
        None \<Rightarrow> Some (Inr (False, m))
      | Some text \<Rightarrow>
          map_option (\<lambda>r. andThen r (\<lambda>m. Inr (True, m))) (readLines (getlines text) m))"

text \<open>The constructor throws when the file cannot be read.\<close>

definition newAuthorizer :: "bytes option \<Rightarrow> logins res option" where
  "newAuthorizer content =
     map_option (\<lambda>r. andThen r (\<lambda>(ok, m). if \<not> ok then Inl RuntimeError else Inr m))
       (readFile content Map.empty)"

section \<open>\<open>ISocksAuthorizer\<close>\<close>

definition isMethodSupported :: "byte \<Rightarrow> bool" where
  "isMethodSupported m \<longleftrightarrow> m = AuthLoginPass"

definition authUserPassword :: "logins \<Rightarrow> bytes \<Rightarrow> bytes \<Rightarrow> bool" where
  "authUserPassword m user password =
     (case m user of None \<Rightarrow> False | Some pass \<Rightarrow> pass = password)"

section \<open>What a file grants\<close>

text \<open>The pairs of the file: the first two fields of every line that has two.\<close>

definition entries :: "bytes \<Rightarrow> (bytes \<times> bytes) list" where
  "entries text =
     map (\<lambda>f. (f ! 0, f ! 1))
       (filter (\<lambda>f. 2 \<le> length f) (map (splitOn comma) (getlines text)))"

lemma readLines_eq:
  "readLines ls m = Some (Inr (m ++ map_of (rev (map (\<lambda>f. (f ! 0, f ! 1))
     (filter (\<lambda>f. 2 \<le> length f) (map (splitOn comma) ls))))))"
proof (induction ls arbitrary: m)
  case Nil
  then show ?case by simp
next
  case (Cons l ls)
  show ?case
    by (auto simp: Cons stringSplit_fields not_less fun_eq_iff map_add_def split: option.splits)
qed

lemma newAuthorizer_entries:
  "\<exists>m. newAuthorizer (Some text) = Some (Inr m) \<and>
     (\<forall>u p. authUserPassword m u p \<longleftrightarrow> map_of (rev (entries text)) u = Some p)"
  by (auto simp: newAuthorizer_def readFile_def readLines_eq entries_def authUserPassword_def
      split: option.splits)

text \<open>
  C23: the authorizer reads any file without failing, and then accepts a user with a password
  exactly when the last entry of the file for that user has that password.
\<close>

theorem authorizer_accepts_last_entry:
  "\<exists>m. newAuthorizer (Some text) = Some (Inr m) \<and>
     (\<forall>u p. authUserPassword m u p \<longleftrightarrow> map_of (rev (entries text)) u = Some p)"
  by (rule newAuthorizer_entries)

text \<open>The file that lists given logins, one per line.\<close>

definition loginsFile :: "(bytes \<times> bytes) list \<Rightarrow> bytes" where
  "loginsFile ls = concat (map (\<lambda>(u, p). u @ comma @ p @ [line_feed]) ls)"

definition plain :: "bytes \<Rightarrow> bool" where
  "plain s \<longleftrightarrow> line_feed \<notin> set s \<and> 44 \<notin> set s"

lemma findSub_comma: "44 \<notin> set s \<Longrightarrow> findSub comma s = None"
  by (induction s) auto

lemma findSub_comma_at: "44 \<notin> set u \<Longrightarrow> findSub comma (u @ 44 # p) = Some (length u)"
  by (induction u) auto

lemma splitOn_comma: "plain u \<Longrightarrow> plain p \<Longrightarrow> splitOn comma (u @ 44 # p) = [u, p]"
  by (simp add: plain_def splitOn.simps [of comma "u @ 44 # p"] splitOn.simps [of comma p]
      findSub_comma findSub_comma_at)

lemma getlines_line: "line_feed \<notin> set l \<Longrightarrow> getlines (l @ line_feed # rest) = l # getlines rest"
  by (subst getlines.simps) (simp add: takeWhile_append dropWhile_append cong: conj_cong)

lemma entries_loginsFile:
  "list_all (\<lambda>(u, p). plain u \<and> plain p) ls \<Longrightarrow> entries (loginsFile ls) = ls"
proof (induction ls)
  case Nil
  then show ?case by (simp add: loginsFile_def entries_def getlines.simps)
next
  case (Cons l ls)
  obtain u p where l: "l = (u, p)" by (cases l)
  with Cons.prems have "getlines (loginsFile (l # ls)) = (u @ 44 # p) # getlines (loginsFile ls)"
    using getlines_line [of "u @ 44 # p" "loginsFile ls"] by (simp add: loginsFile_def plain_def)
  with Cons l show ?case
    by (simp add: entries_def splitOn_comma)
qed

text \<open>
  A file written with one \<open>user,password\<close> line for each of a list of logins without commas
  and line feeds and with distinct users lets in exactly these logins.
\<close>

theorem logins_file_round_trip:
  assumes "list_all (\<lambda>(u, p). plain u \<and> plain p) ls" and "distinct (map fst ls)"
  shows "\<exists>m. newAuthorizer (Some (loginsFile ls)) = Some (Inr m) \<and>
    (\<forall>u p. authUserPassword m u p \<longleftrightarrow> (u, p) \<in> set ls)"
proof -
  have "distinct (map fst (rev ls))"
    using assms(2) by (simp add: rev_map [symmetric])
  then have "map_of (rev ls) u = Some p \<longleftrightarrow> (u, p) \<in> set ls" for u p
    by (subst map_of_eq_Some_iff) simp_all
  with assms(1) show ?thesis
    using newAuthorizer_entries [of "loginsFile ls"] by (simp add: entries_loginsFile)
qed

theorem logins_file_round_trip_witness:
  "\<exists>m. newAuthorizer (Some (loginsFile [([97], [98]), ([99], [100])])) = Some (Inr m) \<and>
    (\<forall>u p. authUserPassword m u p \<longleftrightarrow> (u, p) \<in> {([97], [98]), ([99], [100])})"
  using logins_file_round_trip [of "[([97], [98]), ([99], [100])]"]
  by (simp add: plain_def)

end
