(* ===== verification/EventSocketCommon.thy ===== *)
theory EventSocketCommon
  imports Codec
begin

text \<open>
  \<open>src/Event/EventSocketCommon.cpp\<close>: the conversions between \<open>SocksAddress\<close> and the
  operating system's socket addresses. A \<open>sockaddr_storage\<close> is seen through its family: the
  port and \<open>s_addr\<close> are integers whose bytes in memory are in network order.
\<close>

section \<open>Socket addresses\<close>

datatype sockaddr =
    SockAddrIn u16 u32      \<comment> \<open>\<open>AF_INET\<close>: \<open>sin_port\<close>, \<open>sin_addr.s_addr\<close>\<close>
  | SockAddrIn6 u16 bytes   \<comment> \<open>\<open>AF_INET6\<close>: \<open>sin6_port\<close>, \<open>sin6_addr\<close>\<close>
  | SockAddrOther           \<comment> \<open>any other family\<close>

text \<open>What the network sees: the bytes of the address and of the port, in memory order.\<close>

fun net_address :: "byte_order \<Rightarrow> sockaddr \<Rightarrow> (bytes \<times> bytes) option" where
  "net_address bo (SockAddrIn p a) = Some (store32 bo a, store16 bo p)"
| "net_address bo (SockAddrIn6 p a) = Some (a, store16 bo p)"
| "net_address bo SockAddrOther = None"

section \<open>Conversions\<close>

text \<open>
  \<open>getAddress\<close> converts to native byte order. An unknown family runs into \<open>assert(false)\<close>.
\<close>

definition getAddress :: "byte_order \<Rightarrow> sockaddr \<Rightarrow> SocksAddress res" where
  "getAddress bo sa =
     (case sa of
        SockAddrIn sin_port s_addr \<Rightarrow>
          let s_addr = ntohl bo s_addr in
          Inr \<lparr>addr_type = IPv4Addr, addr_addr = SocksIPv4Address (store32 bo s_addr),
               addr_port = ntohs bo sin_port\<rparr>
      | SockAddrIn6 sin6_port s6_addr \<Rightarrow>
          Inr \<lparr>addr_type = IPv6Addr, addr_addr = SocksIPv6Address s6_addr,
               addr_port = ntohs bo sin6_port\<rparr>
      | SockAddrOther \<Rightarrow> Inl AssertFailed)"

text \<open>
  The port of a log line. An address of any other family is read through \<open>sockaddr_in\<close> all the
  same; the model does not know what lies there.
\<close>

definition getAddrPort :: "byte_order \<Rightarrow> sockaddr \<Rightarrow> u16 option" where
  "getAddrPort bo sa =
     (case sa of
        SockAddrIn6 sin6_port s6_addr \<Rightarrow> Some (ntohs bo sin6_port)
      | SockAddrIn sin_port s_addr \<Rightarrow> Some (ntohs bo sin_port)
      | SockAddrOther \<Rightarrow> None)"

text \<open>\<open>None\<close> is the result \<open>false\<close>, with nothing stored.\<close>

definition convertAddrToStorage :: "byte_order \<Rightarrow> SocksAddress \<Rightarrow> sockaddr option res" where
  "convertAddrToStorage bo addr =
     (if addr_type addr = IPv4Addr then
        (case addr_addr addr of
           SocksIPv4Address ip4 \<Rightarrow>
             andThen (vec_range ip4 0 4) (\<lambda>raw. Inr (Some (SockAddrIn (addr_port addr) (load32 bo raw))))
         | _ \<Rightarrow> Inl BadVariantAccess)
      else if addr_type addr = IPv6Addr then
        (case addr_addr addr of
           SocksIPv6Address ip6 \<Rightarrow>
             andThen (vec_range ip6 0 16) (\<lambda>raw. Inr (Some (SockAddrIn6 (addr_port addr) raw)))
         | _ \<Rightarrow> Inl BadVariantAccess)
      else Inr None)"

section \<open>Results\<close>

lemma convertAddrToStorage_wf:
  "wf_address a \<Longrightarrow> convertAddrToStorage bo a = Inr
     (case addr_addr a of
        SocksIPv4Address ip \<Rightarrow> Some (SockAddrIn (addr_port a) (load32 bo ip))
      | SocksDomainAddress n \<Rightarrow> None
      | SocksIPv6Address ip \<Rightarrow> Some (SockAddrIn6 (addr_port a) ip))"
  by (cases "addr_addr a") (auto simp: convertAddrToStorage_def wf_address_def)

lemma getAddress_wf: "getAddress bo sa = Inr a \<Longrightarrow> (\<forall>p ip. sa = SockAddrIn6 p ip \<longrightarrow> length ip = 16) \<Longrightarrow>
    wf_address a \<and> wire_variant (addr_addr a)"
  by (auto simp: getAddress_def wf_address_def split: sockaddr.splits)

text \<open>
  The address a client names in an accepted IPv4 or IPv6 command is the address the program
  connects to: byte for byte what stood in the request, address and port, on a host of either
  byte order. A domain name is never converted.
\<close>

theorem connect_target_is_requested:
  assumes "decodeCommand bo (commandWire bo c v port) old = Inr (True, m)" and "wire_variant v"
  shows "convertAddrToStorage bo \<lparr>addr_type = cm_addrType m, addr_addr = cm_addr m, addr_port = cm_port m\<rparr> =
      Inr (case v of SocksDomainAddress n \<Rightarrow> None
             | SocksIPv4Address ip \<Rightarrow> Some (SockAddrIn port (load32 bo ip))
             | SocksIPv6Address ip \<Rightarrow> Some (SockAddrIn6 port ip)) \<and>
    (case v of SocksDomainAddress n \<Rightarrow> True
       | SocksIPv4Address ip \<Rightarrow> net_address bo (SockAddrIn port (load32 bo ip)) = Some (ip, store16 bo port)
       | SocksIPv6Address ip \<Rightarrow> net_address bo (SockAddrIn6 port ip) = Some (ip, store16 bo port))"
proof -
  from assms obtain c' v' p' where "isCommandExist c'" "wire_variant v'"
    and eq: "commandWire bo c v port = commandWire bo c' v' p'"
    and m: "m = \<lparr>cm_version = Version5, cm_command = c', cm_addrType = variant_type v', cm_addr = v', cm_port = p'\<rparr>"
    using decodeCommand_accepts_only_wire by blast
  then have "c = c'" by (simp add: commandWire_def)
  with assms \<open>isCommandExist c'\<close> have
    "m = \<lparr>cm_version = Version5, cm_command = c, cm_addrType = variant_type v, cm_addr = v, cm_port = port\<rparr>"
    by (simp add: decodeCommand_wire)
  with assms(2) show ?thesis
    by (auto simp: convertAddrToStorage_wf wf_address_def store32_load32
        split: SocksVariantAddress.splits)
qed

theorem connect_target_is_requested_witness:
  "convertAddrToStorage LittleEndian \<lparr>addr_type = 1, addr_addr = SocksIPv4Address [10, 0, 0, 1], addr_port = 80\<rparr> =
    Inr (Some (SockAddrIn 80 (load32 LittleEndian [10, 0, 0, 1])))"
  using connect_target_is_requested [of LittleEndian 1 "SocksIPv4Address [10, 0, 0, 1]" 80 newCommandMsg]
    decodeCommand_wire [of 1 "SocksIPv4Address [10, 0, 0, 1]" LittleEndian 80 newCommandMsg]
  by (simp add: isCommandExist_def)

text \<open>
  The reply that reports a local IPv4 address carries the address and the port byte-reversed
  on a little-endian host and unchanged on a big-endian one: \<open>getAddress\<close> has made them native,
  and the encoder copies them as they lie in memory.
\<close>

theorem reply_address_order:
  "\<exists>a. getAddress bo (SockAddrIn port ip) = Inr a \<and>
    encodeCommandResp bo \<lparr>cr_version = Version5, cr_status = st, cr_addrType = addr_type a,
      cr_addr = addr_addr a, cr_port = addr_port a\<rparr> buf =
    Inr (True, [Version5, st, 0, IPv4Addr] @
      (case bo of BigEndian \<Rightarrow> store32 bo ip @ store16 bo port
                | LittleEndian \<Rightarrow> rev (store32 bo ip) @ rev (store16 bo port)))"
  by (cases bo) (simp_all add: getAddress_def encodeCommandResp_wire commandWire_def ntohs_def ntohl_def)

end
