(* ===== verification/World.thy ===== *)
theory World
  imports StateMachine Authorizer EventSocketCommon
begin

text \<open>
  The memory of the running server: the live objects, who points to whom, and the calls made to
  libevent and the operating system. Objects are created and destroyed while callbacks are
  running, so pointers are modelled as such: an address is a number that is never used again, and
  following a pointer to an object that has been destroyed is the fault \<open>UseAfterFree\<close>.

  \<^item> A \<open>sock\<close> is an \<open>EventSocketConnected\<close> with the use count of its \<open>shared_ptr\<close>
    (\<open>SocksConnectionPtr\<close>).
  \<^item> A \<open>session\<close> is a \<open>Session\<close> with its members \<open>_tracker\<close> (whose \<open>StateMachine\<close> is the
    field \<open>s_machine\<close>) and \<open>_tcpStreamProxy\<close>.
  \<^item> The one \<open>SessionMng\<close>, its server and its authorizer are fields of the world itself.
\<close>

section \<open>Objects\<close>

datatype ProxyDirection = Main | In | Out

text \<open>The objects an \<open>ISocksConnectionUser *\<close> can point to, by the session they belong to.\<close>

datatype user_ref =
    UTracker nat                     \<comment> \<open>the session's \<open>InConnTracker\<close>\<close>
  | USession nat                     \<comment> \<open>the \<open>Session\<close> itself\<close>
  | UProxy nat ProxyDirection        \<comment> \<open>a \<open>DirectedProxyConnection\<close> of its \<open>TcpStreamProxy\<close>\<close>

record sock =
  es_user :: "user_ref option"
  es_remote :: SocksAddress
  es_local :: SocksAddress
  es_connected :: bool
  es_refs :: nat

record proxy =
  p_main :: nat
  p_out :: nat

record session =
  s_id :: u32
  s_inConn :: nat
  s_outConn :: "nat option"
  s_trackerConn :: nat
  s_machine :: sm_state
  s_proxy :: "proxy option"

section \<open>The environment\<close>

text \<open>
  libevent and the operating system are outside the program. \<open>ext_call\<close> are the calls the
  program makes to them, \<open>env\<close> what they answer during one callback.
\<close>

datatype ext_call =
    XNewBev nat                  \<comment> \<open>\<open>bufferevent_socket_new\<close>\<close>
  | XConnect nat sockaddr        \<comment> \<open>\<open>bufferevent_socket_connect\<close>\<close>
  | XQueue nat bytes             \<comment> \<open>a successful \<open>evbuffer_add\<close> to the output buffer\<close>
  | XDisable nat                 \<comment> \<open>\<open>bufferevent_disable\<close>\<close>
  | XCloseSocket nat             \<comment> \<open>\<open>evutil_closesocket\<close>\<close>
  | XFreeBev nat                 \<comment> \<open>\<open>bufferevent_free\<close>\<close>
  | XShutdown nat                \<comment> \<open>\<open>shutdown\<close> of the sending direction\<close>
  | XLoopBreak                   \<comment> \<open>\<open>event_base_loopbreak\<close>\<close>

record env =
  env_order :: byte_order
  env_bev_new :: bool                          \<comment> \<open>\<open>bufferevent_socket_new\<close> does not return null\<close>
  env_add_ok :: "nat \<Rightarrow> bytes \<Rightarrow> bool"         \<comment> \<open>\<open>evbuffer_add\<close> returns 0\<close>
  env_connect_ok :: "nat \<Rightarrow> sockaddr \<Rightarrow> bool"  \<comment> \<open>\<open>bufferevent_socket_connect\<close> returns 0\<close>
  env_sockname :: "nat \<Rightarrow> sockaddr"
  env_peername :: "nat \<Rightarrow> sockaddr"

section \<open>The world\<close>

record world =
  socks :: "nat \<rightharpoonup> sock"
  next_sock :: nat
  sessions :: "nat \<rightharpoonup> session"
  next_session :: nat
  mng_sessions :: "u32 \<rightharpoonup> nat"              \<comment> \<open>\<open>SessionMng::_sessions\<close>\<close>
  mng_currentId :: u32
  mng_logins :: logins
  srv_connections :: "nat \<rightharpoonup> nat option"     \<comment> \<open>\<open>EventTcpServer::_connections\<close>; \<open>Some None\<close> is a null pointer\<close>
  calls :: "ext_call list"

definition emit :: "ext_call \<Rightarrow> world cmd" where
  [world_defs]: "emit x w = Inr (w\<lparr>calls := calls w @ [x]\<rparr>)"

definition get_sock :: "nat \<Rightarrow> world \<Rightarrow> sock res" where
  [world_defs]: "get_sock c w = (case socks w c of None \<Rightarrow> Inl UseAfterFree | Some k \<Rightarrow> Inr k)"

definition upd_sock :: "nat \<Rightarrow> (sock \<Rightarrow> sock) \<Rightarrow> world cmd" where
  [world_defs]: "upd_sock c f w =
     andThen (get_sock c w) (\<lambda>k. Inr (w\<lparr>socks := (socks w)(c \<mapsto> f k)\<rparr>))"

definition get_session :: "nat \<Rightarrow> world \<Rightarrow> session res" where
  [world_defs]: "get_session a w = (case sessions w a of None \<Rightarrow> Inl UseAfterFree | Some s \<Rightarrow> Inr s)"

definition upd_session :: "nat \<Rightarrow> (session \<Rightarrow> session) \<Rightarrow> world cmd" where
  [world_defs]: "upd_session a f w =
     andThen (get_session a w) (\<lambda>s. Inr (w\<lparr>sessions := (sessions w)(a \<mapsto> f s)\<rparr>))"

text \<open>
  Copying and dropping a \<open>SocksConnectionPtr\<close>. The last drop destroys the object, whose only
  effect outside memory is that of its \<open>BufferEventPtr\<close>.
\<close>

definition ptr_copy :: "nat \<Rightarrow> world cmd" where
  [world_defs]: "ptr_copy c = upd_sock c (\<lambda>k. k\<lparr>es_refs := es_refs k + 1\<rparr>)"

definition ptr_drop :: "nat \<Rightarrow> world cmd" where
  [world_defs]: "ptr_drop c w =
     andThen (get_sock c w) (\<lambda>k.
     if es_refs k \<le> 1 then emit (XFreeBev c) (w\<lparr>socks := (socks w)(c := None)\<rparr>)
     else upd_sock c (\<lambda>k. k\<lparr>es_refs := es_refs k - 1\<rparr>) w)"

lemma get_session_live [simp]: "sessions w a = Some s \<Longrightarrow> get_session a w = Inr s"
  by (simp add: get_session_def)

lemma get_session_dead [simp]: "sessions w a = None \<Longrightarrow> get_session a w = Inl UseAfterFree"
  by (simp add: get_session_def)

lemma get_sock_live [simp]: "socks w c = Some k \<Longrightarrow> get_sock c w = Inr k"
  by (simp add: get_sock_def)

lemma upd_session_live [simp]:
  "sessions w a = Some s \<Longrightarrow> upd_session a f w = Inr (w\<lparr>sessions := (sessions w)(a \<mapsto> f s)\<rparr>)"
  by (simp add: upd_session_def)

lemma upd_sock_live [simp]:
  "socks w c = Some k \<Longrightarrow> upd_sock c f w = Inr (w\<lparr>socks := (socks w)(c \<mapsto> f k)\<rparr>)"
  by (simp add: upd_sock_def)

lemma ptr_drop_shared [simp]:
  "socks w c = Some k \<Longrightarrow> 1 < es_refs k \<Longrightarrow>
     ptr_drop c w = Inr (w\<lparr>socks := (socks w)(c \<mapsto> k\<lparr>es_refs := es_refs k - 1\<rparr>)\<rparr>)"
  by (simp add: ptr_drop_def)

lemma ptr_drop_last [simp]:
  "socks w c = Some k \<Longrightarrow> es_refs k \<le> 1 \<Longrightarrow>
     ptr_drop c w = Inr (w\<lparr>socks := (socks w)(c := None), calls := calls w @ [XFreeBev c]\<rparr>)"
  by (simp add: ptr_drop_def emit_def)

lemma ptr_copy_live [simp]:
  "socks w c = Some k \<Longrightarrow> ptr_copy c w = Inr (w\<lparr>socks := (socks w)(c \<mapsto> k\<lparr>es_refs := es_refs k + 1\<rparr>)\<rparr>)"
  by (simp add: ptr_copy_def)

lemma emit_Inr [simp]: "emit x w = Inr (w\<lparr>calls := calls w @ [x]\<rparr>)"
  by (simp add: emit_def)

end
