(* ===== verification/EventSocketConnected.thy ===== *)
theory EventSocketConnected
  imports World
begin

text \<open>
  \<open>src/Event/EventSocketConnected.cpp\<close>: the TCP connections of the server, accepted and
  outgoing. Its callbacks \<open>onRead\<close> and \<open>onEvent\<close>, which enter the objects that use a
  connection, are in theory \<open>EventLoop\<close>.
\<close>

section \<open>Construction\<close>

text \<open>
  Both constructors make a bufferevent and pass it to \<open>enable\<close>, which hands a null pointer to
  libevent when there is none. A new connection has one pointer to it.
\<close>

definition es_enable :: "env \<Rightarrow> world cmd" where
  [method_defs]: "es_enable e w = (if env_bev_new e then Inr w else Inl NullDeref)"

definition es_new :: "env \<Rightarrow> SocksAddress \<Rightarrow> world \<Rightarrow> (nat \<times> world) res" where
  [method_defs]: "es_new e remote w =
     (let c = next_sock w in
      andThen (emit (XNewBev c)
        (w\<lparr>socks := (socks w)(c \<mapsto> \<lparr>es_user = None, es_remote = remote, es_local = emptyAddress,
             es_connected = False, es_refs = 1\<rparr>), next_sock := c + 1\<rparr>)) (\<lambda>w.
      andThen (es_enable e w) (\<lambda>w. Inr (c, w))))"

definition es_fromFd :: "env \<Rightarrow> world \<Rightarrow> (nat \<times> world) res" where
  [method_defs]: "es_fromFd e w = es_new e emptyAddress w"

section \<open>\<open>ISocksConnection\<close>\<close>

definition es_setUser :: "nat \<Rightarrow> user_ref option \<Rightarrow> world cmd" where
  [method_defs]: "es_setUser c u = upd_sock c (\<lambda>k. k\<lparr>es_user := u\<rparr>)"

definition es_send :: "env \<Rightarrow> nat \<Rightarrow> bytes \<Rightarrow> world \<Rightarrow> (bool \<times> world) res" where
  [method_defs]: "es_send e c buf w =
     andThen (get_sock c w) (\<lambda>k.
     if \<not> env_add_ok e c buf then Inr (False, w)
     else andThen (emit (XQueue c buf) w) (\<lambda>w. Inr (True, w)))"

definition es_closeConnection :: "nat \<Rightarrow> world cmd" where
  [method_defs]: "es_closeConnection c w =
     andThen (get_sock c w) (\<lambda>k.
     if \<not> es_connected k then Inr w
     else seqs [upd_sock c (\<lambda>k. k\<lparr>es_connected := False\<rparr>), emit (XDisable c), emit (XCloseSocket c)] w)"

definition es_isConnected :: "nat \<Rightarrow> world \<Rightarrow> bool res" where
  [method_defs]: "es_isConnected c w = andThen (get_sock c w) (\<lambda>k. Inr (es_connected k))"

definition es_getLocalAddress :: "nat \<Rightarrow> world \<Rightarrow> SocksAddress option res" where
  [method_defs]: "es_getLocalAddress c w = andThen (get_sock c w) (\<lambda>k. Inr (Some (es_local k)))"

section \<open>Connecting\<close>

definition es_connect :: "env \<Rightarrow> nat \<Rightarrow> world \<Rightarrow> (bool \<times> world) res" where
  [method_defs]: "es_connect e c w =
     andThen (get_sock c w) (\<lambda>k.
     andThen (convertAddrToStorage (env_order e) (es_remote k)) (\<lambda>storage.
     case storage of
       None \<Rightarrow> Inr (False, w)
     | Some sa \<Rightarrow>
         andThen (emit (XConnect c sa) w) (\<lambda>w.
         if env_connect_ok e c sa then Inr (True, w) else Inr (False, w))))"

text \<open>
  \<open>createConnect\<close>: the local pointer to the new connection is dropped when \<open>connect\<close> fails.
\<close>

definition es_createConnect ::
  "env \<Rightarrow> SocksAddress \<Rightarrow> user_ref \<Rightarrow> world \<Rightarrow> (nat option \<times> world) res" where
  [method_defs]: "es_createConnect e addr user w =
     andThen (es_new e addr w) (\<lambda>(c, w).
     andThen (es_setUser c (Some user) w) (\<lambda>w.
     andThen (es_connect e c w) (\<lambda>(ok, w).
     if \<not> ok then andThen (ptr_drop c w) (\<lambda>w. Inr (None, w))
     else Inr (Some c, w))))"

text \<open>\<open>doShutdown\<close> has no caller.\<close>

definition es_doShutdown :: "nat \<Rightarrow> world cmd" where
  [method_defs]: "es_doShutdown c w = andThen (get_sock c w) (\<lambda>_. emit (XShutdown c) w)"

text \<open>
  \<open>getLocalSocketAddress\<close> and \<open>getRemoteSocketAddress\<close> read what the system leaves in a
  \<open>sockaddr_storage\<close> of zeros. The results of \<open>getsockname\<close> and \<open>getpeername\<close> are ignored: after a
  failure the storage has no known family.
\<close>

definition getLocalSocketAddress :: "env \<Rightarrow> nat \<Rightarrow> SocksAddress res" where
  [simp]: "getLocalSocketAddress e c = getAddress (env_order e) (env_sockname e c)"

definition getRemoteSocketAddress :: "env \<Rightarrow> nat \<Rightarrow> SocksAddress res" where
  [simp]: "getRemoteSocketAddress e c = getAddress (env_order e) (env_peername e c)"

definition es_updateLocalAddress :: "env \<Rightarrow> nat \<Rightarrow> world cmd" where
  [method_defs]: "es_updateLocalAddress e c w =
     andThen (get_sock c w) (\<lambda>_.
     andThen (getLocalSocketAddress e c) (\<lambda>a.
     upd_sock c (\<lambda>k. k\<lparr>es_local := a\<rparr>) w))"

definition es_updateRemoteAddress :: "env \<Rightarrow> nat \<Rightarrow> world cmd" where
  [method_defs]: "es_updateRemoteAddress e c w =
     andThen (get_sock c w) (\<lambda>_.
     andThen (getRemoteSocketAddress e c) (\<lambda>a.
     upd_sock c (\<lambda>k. k\<lparr>es_remote := a\<rparr>) w))"

section \<open>Results\<close>

lemma es_setUser_live [simp]:
  "socks w c = Some k \<Longrightarrow> es_setUser c u w = Inr (w\<lparr>socks := (socks w)(c \<mapsto> k\<lparr>es_user := u\<rparr>)\<rparr>)"
  by (simp add: es_setUser_def)

lemma es_send_ok [simp]:
  "socks w c = Some k \<Longrightarrow> env_add_ok e c buf \<Longrightarrow>
     es_send e c buf w = Inr (True, w\<lparr>calls := calls w @ [XQueue c buf]\<rparr>)"
  by (simp add: es_send_def)

lemma es_send_fail [simp]:
  "socks w c = Some k \<Longrightarrow> \<not> env_add_ok e c buf \<Longrightarrow> es_send e c buf w = Inr (False, w)"
  by (simp add: es_send_def)

lemma es_close_idle [simp]:
  "socks w c = Some k \<Longrightarrow> \<not> es_connected k \<Longrightarrow> es_closeConnection c w = Inr w"
  by (simp add: es_closeConnection_def)

lemma es_close_connected [simp]:
  "socks w c = Some k \<Longrightarrow> es_connected k \<Longrightarrow> es_closeConnection c w = Inr (w\<lparr>
     socks := (socks w)(c \<mapsto> k\<lparr>es_connected := False\<rparr>),
     calls := calls w @ [XDisable c, XCloseSocket c]\<rparr>)"
  by (simp add: es_closeConnection_def)

lemma es_isConnected_live [simp]: "socks w c = Some k \<Longrightarrow> es_isConnected c w = Inr (es_connected k)"
  by (simp add: es_isConnected_def)

lemma es_createConnect_result:
  assumes "wf_address addr" and "env_bev_new e" and "c = next_sock w"
  shows "es_createConnect e addr u w =
    (case convertAddrToStorage (env_order e) addr of
       Inl f \<Rightarrow> Inl f
     | Inr None \<Rightarrow> Inr (None, w\<lparr>socks := (socks w)(c := None), next_sock := c + 1,
           calls := calls w @ [XNewBev c, XFreeBev c]\<rparr>)
     | Inr (Some sa) \<Rightarrow>
         if env_connect_ok e c sa
         then Inr (Some c, w\<lparr>socks := (socks w)(c \<mapsto> \<lparr>es_user = Some u, es_remote = addr,
             es_local = emptyAddress, es_connected = False, es_refs = 1\<rparr>), next_sock := c + 1,
             calls := calls w @ [XNewBev c, XConnect c sa]\<rparr>)
         else Inr (None, w\<lparr>socks := (socks w)(c := None), next_sock := c + 1,
             calls := calls w @ [XNewBev c, XConnect c sa, XFreeBev c]\<rparr>))"
  using assms
  by (simp add: es_createConnect_def es_new_def es_enable_def es_connect_def Let_def
      convertAddrToStorage_wf split: SocksVariantAddress.splits)

section \<open>The contract of \<open>ISocksConnection\<close>\<close>

text \<open>
  What the users of a connection rely on (\<open>src/SocksInterfaces.h\<close>): closing always works and leaves
  the connection not connected, and closing a connection that is not connected does nothing.
\<close>

locale socks_connection =
  fixes live :: "'w \<Rightarrow> bool" and connected :: "'w \<Rightarrow> bool res" and close :: "'w cmd"
  assumes connected_total: "live w \<Longrightarrow> \<exists>b. connected w = Inr b"
    and close_total: "live w \<Longrightarrow> \<exists>w'. close w = Inr w' \<and> live w' \<and> connected w' = Inr False"
    and close_unconnected: "live w \<Longrightarrow> connected w = Inr False \<Longrightarrow> close w = Inr w"
begin

lemma close_twice: "live w \<Longrightarrow> andThen (close w) close = close w"
  using close_total [of w] close_unconnected by auto

lemma guarded_close: "live w \<Longrightarrow> andThen (connected w) (\<lambda>up. whenC up close w) = close w"
proof -
  assume w: "live w"
  then obtain b where "connected w = Inr b"
    using connected_total by blast
  with close_unconnected [OF w] show ?thesis by (cases b) auto
qed

end

interpretation es: socks_connection "\<lambda>w. socks w c \<noteq> None" "es_isConnected c" "es_closeConnection c"
  for c
proof
  fix w :: world
  assume "socks w c \<noteq> None"
  then obtain k where k: "socks w c = Some k" by blast
  then show "\<exists>b. es_isConnected c w = Inr b" by simp
  show "\<exists>w'. es_closeConnection c w = Inr w' \<and> socks w' c \<noteq> None \<and> es_isConnected c w' = Inr False"
    using k by (cases "es_connected k") simp_all
  show "es_closeConnection c w = Inr w" if "es_isConnected c w = Inr False"
    using k that by simp
qed

end
