(* ===== verification/Lifetime.thy ===== *)
theory Lifetime
  imports EventSocketConnected
begin

text \<open>
  How a session ends. \<open>EventTcpServer\<close>'s table of outgoing connections, the constructors and
  destructors of \<open>DirectedProxyConnection\<close>, \<open>TcpStreamProxy\<close> and \<open>Session\<close>,
  \<open>SessionMng::onSessionEnd\<close>, and \<open>Session::destroySelf\<close>, after which the object it was
  called on no longer exists.
\<close>

section \<open>\<open>EventTcpServer\<close>\<close>

text \<open>
  The key \<open>ISocksConnectionUser *\<close> of \<open>_connections\<close> is always a \<open>Session\<close>. \<open>closeConnection\<close>
  resets the pointer and leaves the entry.
\<close>

definition srv_addConnection ::
  "env \<Rightarrow> nat \<Rightarrow> SocksAddress \<Rightarrow> world \<Rightarrow> (nat option \<times> world) res" where
  [method_defs]: "srv_addConnection e a addr w =
     andThen (es_createConnect e addr (USession a) w) (\<lambda>(ptr, w).
     case ptr of
       None \<Rightarrow> Inr (None, w)
     | Some c \<Rightarrow>
         andThen (ptr_copy c w) (\<lambda>w.
         andThen
           (case srv_connections w a of
              Some (Some old) \<Rightarrow> ptr_drop old (w\<lparr>srv_connections := (srv_connections w)(a \<mapsto> Some c)\<rparr>)
            | _ \<Rightarrow> Inr (w\<lparr>srv_connections := (srv_connections w)(a \<mapsto> Some c)\<rparr>)) (\<lambda>w.
         Inr (Some c, w))))"

definition srv_closeConnection :: "nat \<Rightarrow> world cmd" where
  [method_defs]: "srv_closeConnection a w =
     (case srv_connections w a of
        None \<Rightarrow> Inr w
      | Some None \<Rightarrow> Inr w
      | Some (Some c) \<Rightarrow> ptr_drop c (w\<lparr>srv_connections := (srv_connections w)(a \<mapsto> None)\<rparr>))"

section \<open>The proxy objects\<close>

definition directed_new :: "nat \<Rightarrow> ProxyDirection \<Rightarrow> nat \<Rightarrow> world cmd" where
  [method_defs]: "directed_new a dir c = seqs [ptr_copy c, es_setUser c (Some (UProxy a dir))]"

definition proxy_new :: "nat \<Rightarrow> nat \<Rightarrow> nat \<Rightarrow> world cmd" where
  [method_defs]: "proxy_new a src dest = seqs [directed_new a Main src, directed_new a Out dest]"

definition directed_delete :: "nat \<Rightarrow> world cmd" where
  [method_defs]: "directed_delete c =
     seqs [\<lambda>w. andThen (es_isConnected c w) (\<lambda>up. whenC up (es_closeConnection c) w),
           es_setUser c None,
           ptr_drop c]"

text \<open>\<open>_outProxy\<close> is declared after \<open>_mainProxy\<close> and so destroyed before it.\<close>

definition proxy_delete :: "proxy \<Rightarrow> world cmd" where
  [method_defs]: "proxy_delete p = seqs [directed_delete (p_out p), directed_delete (p_main p)]"

definition proxy_reset :: "nat \<Rightarrow> world cmd" where
  [method_defs]: "proxy_reset a w =
     andThen (get_session a w) (\<lambda>s.
     case s_proxy s of
       None \<Rightarrow> Inr w
     | Some p \<Rightarrow> seqs [upd_session a (\<lambda>s. s\<lparr>s_proxy := None\<rparr>), proxy_delete p] w)"

section \<open>The end of a session\<close>

text \<open>
  \<open>~Session\<close> destroys the members in reverse order of declaration: \<open>_tcpStreamProxy\<close>,
  \<open>_tracker\<close> (with its pointer to the connection), \<open>_outConn\<close>, \<open>_inConn\<close>.
\<close>

definition session_delete :: "nat \<Rightarrow> world cmd" where
  [method_defs]: "session_delete a w =
     andThen (get_session a w) (\<lambda>s.
     seqs [\<lambda>w. Inr (w\<lparr>sessions := (sessions w)(a := None)\<rparr>),
           (case s_proxy s of None \<Rightarrow> skip | Some p \<Rightarrow> proxy_delete p),
           ptr_drop (s_trackerConn s),
           (case s_outConn s of None \<Rightarrow> skip | Some c \<Rightarrow> ptr_drop c),
           ptr_drop (s_inConn s)] w)"

definition mng_onConnectionDestroyed :: "nat \<Rightarrow> world cmd" where
  [method_defs]: "mng_onConnectionDestroyed a = srv_closeConnection a"

definition mng_onSessionEnd :: "u32 \<Rightarrow> world cmd" where
  [method_defs]: "mng_onSessionEnd i w =
     (case mng_sessions w i of
        None \<Rightarrow> Inr w
      | Some a \<Rightarrow> session_delete a (w\<lparr>mng_sessions := (mng_sessions w)(i := None)\<rparr>))"

definition session_destroySelf :: "nat \<Rightarrow> world cmd" where
  [method_defs]: "session_destroySelf a =
     seqs [proxy_reset a,
           \<lambda>w. andThen (get_session a w) (\<lambda>s. mng_onConnectionDestroyed a w),
           \<lambda>w. andThen (get_session a w) (\<lambda>s. mng_onSessionEnd (s_id s) w)]"

section \<open>Memory of one session\<close>

text \<open>
  The pointers of a live session between two callbacks: its connections exist, nobody else holds
  them, their use counts are the numbers of pointers to them, and they report to the session's
  own objects.
\<close>

definition proxy_refs :: "session \<Rightarrow> nat" where
  "proxy_refs s = (if s_proxy s = None then 0 else 1)"

definition in_sock_ok :: "nat \<Rightarrow> session \<Rightarrow> sock \<Rightarrow> bool" where
  "in_sock_ok a s k \<longleftrightarrow> es_refs k = 2 + proxy_refs s \<and> \<not> es_connected k \<and>
     es_user k = Some (if s_proxy s = None then UTracker a else UProxy a Main)"

definition out_sock_ok :: "nat \<Rightarrow> session \<Rightarrow> sock \<Rightarrow> bool" where
  "out_sock_ok a s k \<longleftrightarrow> es_refs k = 2 + proxy_refs s \<and>
     es_user k = Some (if s_proxy s = None then USession a else UProxy a Out)"

definition out_ok :: "world \<Rightarrow> nat \<Rightarrow> session \<Rightarrow> bool" where
  "out_ok w a s \<longleftrightarrow>
     (case s_outConn s of
        None \<Rightarrow> s_proxy s = None \<and> (\<forall>c. srv_connections w a \<noteq> Some (Some c))
      | Some c \<Rightarrow> c \<noteq> s_inConn s \<and> srv_connections w a = Some (Some c) \<and>
          (\<exists>k. socks w c = Some k \<and> out_sock_ok a s k) \<and>
          (s_proxy s = None \<or> s_proxy s = Some \<lparr>p_main = s_inConn s, p_out = c\<rparr>))"

definition mem_ok :: "world \<Rightarrow> nat \<Rightarrow> session \<Rightarrow> bool" where
  "mem_ok w a s \<longleftrightarrow> sessions w a = Some s \<and> mng_sessions w (s_id s) = Some a \<and>
     s_trackerConn s = s_inConn s \<and> (\<exists>k. socks w (s_inConn s) = Some k \<and> in_sock_ok a s k) \<and>
     out_ok w a s"

text \<open>The world without a session, its connections and its table entry; and the calls that closed them.\<close>

definition kill_calls :: "world \<Rightarrow> session \<Rightarrow> ext_call list" where
  "kill_calls w s =
     (case s_outConn s of
        None \<Rightarrow> []
      | Some c \<Rightarrow>
          (if s_proxy s \<noteq> None \<and> (\<exists>k. socks w c = Some k \<and> es_connected k)
           then [XDisable c, XCloseSocket c] else []) @ [XFreeBev c]) @ [XFreeBev (s_inConn s)]"

definition kill :: "nat \<Rightarrow> session \<Rightarrow> world \<Rightarrow> world" where
  "kill a s w = w\<lparr>
     socks := (case s_outConn s of None \<Rightarrow> socks w | Some c \<Rightarrow> (socks w)(c := None))(s_inConn s := None),
     sessions := (sessions w)(a := None),
     mng_sessions := (mng_sessions w)(s_id s := None),
     srv_connections := (case s_outConn s of None \<Rightarrow> srv_connections w
                                            | Some c \<Rightarrow> (srv_connections w)(a \<mapsto> None)),
     calls := calls w @ kill_calls w s\<rparr>"

lemma mem_okD:
  assumes "mem_ok w a s"
  shows "sessions w a = Some s" "mng_sessions w (s_id s) = Some a" "s_trackerConn s = s_inConn s"
    "\<exists>k. socks w (s_inConn s) = Some k \<and> in_sock_ok a s k" "out_ok w a s"
  using assms by (auto simp: mem_ok_def)

text \<open>\<open>destroySelf\<close> on a live session removes exactly that session, with everything it owns.\<close>

lemma destroySelf_kills_idle:
  assumes ok: "mem_ok w a s" and none: "s_outConn s = None"
  shows "session_destroySelf a w = Inr (kill a s w)"
proof -
  obtain k where k: "socks w (s_inConn s) = Some k" "in_sock_ok a s k"
    using mem_okD(4) [OF ok] by blast
  have out: "s_proxy s = None" "\<forall>c. srv_connections w a \<noteq> Some (Some c)"
    using mem_okD(5) [OF ok] none by (simp_all add: out_ok_def)
  then have close: "srv_closeConnection a w = Inr w"
    by (auto simp: srv_closeConnection_def split: option.splits)
  have refs: "es_refs k = 2"
    using k(2) out(1) by (simp add: in_sock_ok_def proxy_refs_def)
  show ?thesis
    using mem_okD(1-3) [OF ok] k(1) out none close refs
    by (simp add: session_destroySelf_def proxy_reset_def mng_onConnectionDestroyed_def
        mng_onSessionEnd_def session_delete_def kill_def kill_calls_def)
qed

lemma destroySelf_kills_waiting:
  assumes ok: "mem_ok w a s" and out: "s_outConn s = Some c" and no_proxy: "s_proxy s = None"
  shows "session_destroySelf a w = Inr (kill a s w)"
proof -
  obtain k where k: "socks w (s_inConn s) = Some k" "es_refs k = 2"
    using mem_okD(4) [OF ok] no_proxy by (auto simp: in_sock_ok_def proxy_refs_def)
  obtain m where m: "socks w c = Some m" "es_refs m = 2"
      and c: "c \<noteq> s_inConn s" "srv_connections w a = Some (Some c)"
    using mem_okD(5) [OF ok] out no_proxy by (auto simp: out_ok_def out_sock_ok_def proxy_refs_def)
  show ?thesis
    using mem_okD(1-3) [OF ok] k m c out no_proxy
    by (simp add: session_destroySelf_def proxy_reset_def mng_onConnectionDestroyed_def
        srv_closeConnection_def mng_onSessionEnd_def session_delete_def kill_def kill_calls_def
        fun_upd_twist)
qed

lemma destroySelf_kills_proxying:
  assumes ok: "mem_ok w a s" and out: "s_outConn s = Some c" and proxy: "s_proxy s \<noteq> None"
  shows "session_destroySelf a w = Inr (kill a s w)"
proof -
  obtain k where k: "socks w (s_inConn s) = Some k" "es_refs k = 3" "\<not> es_connected k"
    using mem_okD(4) [OF ok] proxy by (auto simp: in_sock_ok_def proxy_refs_def)
  obtain m where m: "socks w c = Some m" "es_refs m = 3"
      and c: "c \<noteq> s_inConn s" "srv_connections w a = Some (Some c)"
      and p: "s_proxy s = Some \<lparr>p_main = s_inConn s, p_out = c\<rparr>"
    using mem_okD(5) [OF ok] out proxy by (auto simp: out_ok_def out_sock_ok_def proxy_refs_def)
  show ?thesis
    using mem_okD(1-3) [OF ok] k m c p out
    by (cases "es_connected m")
      (simp_all add: session_destroySelf_def proxy_reset_def proxy_delete_def directed_delete_def
        mng_onConnectionDestroyed_def srv_closeConnection_def mng_onSessionEnd_def
        session_delete_def kill_def kill_calls_def fun_upd_twist)
qed

lemma destroySelf_kills:
  assumes "mem_ok w a s"
  shows "session_destroySelf a w = Inr (kill a s w)"
proof (cases "s_outConn s")
  case None
  then show ?thesis using assms by (rule destroySelf_kills_idle [rotated])
next
  case (Some c)
  then show ?thesis
    using destroySelf_kills_waiting [OF assms] destroySelf_kills_proxying [OF assms] by blast
qed

lemma destroySelf_dead: "sessions w a = None \<Longrightarrow> session_destroySelf a w = Inl UseAfterFree"
  by (simp add: session_destroySelf_def proxy_reset_def)

text \<open>
  Closing a live connection twice is closing it once, and the guard \<open>isConnected\<close> in
  \<open>~DirectedProxyConnection\<close> is redundant: the destructor closes the connection, leaves it
  without a user and drops its pointer.
\<close>

lemma closing_is_idempotent:
  assumes "socks w c \<noteq> None"
  shows "andThen (es_closeConnection c w) (es_closeConnection c) = es_closeConnection c w \<and>
    directed_delete c w = seqs [es_closeConnection c, es_setUser c None, ptr_drop c] w"
  using es.close_twice [OF assms] es.guarded_close [OF assms] by (simp add: directed_delete_def)

section \<open>Deleting a session behind the server's back\<close>

text \<open>
  \<open>SessionMng::onNewConnection\<close> deletes a session that still has the new identifier. Nobody closes
  the entry of the server's table then, so the outgoing connection keeps one pointer.
\<close>

lemma session_delete_leaks:
  assumes ok: "mem_ok (w\<lparr>mng_sessions := t\<rparr>) a s" and out: "s_outConn s = Some c"
  shows "\<exists>w' k. session_delete a w = Inr w' \<and> sessions w' = (sessions w)(a := None) \<and>
    socks w' (s_inConn s) = None \<and> socks w' c = Some k \<and> es_refs k = 1 \<and>
    srv_connections w' = srv_connections w \<and>
    (\<forall>d. d \<noteq> s_inConn s \<and> d \<noteq> c \<longrightarrow> socks w' d = socks w d)"
proof (cases "s_proxy s")
  case None
  obtain k where k: "socks w (s_inConn s) = Some k" "es_refs k = 2"
    using mem_okD(4) [OF ok] None by (auto simp: in_sock_ok_def proxy_refs_def)
  obtain m where m: "socks w c = Some m" "es_refs m = 2" "c \<noteq> s_inConn s"
    using mem_okD(5) [OF ok] out None by (auto simp: out_ok_def out_sock_ok_def proxy_refs_def)
  show ?thesis
    using mem_okD(1-3) [OF ok] k m out None by (simp add: session_delete_def)
next
  case (Some q)
  obtain k where k: "socks w (s_inConn s) = Some k" "es_refs k = 3" "\<not> es_connected k"
    using mem_okD(4) [OF ok] Some by (auto simp: in_sock_ok_def proxy_refs_def)
  obtain m where m: "socks w c = Some m" "es_refs m = 3" "c \<noteq> s_inConn s"
      and p: "s_proxy s = Some \<lparr>p_main = s_inConn s, p_out = c\<rparr>"
    using mem_okD(5) [OF ok] out Some by (auto simp: out_ok_def out_sock_ok_def proxy_refs_def)
  show ?thesis
    using mem_okD(1-3) [OF ok] k m p out
    by (cases "es_connected m") (simp_all add: session_delete_def proxy_delete_def directed_delete_def)
qed

end
