(* ===== verification/InConnTracker.thy ===== *)
theory InConnTracker
  imports Lifetime
begin

text \<open>
  \<open>src/InConnTracker.h\<close> and \<open>src/InConnTracker.cpp\<close>: the side of a session that talks SOCKS to
  the client. It owns the state machine and is its \<open>IStateMachineOwner\<close>. The two requests the
  machine makes, \<open>requestPassAuth\<close> and \<open>startProxy\<close>, go to the session and come back here, so
  they are in theory \<open>Session\<close>.
\<close>

section \<open>Methods\<close>

text \<open>The constructor. The machine it owns starts in \<open>WaitForGreeting\<close>.\<close>

definition tracker_new :: "nat \<Rightarrow> nat \<Rightarrow> world cmd" where
  [method_defs]: "tracker_new a c = seqs [ptr_copy c, es_setUser c (Some (UTracker a))]"

text \<open>\<open>_owner.onConnTrackerDestroy()\<close> is the session's \<open>destroySelf\<close>.\<close>

definition onConnTrackerDestroy :: "nat \<Rightarrow> world cmd" where
  [method_defs]: "onConnTrackerDestroy a = session_destroySelf a"

definition tracker_destroySelf :: "nat \<Rightarrow> world cmd" where
  [method_defs]: "tracker_destroySelf a w =
     andThen (get_session a w) (\<lambda>_. onConnTrackerDestroy a w)"

text \<open>\<open>encode\<close> is the overload for the message, given the empty buffer of \<open>sendMsg\<close>.\<close>

definition sendMsg :: "env \<Rightarrow> nat \<Rightarrow> (bytes \<Rightarrow> (bool \<times> bytes) res) \<Rightarrow> world cmd" where
  [method_defs]: "sendMsg e a encode w =
     andThen (get_session a w) (\<lambda>s.
     andThen (encode []) (\<lambda>(ok, buf).
     if \<not> ok then tracker_destroySelf a w
     else
       andThen (es_send e (s_trackerConn s) buf w) (\<lambda>(sent, w).
       if \<not> sent then tracker_destroySelf a w else Inr w)))"

definition tracker_sendGreetingResponse :: "env \<Rightarrow> nat \<Rightarrow> byte \<Rightarrow> world cmd" where
  [method_defs]: "tracker_sendGreetingResponse e a m =
     sendMsg e a (encodeGreetingResp \<lparr>gr_version = Version5, gr_authMethod = m\<rparr>)"

definition tracker_sendPassAuthResponse :: "env \<Rightarrow> nat \<Rightarrow> byte \<Rightarrow> world cmd" where
  [method_defs]: "tracker_sendPassAuthResponse e a status =
     sendMsg e a (encodeUserPassResp \<lparr>ur_version = Version5, ur_status = status\<rparr>)"

definition tracker_sendCommandResponse :: "env \<Rightarrow> nat \<Rightarrow> byte \<Rightarrow> SocksAddress \<Rightarrow> world cmd" where
  [method_defs]: "tracker_sendCommandResponse e a status localAddress =
     sendMsg e a (encodeCommandResp (env_order e)
       \<lparr>cr_version = Version5, cr_status = status, cr_addrType = addr_type localAddress,
        cr_addr = addr_addr localAddress, cr_port = addr_port localAddress\<rparr>)"

text \<open>The tracker as the owner of its machine, as far as the replies go.\<close>

definition trackerSender :: "env \<Rightarrow> nat \<Rightarrow> world machine_sender" where
  "trackerSender e a =
     \<lparr>getState = (\<lambda>w. andThen (get_session a w) (\<lambda>s. Inr (s_machine s))),
      putState = (\<lambda>st. upd_session a (\<lambda>s. s\<lparr>s_machine := st\<rparr>)),
      onProtocolError = (\<lambda>reason. tracker_destroySelf a),
      sendGreetingResponse = tracker_sendGreetingResponse e a,
      sendPassAuthResponse = tracker_sendPassAuthResponse e a,
      sendCommandResponse = tracker_sendCommandResponse e a\<rparr>"

definition tracker_onProxyStarted :: "env \<Rightarrow> nat \<Rightarrow> byte \<Rightarrow> SocksAddress \<Rightarrow> world cmd" where
  [method_defs]: "tracker_onProxyStarted e a status localAddress w =
     andThen (get_session a w) (\<lambda>_.
     processStartProxyResult (trackerSender e a) status localAddress w)"

definition tracker_onAuthRequestCompleted :: "env \<Rightarrow> nat \<Rightarrow> bool \<Rightarrow> world cmd" where
  [method_defs]: "tracker_onAuthRequestCompleted e a success w =
     andThen (get_session a w) (\<lambda>_.
     andThen (processPassAuthResult (trackerSender e a) success w) (\<lambda>w.
     if \<not> success then tracker_destroySelf a w else Inr w))"

definition tracker_onConnected :: "nat \<Rightarrow> world cmd" where
  "tracker_onConnected a w = andThen (get_session a w) (\<lambda>_. Inr w)"

definition tracker_onConnectionClosed :: "nat \<Rightarrow> world cmd" where
  [method_defs]: "tracker_onConnectionClosed a = tracker_destroySelf a"

section \<open>The machine of a session\<close>

lemma trackerSender_simps [simp]:
  "getState (trackerSender e a) w = andThen (get_session a w) (\<lambda>s. Inr (s_machine s))"
  "putState (trackerSender e a) st w = upd_session a (\<lambda>s. s\<lparr>s_machine := st\<rparr>) w"
  "onProtocolError (trackerSender e a) r w = tracker_destroySelf a w"
  "sendGreetingResponse (trackerSender e a) m w = tracker_sendGreetingResponse e a m w"
  "sendPassAuthResponse (trackerSender e a) b w = tracker_sendPassAuthResponse e a b w"
  "sendCommandResponse (trackerSender e a) b l w = tracker_sendCommandResponse e a b l w"
  by (simp_all add: trackerSender_def)

interpretation tracker_store: machine_store "trackerSender e a"
  for e a
proof
  fix w s t
  assume "getState (trackerSender e a) w = Inr s"
  then obtain x where "sessions w a = Some x"
    by (cases "sessions w a") auto
  then show "\<exists>w'. putState (trackerSender e a) t w = Inr w' \<and> getState (trackerSender e a) w' = Inr t"
    by simp
qed

section \<open>Results\<close>

text \<open>A live session with another machine state; everything \<open>destroySelf\<close> removes is the same.\<close>

definition with_machine :: "sm_state \<Rightarrow> nat \<Rightarrow> session \<Rightarrow> world \<Rightarrow> world" where
  "with_machine t a s w = w\<lparr>sessions := (sessions w)(a \<mapsto> s\<lparr>s_machine := t\<rparr>)\<rparr>"

definition queued :: "nat \<Rightarrow> bytes \<Rightarrow> world \<Rightarrow> world" where
  "queued c buf w = w\<lparr>calls := calls w @ [XQueue c buf]\<rparr>"

lemma mem_ok_queued [simp]: "mem_ok (queued c buf w) a s = mem_ok w a s"
  by (simp add: mem_ok_def out_ok_def queued_def split: option.splits)

lemma sock_ok_machine [simp]:
  "in_sock_ok a (s\<lparr>s_machine := t\<rparr>) k = in_sock_ok a s k"
  "out_sock_ok a (s\<lparr>s_machine := t\<rparr>) k = out_sock_ok a s k"
  by (simp_all add: in_sock_ok_def out_sock_ok_def proxy_refs_def)

lemma mem_ok_with_machine [simp]:
  "mem_ok w a s \<Longrightarrow> mem_ok (with_machine t a s w) a (s\<lparr>s_machine := t\<rparr>)"
  by (simp add: mem_ok_def out_ok_def with_machine_def split: option.splits)

lemma queued_sels [simp]:
  "sessions (queued c buf w) = sessions w" "socks (queued c buf w) = socks w"
  "mng_sessions (queued c buf w) = mng_sessions w" "srv_connections (queued c buf w) = srv_connections w"
  "next_sock (queued c buf w) = next_sock w" "next_session (queued c buf w) = next_session w"
  "mng_currentId (queued c buf w) = mng_currentId w" "mng_logins (queued c buf w) = mng_logins w"
  "calls (queued c buf w) = calls w @ [XQueue c buf]"
  by (simp_all add: queued_def)

lemma with_machine_sels [simp]:
  "sessions (with_machine t a s w) = (sessions w)(a \<mapsto> s\<lparr>s_machine := t\<rparr>)"
  "socks (with_machine t a s w) = socks w"
  "mng_sessions (with_machine t a s w) = mng_sessions w"
  "srv_connections (with_machine t a s w) = srv_connections w"
  "next_sock (with_machine t a s w) = next_sock w" "next_session (with_machine t a s w) = next_session w"
  "mng_currentId (with_machine t a s w) = mng_currentId w" "mng_logins (with_machine t a s w) = mng_logins w"
  "calls (with_machine t a s w) = calls w"
  by (simp_all add: with_machine_def)

lemma kill_with_machine [simp]:
  "kill a (s\<lparr>s_machine := t\<rparr>) (with_machine t' a s w) = kill a s w"
  "kill a s (with_machine t' a s w) = kill a s w"
  by (cases "s_outConn s"; simp add: kill_def kill_calls_def with_machine_def)+

lemma with_machine_again [simp]:
  "with_machine t' a (s\<lparr>s_machine := u\<rparr>) (with_machine t a s w) = with_machine t' a s w"
  by (simp add: with_machine_def)

lemma kill_dead [simp]: "sessions (kill a s w) a = None"
  by (simp add: kill_def)

lemma mem_ok_in_live: "mem_ok w a s \<Longrightarrow> \<exists>k. socks w (s_trackerConn s) = Some k"
  using mem_okD(3,4) by fastforce

lemma tracker_destroySelf_kills [simp]:
  "mem_ok w a s \<Longrightarrow> tracker_destroySelf a w = Inr (kill a s w)"
  using destroySelf_kills mem_okD(1)
  by (fastforce simp: tracker_destroySelf_def onConnTrackerDestroy_def)

lemma tracker_destroySelf_dead [simp]:
  "sessions w a = None \<Longrightarrow> tracker_destroySelf a w = Inl UseAfterFree"
  by (simp add: tracker_destroySelf_def)

lemma sendMsg_result:
  assumes "mem_ok w a s" and "encode [] = Inr (ok, buf)"
  shows "sendMsg e a encode w =
    Inr (if ok \<and> env_add_ok e (s_inConn s) buf then queued (s_inConn s) buf w else kill a s w)"
proof -
  obtain k where "socks w (s_trackerConn s) = Some k"
    using mem_ok_in_live [OF assms(1)] by blast
  then show ?thesis
    using assms mem_okD(1,3) [OF assms(1)] by (simp add: sendMsg_def queued_def)
qed

lemma sendMsg_unencodable:
  "mem_ok w a s \<Longrightarrow> encode [] = Inr (False, buf) \<Longrightarrow> sendMsg e a encode w = Inr (kill a s w)"
  by (simp add: sendMsg_result [where ok = False])

lemma setState_tracker [simp]:
  "mem_ok w a s \<Longrightarrow> setState (trackerSender e a) t w = Inr (with_machine t a s w)"
  by (simp add: setState_def with_machine_def mem_okD(1))

lemma setState_tracker_dead [simp]:
  "sessions w a = None \<Longrightarrow> setState (trackerSender e a) t w = Inl UseAfterFree"
  by (simp add: setState_def)

lemma protocolError_tracker_dead [simp]:
  "sessions w a = None \<Longrightarrow> protocolError (trackerSender e a) r w = Inl UseAfterFree"
  by (simp add: protocolError_def)

lemma protocolError_tracker [simp]:
  assumes "mem_ok w a s"
  shows "protocolError (trackerSender e a) r w = Inr (kill a s w)"
  using tracker_destroySelf_kills [OF mem_ok_with_machine [OF assms, of ProtocolError]] assms
  by (simp add: protocolError_def)

text \<open>
  Completing a password request: the reply, and the end of the session when the password was
  wrong. A reply that cannot be queued ends the session before \<open>onAuthRequestCompleted\<close> does.
\<close>

lemma onAuthRequestCompleted_result:
  assumes ok: "mem_ok w a s" and st: "s_machine s = WaitForPassAuthResult"
  shows "tracker_onAuthRequestCompleted e a success w =
    (let reply = [Version5, if success then 0 else 1]; sent = env_add_ok e (s_inConn s) reply in
     if success then Inr (if sent then queued (s_inConn s) reply (with_machine WaitForCommand a s w)
                          else kill a s w)
     else if sent then Inr (kill a s (queued (s_inConn s) reply w)) else Inl UseAfterFree)"
  using ok st mem_okD(1) [OF ok]
  by (simp add: tracker_onAuthRequestCompleted_def processPassAuthResult_def Let_def
      tracker_sendPassAuthResponse_def encodeUserPassResp_ok
      sendMsg_result [OF ok] sendMsg_result [OF mem_ok_with_machine [OF ok]])

text \<open>
  The result of a proxy start: what the code does when the reply can be encoded, and the access
  to the destroyed machine when it cannot.
\<close>

lemma onProxyStarted_granted:
  assumes ok: "mem_ok w a s" and st: "s_machine s = WaitForProxyStart"
    and "wire_variant (addr_addr l)" and "variant_type (addr_addr l) = addr_type l"
  shows "tracker_onProxyStarted e a RequestGranted l w =
    (let reply = commandWire (env_order e) RequestGranted (addr_addr l) (addr_port l) in
     if env_add_ok e (s_inConn s) reply
     then Inr (with_machine ProxyStarted a s (queued (s_inConn s) reply w)) else Inl UseAfterFree)"
  using assms mem_okD(1) [OF ok]
  by (simp add: tracker_onProxyStarted_def processStartProxyResult_def Let_def
      tracker_sendCommandResponse_def encodeCommandResp_wire sendMsg_result [OF ok]
      setState_tracker [where s = s])

lemma onProxyStarted_emptyAddress:
  assumes ok: "mem_ok w a s" and st: "s_machine s = WaitForProxyStart"
  shows "tracker_onProxyStarted e a status emptyAddress w = Inl UseAfterFree"
  using assms mem_okD(1) [OF ok]
  by (simp add: tracker_onProxyStarted_def processStartProxyResult_def
      tracker_sendCommandResponse_def encode_emptyAddress sendMsg_unencodable [OF ok])

end
