(* ===== verification/Session.thy ===== *)
theory Session
  imports InConnTracker
begin

text \<open>
  \<open>src/Session.cpp\<close>: one client. The session starts the outgoing connection when the handshake
  is over, reports its result through the tracker, and then hands both connections to a
  \<open>TcpStreamProxy\<close>. Its tracker calls it back in the middle of the tracker's own methods.
\<close>

section \<open>\<open>IConnTrackerOwner\<close>\<close>

definition session_onRequestPassAuth :: "env \<Rightarrow> nat \<Rightarrow> bytes \<Rightarrow> bytes \<Rightarrow> world cmd" where
  [method_defs]: "session_onRequestPassAuth e a user password w =
     andThen (get_session a w) (\<lambda>_.
     tracker_onAuthRequestCompleted e a (authUserPassword (mng_logins w) user password) w)"

definition mng_createNewConnection ::
  "env \<Rightarrow> nat \<Rightarrow> SocksAddress \<Rightarrow> world \<Rightarrow> (nat option \<times> world) res" where
  [method_defs]: "mng_createNewConnection e a addr w = srv_addConnection e a addr w"

text \<open>
  The assignment to \<open>_outConn\<close> drops the pointer it held before.
\<close>

definition session_setOutConn :: "nat \<Rightarrow> nat option \<Rightarrow> world cmd" where
  [method_defs]: "session_setOutConn a conn w =
     andThen (get_session a w) (\<lambda>s.
     andThen (upd_session a (\<lambda>s. s\<lparr>s_outConn := conn\<rparr>) w) (\<lambda>w.
     case s_outConn s of None \<Rightarrow> Inr w | Some old \<Rightarrow> ptr_drop old w))"

definition session_onStartProxy :: "env \<Rightarrow> nat \<Rightarrow> byte \<Rightarrow> SocksAddress \<Rightarrow> world cmd" where
  [method_defs]: "session_onStartProxy e a command address w =
     andThen (get_session a w) (\<lambda>_.
     if command \<noteq> TCPStream
     then seqs [tracker_onProxyStarted e a CommandNotSupported emptyAddress, session_destroySelf a] w
     else
       andThen (mng_createNewConnection e a address w) (\<lambda>(conn, w).
       andThen (session_setOutConn a conn w) (\<lambda>w.
       if conn = None
       then seqs [tracker_onProxyStarted e a GeneralFailure emptyAddress, session_destroySelf a] w
       else Inr w)))"

section \<open>The tracker with its session\<close>

definition tracker_requestPassAuth :: "env \<Rightarrow> nat \<Rightarrow> bytes \<Rightarrow> bytes \<Rightarrow> world cmd" where
  [method_defs]: "tracker_requestPassAuth e a user password w =
     andThen (get_session a w) (\<lambda>_. session_onRequestPassAuth e a user password w)"

definition tracker_startProxy :: "env \<Rightarrow> nat \<Rightarrow> byte \<Rightarrow> SocksAddress \<Rightarrow> world cmd" where
  [method_defs]: "tracker_startProxy e a command address w =
     andThen (get_session a w) (\<lambda>_. session_onStartProxy e a command address w)"

definition trackerOwner :: "env \<Rightarrow> nat \<Rightarrow> world machine_owner" where
  "trackerOwner e a = machine_sender.extend (trackerSender e a)
     \<lparr>requestPassAuth = tracker_requestPassAuth e a, startProxy = tracker_startProxy e a\<rparr>"

definition tracker_onReceive :: "env \<Rightarrow> nat \<Rightarrow> bytes \<Rightarrow> world cmd" where
  [method_defs]: "tracker_onReceive e a buf w =
     andThen (get_session a w) (\<lambda>_. processBuffer (env_order e) (trackerOwner e a) buf w)"

section \<open>\<open>ISocksConnectionUser\<close> and \<open>IProxyUser\<close>\<close>

definition session_onReceive :: "nat \<Rightarrow> bytes \<Rightarrow> world cmd" where
  "session_onReceive a buf w = andThen (get_session a w) (\<lambda>_. Inr w)"

definition session_onConnectionClosed :: "nat \<Rightarrow> world cmd" where
  "session_onConnectionClosed a w = andThen (get_session a w) (\<lambda>_. Inr w)"

definition session_onProxyDestroy :: "nat \<Rightarrow> world cmd" where
  [method_defs]: "session_onProxyDestroy a = session_destroySelf a"

text \<open>
  \<open>new TcpStreamProxy(_id, *this, _inConn, _outConn)\<close>, and the assignment to
  \<open>_tcpStreamProxy\<close>, which deletes the proxy it held before. The proxy of a null \<open>_outConn\<close>
  calls \<open>setUser\<close> on a null pointer.
\<close>

definition session_newProxy :: "nat \<Rightarrow> world cmd" where
  [method_defs]: "session_newProxy a w =
     andThen (get_session a w) (\<lambda>s.
     case s_outConn s of
       None \<Rightarrow> Inl NullDeref
     | Some c \<Rightarrow>
         seqs [proxy_new a (s_inConn s) c,
               upd_session a (\<lambda>s. s\<lparr>s_proxy := Some \<lparr>p_main = s_inConn s, p_out = c\<rparr>\<rparr>),
               (case s_proxy s of None \<Rightarrow> skip | Some old \<Rightarrow> proxy_delete old)] w)"

definition session_onConnected :: "env \<Rightarrow> nat \<Rightarrow> world cmd" where
  [method_defs]: "session_onConnected e a w =
     andThen (get_session a w) (\<lambda>s.
     case s_outConn s of
       None \<Rightarrow> Inl NullDeref
     | Some c \<Rightarrow>
         andThen (es_getLocalAddress c w) (\<lambda>localAddr.
         case localAddr of
           None \<Rightarrow>
             seqs [tracker_onProxyStarted e a HostUnreachable emptyAddress, session_destroySelf a] w
         | Some addr \<Rightarrow>
             seqs [tracker_onProxyStarted e a RequestGranted addr, session_newProxy a] w))"

section \<open>Results\<close>

lemma trackerOwner_simps [simp]:
  "getState (trackerOwner e a) w = andThen (get_session a w) (\<lambda>s. Inr (s_machine s))"
  "putState (trackerOwner e a) st w = upd_session a (\<lambda>s. s\<lparr>s_machine := st\<rparr>) w"
  "onProtocolError (trackerOwner e a) r w = tracker_destroySelf a w"
  "sendGreetingResponse (trackerOwner e a) m w = tracker_sendGreetingResponse e a m w"
  "requestPassAuth (trackerOwner e a) u p w = tracker_requestPassAuth e a u p w"
  "startProxy (trackerOwner e a) c l w = tracker_startProxy e a c l w"
  by (simp_all add: trackerOwner_def trackerSender_def machine_sender.defs)

lemma setState_owner [simp]: "setState (trackerOwner e a) t w = setState (trackerSender e a) t w"
  by (simp add: setState_def)

lemma protocolError_owner [simp]:
  "protocolError (trackerOwner e a) r w = protocolError (trackerSender e a) r w"
  by (simp add: protocolError_def)

text \<open>The first two messages of a client, on a live session that waits for them.\<close>

lemma queued_with_machine [simp]:
  "queued c buf (with_machine t a s w) = with_machine t a s (queued c buf w)"
  by (simp add: queued_def with_machine_def)

lemma decode_cases:
  assumes "decode = Inr (ok, m)"
  shows "(case accepted decode of None \<Rightarrow> f | Some m \<Rightarrow> g m) = (if ok then g m else f)"
  using assms by (simp add: accepted_def)

lemma greeting_choice:
  "(case find (\<lambda>m. m = AuthLoginPass) ms of Some m \<Rightarrow> AuthLoginPass | None \<Rightarrow> NoAvailableMethod) =
     (if AuthLoginPass \<in> set ms then AuthLoginPass else NoAvailableMethod)"
  by (induction ms) auto

lemma receive_greeting:
  assumes ok: "mem_ok w a s" and st: "s_machine s = WaitForGreeting"
  shows "tracker_onReceive e a buf w =
    (case accepted (decodeGreeting buf newGreetingMsg) of
       None \<Rightarrow> Inr (kill a s w)
     | Some m \<Rightarrow>
         let c = s_inConn s;
             r = (if AuthLoginPass \<in> set (gm_authMethods m) then AuthLoginPass else NoAvailableMethod) in
         if \<not> env_add_ok e c [Version5, r] then Inl UseAfterFree
         else if r = AuthLoginPass
         then Inr (with_machine WaitForPassAuth a s (queued c [Version5, r] w))
         else Inr (kill a s (queued c [Version5, r] w)))"
proof -
  obtain dec msg where dec: "decodeGreeting buf newGreetingMsg = Inr (dec, msg)"
    using decodeGreeting_no_fault by (metis surj_pair)
  show ?thesis
    unfolding decode_cases [OF dec]
    using ok st mem_okD(1) [OF ok] dec
    by (auto simp: tracker_onReceive_def processBuffer_def processGreetingMsg_def greeting_choice Let_def
        tracker_sendGreetingResponse_def encodeGreetingResp_ok isAuthMethodExist_iff
        sendMsg_result [OF ok])
qed

lemma receive_passAuth:
  assumes ok: "mem_ok w a s" and st: "s_machine s = WaitForPassAuth"
  shows "tracker_onReceive e a buf w =
    (case accepted (decodeUserPass buf newUserPassAuthMsg) of
       None \<Rightarrow> Inr (kill a s w)
     | Some m \<Rightarrow>
         let c = s_inConn s; good = authUserPassword (mng_logins w) (up_user m) (up_password m);
             r = [Version5, if good then 0 else 1] in
         if good
         then Inr (if env_add_ok e c r then with_machine WaitForCommand a s (queued c r w) else kill a s w)
         else if env_add_ok e c r then Inr (kill a s (queued c r w)) else Inl UseAfterFree)"
proof -
  obtain dec msg where dec: "decodeUserPass buf newUserPassAuthMsg = Inr (dec, msg)"
    using decodeUserPass_no_fault by (metis surj_pair)
  let ?w = "with_machine WaitForPassAuthResult a s w"
  have ok': "mem_ok ?w a (s\<lparr>s_machine := WaitForPassAuthResult\<rparr>)"
    using ok by simp
  show ?thesis
    unfolding decode_cases [OF dec]
    using ok st mem_okD(1) [OF ok] dec onAuthRequestCompleted_result [OF ok']
    by (simp add: tracker_onReceive_def processBuffer_def processPassAuthMsg_def Let_def
        tracker_requestPassAuth_def session_onRequestPassAuth_def)
qed

text \<open>
  The command. \<open>connecting\<close> is the world in which the outgoing connection to \<open>addr\<close> has been
  started. Every other outcome of a decoded command is reported with \<open>SocksAddress{}\<close>: the reply
  cannot be encoded, and the code goes on with the destroyed session.
\<close>

definition connecting :: "nat \<Rightarrow> session \<Rightarrow> SocksAddress \<Rightarrow> sockaddr \<Rightarrow> world \<Rightarrow> world" where
  "connecting a s addr sa w =
     (let c = next_sock w in
      w\<lparr>socks := (socks w)(c \<mapsto> \<lparr>es_user = Some (USession a), es_remote = addr,
           es_local = emptyAddress, es_connected = False, es_refs = 2\<rparr>),
        next_sock := c + 1,
        sessions := (sessions w)(a \<mapsto> s\<lparr>s_outConn := Some c\<rparr>),
        srv_connections := (srv_connections w)(a \<mapsto> Some c),
        calls := calls w @ [XNewBev c, XConnect c sa]\<rparr>)"

lemma mem_ok_frame:
  assumes "mem_ok w a s" and "sessions w' a = sessions w a" and "mng_sessions w' = mng_sessions w"
    and "srv_connections w' a = srv_connections w a"
    and "\<And>c k. socks w c = Some k \<Longrightarrow> socks w' c = Some k"
  shows "mem_ok w' a s"
  using assms by (fastforce simp: mem_ok_def out_ok_def split: option.splits)

lemma startProxy_unsupported:
  assumes ok: "mem_ok w a s" and st: "s_machine s = WaitForProxyStart" and "command \<noteq> TCPStream"
  shows "session_onStartProxy e a command addr w = Inl UseAfterFree"
  using assms(3) mem_okD(1) [OF ok]
  by (simp add: session_onStartProxy_def onProxyStarted_emptyAddress [OF ok st])

lemma setOutConn_none:
  "sessions w a = Some s \<Longrightarrow> s_outConn s = None \<Longrightarrow> session_setOutConn a None w = Inr w"
  by (cases w; cases s) (auto simp: session_setOutConn_def)

lemma startProxy_tcp:
  assumes ok: "mem_ok w a s" and st: "s_machine s = WaitForProxyStart" and out: "s_outConn s = None"
    and wf: "wf_address addr" and fresh: "socks w (next_sock w) = None" and bev: "env_bev_new e"
  shows "session_onStartProxy e a TCPStream addr w =
    (case convertAddrToStorage (env_order e) addr of
       Inr (Some sa) \<Rightarrow>
         if env_connect_ok e (next_sock w) sa then Inr (connecting a s addr sa w) else Inl UseAfterFree
     | _ \<Rightarrow> Inl UseAfterFree)"
proof -
  have live: "sessions w a = Some s" and "\<forall>c. srv_connections w a \<noteq> Some (Some c)"
    using ok out by (simp_all add: mem_ok_def out_ok_def)
  then have srv: "(case srv_connections w a of Some (Some old) \<Rightarrow> f old | _ \<Rightarrow> g) = g" for f g
    by (auto split: option.splits)
  have fail: "tracker_onProxyStarted e a GeneralFailure emptyAddress
      (w\<lparr>socks := (socks w)(next_sock w := None), next_sock := n, calls := cs\<rparr>) = Inl UseAfterFree" for n cs
    using fresh by (intro onProxyStarted_emptyAddress [OF mem_ok_frame [OF ok] st]) auto
  have conv: "convertAddrToStorage (env_order e) addr \<noteq> Inl x" for x
    by (simp add: convertAddrToStorage_wf [OF wf])
  show ?thesis
    using live conv out
    by (auto simp: session_onStartProxy_def mng_createNewConnection_def srv_addConnection_def srv
        es_createConnect_result [OF wf bev refl] setOutConn_none fail session_setOutConn_def [of a "Some _"]
        connecting_def Let_def numeral_2_eq_2
        split: sum.splits option.splits)
qed

definition command_address :: "SocksCommandMsg \<Rightarrow> SocksAddress" where
  "command_address m = \<lparr>addr_type = cm_addrType m, addr_addr = cm_addr m, addr_port = cm_port m\<rparr>"

lemma command_address_wf:
  "decodeCommand bo buf newCommandMsg = Inr (True, m) \<Longrightarrow> wf_address (command_address m)"
  using decodeCommand_accepts_only_wire [of bo buf newCommandMsg m]
  by (auto simp: command_address_def wf_address_def wire_variant_wf)

lemma startProxy_no_bev:
  assumes "sessions w a = Some s" and "\<not> env_bev_new e"
  shows "session_onStartProxy e a TCPStream addr w = Inl NullDeref"
  using assms
  by (simp add: session_onStartProxy_def mng_createNewConnection_def srv_addConnection_def
      es_createConnect_def es_new_def es_enable_def Let_def)

lemma receive_command:
  assumes ok: "mem_ok w a s" and st: "s_machine s = WaitForCommand" and out: "s_outConn s = None"
    and fresh: "socks w (next_sock w) = None"
  shows "tracker_onReceive e a buf w =
    (case accepted (decodeCommand (env_order e) buf newCommandMsg) of
       None \<Rightarrow> Inr (kill a s w)
     | Some m \<Rightarrow>
         if cm_command m = TCPStream \<and> \<not> env_bev_new e then Inl NullDeref
         else
         (case convertAddrToStorage (env_order e) (command_address m) of
            Inr (Some sa) \<Rightarrow>
              if cm_command m = TCPStream \<and> env_connect_ok e (next_sock w) sa
              then Inr (connecting a (s\<lparr>s_machine := WaitForProxyStart\<rparr>) (command_address m) sa
                          (with_machine WaitForProxyStart a s w))
              else Inl UseAfterFree
          | _ \<Rightarrow> Inl UseAfterFree))"
proof -
  obtain dec msg where dec: "decodeCommand (env_order e) buf newCommandMsg = Inr (dec, msg)"
    using decodeCommand_no_fault by (metis surj_pair)
  let ?w = "with_machine WaitForProxyStart a s w" and ?s = "s\<lparr>s_machine := WaitForProxyStart\<rparr>"
  have ok': "mem_ok ?w a ?s" and st': "s_machine ?s = WaitForProxyStart" and out': "s_outConn ?s = None"
    and fresh': "socks ?w (next_sock ?w) = None" and live': "sessions ?w a = Some ?s"
    using ok out fresh by simp_all
  show ?thesis
  proof (cases dec)
    case True
    then have wf: "wf_address (command_address msg)"
      using dec by (intro command_address_wf) simp
    have eq: "tracker_onReceive e a buf w = session_onStartProxy e a (cm_command msg) (command_address msg) ?w"
      using ok st mem_okD(1) [OF ok] dec True
      by (simp add: tracker_onReceive_def processBuffer_def processCommandMsg_def
          tracker_startProxy_def command_address_def)
    show ?thesis
      unfolding decode_cases [OF dec] eq
      using True startProxy_tcp [OF ok' st' out' wf fresh'] startProxy_unsupported [OF ok' st']
        startProxy_no_bev [OF live']
      by (cases "cm_command msg = TCPStream"; cases "env_bev_new e")
        (auto split: sum.splits option.splits)
  next
    case False
    then show ?thesis
      unfolding decode_cases [OF dec]
      using ok st mem_okD(1) [OF ok] dec by (simp add: tracker_onReceive_def processBuffer_def)
  qed
qed

lemma receive_unexpected:
  assumes "mem_ok w a s" and "s_machine s \<notin> {WaitForGreeting, WaitForPassAuth, WaitForCommand}"
  shows "tracker_onReceive e a buf w = Inr (kill a s w)"
  using assms mem_okD(1) [OF assms(1)]
  by (cases "s_machine s") (simp_all add: tracker_onReceive_def processBuffer_def)

text \<open>
  The outgoing connection is up: the reply with the local address, then the proxy between the two
  connections. \<open>proxied\<close> is the resulting world.
\<close>

definition proxied :: "nat \<Rightarrow> session \<Rightarrow> nat \<Rightarrow> sock \<Rightarrow> sock \<Rightarrow> world \<Rightarrow> world" where
  "proxied a s c k m w =
     w\<lparr>socks := (socks w)(s_inConn s \<mapsto> k\<lparr>es_refs := 3, es_user := Some (UProxy a Main)\<rparr>,
                          c \<mapsto> m\<lparr>es_refs := 3, es_user := Some (UProxy a Out)\<rparr>),
       sessions := (sessions w)(a \<mapsto> s\<lparr>s_machine := ProxyStarted,
                      s_proxy := Some \<lparr>p_main = s_inConn s, p_out = c\<rparr>\<rparr>)\<rparr>"

lemma session_onConnected_result:
  assumes ok: "mem_ok w a s" and st: "s_machine s = WaitForProxyStart"
    and out: "s_outConn s = Some c" "s_proxy s = None"
    and k: "socks w (s_inConn s) = Some k" and m: "socks w c = Some m"
    and l: "es_local m = l" "wire_variant (addr_addr l)" "variant_type (addr_addr l) = addr_type l"
  shows "session_onConnected e a w =
    (let reply = commandWire (env_order e) RequestGranted (addr_addr l) (addr_port l) in
     if env_add_ok e (s_inConn s) reply then Inr (proxied a s c k m (queued (s_inConn s) reply w))
     else Inl UseAfterFree)"
proof -
  have refs: "es_refs k = 2" "es_refs m = 2" "c \<noteq> s_inConn s"
    using ok out k m by (auto simp: mem_ok_def out_ok_def in_sock_ok_def out_sock_ok_def proxy_refs_def)
  show ?thesis
    using mem_okD(1) [OF ok] out k m l refs
    by (simp add: session_onConnected_def es_getLocalAddress_def Let_def
        onProxyStarted_granted [OF ok st l(2,3)] session_newProxy_def proxy_new_def directed_new_def proxied_def with_machine_def
        numeral_3_eq_3 numeral_2_eq_2 fun_upd_twist)
qed

end
