(* ===== verification/TcpStreamProxy.thy ===== *)
theory TcpStreamProxy
  imports Session
begin

text \<open>
  \<open>src/TcpStreamProxy.cpp\<close> and \<open>src/DirectedProxyConnection.cpp\<close>: the relay between the two
  connections of a session. The two \<open>DirectedProxyConnection\<close>s of a proxy are members of it, so
  they live as long as the session's \<open>_tcpStreamProxy\<close>; their constructor and destructor are in
  theory \<open>Lifetime\<close>.
\<close>

section \<open>\<open>TcpStreamProxy\<close>\<close>

definition get_proxy :: "nat \<Rightarrow> world \<Rightarrow> proxy res" where
  [world_defs]: "get_proxy a w =
     andThen (get_session a w) (\<lambda>s. case s_proxy s of None \<Rightarrow> Inl UseAfterFree | Some p \<Rightarrow> Inr p)"

definition directed_send :: "env \<Rightarrow> nat \<Rightarrow> bytes \<Rightarrow> world \<Rightarrow> (bool \<times> world) res" where
  [method_defs]: "directed_send e c buf w = es_send e c buf w"

definition directed_disconnect :: "nat \<Rightarrow> world cmd" where
  [method_defs]: "directed_disconnect c = es_closeConnection c"

text \<open>The result of \<open>send\<close> is not looked at.\<close>

definition proxy_onDataReceived :: "env \<Rightarrow> nat \<Rightarrow> ProxyDirection \<Rightarrow> bytes \<Rightarrow> world cmd" where
  [method_defs]: "proxy_onDataReceived e a direction buf w =
     andThen (get_proxy a w) (\<lambda>p.
     case direction of
       Main \<Rightarrow> andThen (directed_send e (p_out p) buf w) (\<lambda>(_, w). Inr w)
     | Out \<Rightarrow> andThen (directed_send e (p_main p) buf w) (\<lambda>(_, w). Inr w)
     | In \<Rightarrow> Inr w)"

definition proxy_onConnected :: "nat \<Rightarrow> ProxyDirection \<Rightarrow> world cmd" where
  "proxy_onConnected a direction w = andThen (get_proxy a w) (\<lambda>_. Inr w)"

definition proxy_onDisconnected :: "nat \<Rightarrow> ProxyDirection \<Rightarrow> world cmd" where
  [method_defs]: "proxy_onDisconnected a direction w =
     andThen (get_proxy a w) (\<lambda>p.
     andThen
       (case direction of
          Main \<Rightarrow> directed_disconnect (p_out p) w
        | Out \<Rightarrow> directed_disconnect (p_main p) w
        | In \<Rightarrow> Inr w) (\<lambda>w.
     andThen (get_proxy a w) (\<lambda>_. session_onProxyDestroy a w)))"

section \<open>\<open>DirectedProxyConnection\<close> as the user of its connection\<close>

definition directed_onReceive :: "env \<Rightarrow> nat \<Rightarrow> ProxyDirection \<Rightarrow> bytes \<Rightarrow> world cmd" where
  [method_defs]: "directed_onReceive e a direction buf w =
     andThen (get_proxy a w) (\<lambda>_. proxy_onDataReceived e a direction buf w)"

definition directed_onConnected :: "nat \<Rightarrow> ProxyDirection \<Rightarrow> world cmd" where
  [method_defs]: "directed_onConnected a direction w =
     andThen (get_proxy a w) (\<lambda>_. proxy_onConnected a direction w)"

definition directed_onConnectionClosed :: "nat \<Rightarrow> ProxyDirection \<Rightarrow> world cmd" where
  [method_defs]: "directed_onConnectionClosed a direction w =
     andThen (get_proxy a w) (\<lambda>_. proxy_onDisconnected a direction w)"

section \<open>Results\<close>

lemma get_proxy_live [simp]:
  "sessions w a = Some s \<Longrightarrow> s_proxy s = Some p \<Longrightarrow> get_proxy a w = Inr p"
  by (simp add: get_proxy_def)

text \<open>A session with a proxy, and what its two connections do with data and with their end.\<close>

definition proxying :: "world \<Rightarrow> nat \<Rightarrow> session \<Rightarrow> nat \<Rightarrow> bool" where
  "proxying w a s c \<longleftrightarrow> mem_ok w a s \<and> s_outConn s = Some c \<and> s_proxy s \<noteq> None"

lemma proxyingD:
  assumes "proxying w a s c"
  shows "mem_ok w a s" "sessions w a = Some s" "s_outConn s = Some c" "c \<noteq> s_inConn s"
    "s_proxy s = Some \<lparr>p_main = s_inConn s, p_out = c\<rparr>"
    "\<exists>k. socks w (s_inConn s) = Some k \<and> in_sock_ok a s k"
    "\<exists>k. socks w c = Some k \<and> out_sock_ok a s k"
  using assms by (auto simp: proxying_def mem_ok_def out_ok_def)

text \<open>Data goes to the other connection, or is dropped when that buffer cannot grow.\<close>

lemma relay_main:
  assumes "proxying w a s c"
  shows "directed_onReceive e a Main buf w = Inr (if env_add_ok e c buf then queued c buf w else w)"
proof -
  obtain k where "socks w c = Some k"
    using proxyingD(7) [OF assms] by blast
  then show ?thesis
    using proxyingD [OF assms]
    by (simp add: directed_onReceive_def proxy_onDataReceived_def directed_send_def queued_def)
qed

lemma relay_out:
  assumes "proxying w a s c"
  shows "directed_onReceive e a Out buf w =
    Inr (if env_add_ok e (s_inConn s) buf then queued (s_inConn s) buf w else w)"
proof -
  obtain k where "socks w (s_inConn s) = Some k"
    using proxyingD(6) [OF assms] by blast
  then show ?thesis
    using proxyingD [OF assms]
    by (simp add: directed_onReceive_def proxy_onDataReceived_def directed_send_def queued_def)
qed

text \<open>
  Either end closing ends the session. The client's connection is never marked connected, so the
  explicit \<open>disconnect\<close> has an effect on the outgoing one only.
\<close>

definition disconnected :: "nat \<Rightarrow> world \<Rightarrow> world" where
  "disconnected c w =
     (case socks w c of
        None \<Rightarrow> w
      | Some k \<Rightarrow>
          if es_connected k
          then w\<lparr>socks := (socks w)(c \<mapsto> k\<lparr>es_connected := False\<rparr>),
                 calls := calls w @ [XDisable c, XCloseSocket c]\<rparr>
          else w)"

lemma close_is_disconnected: "socks w c = Some k \<Longrightarrow> es_closeConnection c w = Inr (disconnected c w)"
  by (cases "es_connected k") (simp_all add: disconnected_def)

lemma disconnected_unconnected [simp]:
  "socks w c = Some k \<Longrightarrow> \<not> es_connected k \<Longrightarrow> disconnected c w = w"
  by (simp add: disconnected_def)

lemma disconnected_sels [simp]:
  "sessions (disconnected c w) = sessions w" "mng_sessions (disconnected c w) = mng_sessions w"
  "srv_connections (disconnected c w) = srv_connections w"
  "next_sock (disconnected c w) = next_sock w" "next_session (disconnected c w) = next_session w"
  "mng_currentId (disconnected c w) = mng_currentId w" "mng_logins (disconnected c w) = mng_logins w"
  by (simp_all add: disconnected_def split: option.splits)

lemma socks_disconnected:
  "socks (disconnected c w) d =
     (if d = c then map_option (\<lambda>k. k\<lparr>es_connected := False\<rparr>) (socks w c) else socks w d)"
  by (cases "socks w c") (auto simp: disconnected_def)

lemma sock_ok_disconnected [simp]:
  "in_sock_ok a s k \<Longrightarrow> in_sock_ok a s (k\<lparr>es_connected := False\<rparr>)"
  "out_sock_ok a s k \<Longrightarrow> out_sock_ok a s (k\<lparr>es_connected := False\<rparr>)"
  by (simp_all add: in_sock_ok_def out_sock_ok_def)

lemma mem_ok_disconnected [simp]: "mem_ok w a s \<Longrightarrow> mem_ok (disconnected c w) a s"
  by (auto simp: mem_ok_def out_ok_def socks_disconnected split: option.splits)

lemma closed_main:
  assumes "proxying w a s c"
  shows "directed_onConnectionClosed a Main w = Inr (kill a s (disconnected c w))"
proof -
  obtain k where "socks w c = Some k"
    using proxyingD(7) [OF assms] by blast
  then show ?thesis
    using proxyingD [OF assms] destroySelf_kills [OF mem_ok_disconnected [OF proxyingD(1) [OF assms]]]
    by (simp add: directed_onConnectionClosed_def proxy_onDisconnected_def directed_disconnect_def
        close_is_disconnected session_onProxyDestroy_def)
qed

lemma closed_out:
  assumes "proxying w a s c"
  shows "directed_onConnectionClosed a Out w = Inr (kill a s w)"
proof -
  obtain k where "socks w (s_inConn s) = Some k" "\<not> es_connected k"
    using proxyingD(6) [OF assms] by (auto simp: in_sock_ok_def)
  then show ?thesis
    using proxyingD [OF assms] destroySelf_kills [OF proxyingD(1) [OF assms]]
    by (simp add: directed_onConnectionClosed_def proxy_onDisconnected_def directed_disconnect_def
        session_onProxyDestroy_def)
qed

end
