(* ===== verification/EventLoop.thy ===== *)
theory EventLoop
  imports TcpStreamProxy
begin

unbundle bit_operations_syntax

text \<open>
  The callbacks libevent makes: \<open>onRead\<close>, \<open>onWrite\<close> and \<open>onEvent\<close> of
  \<open>src/Event/EventSocketConnected.cpp\<close>, the accept callback of \<open>src/Event/EventTcpServer.cpp\<close>
  with \<open>SessionMng::onNewConnection\<close> of \<open>src/SessionMng.cpp\<close>, and the signal handler. \<open>handle\<close> is one
  callback, \<open>run\<close> a sequence of them.
\<close>

section \<open>The virtual calls of \<open>ISocksConnectionUser\<close>\<close>

fun user_onReceive :: "env \<Rightarrow> user_ref \<Rightarrow> bytes \<Rightarrow> world cmd" where
  "user_onReceive e (UTracker a) buf = tracker_onReceive e a buf"
| "user_onReceive e (USession a) buf = session_onReceive a buf"
| "user_onReceive e (UProxy a dir) buf = directed_onReceive e a dir buf"

fun user_onConnected :: "env \<Rightarrow> user_ref \<Rightarrow> world cmd" where
  "user_onConnected e (UTracker a) = tracker_onConnected a"
| "user_onConnected e (USession a) = session_onConnected e a"
| "user_onConnected e (UProxy a dir) = directed_onConnected a dir"

fun user_onConnectionClosed :: "user_ref \<Rightarrow> world cmd" where
  "user_onConnectionClosed (UTracker a) = tracker_onConnectionClosed a"
| "user_onConnectionClosed (USession a) = session_onConnectionClosed a"
| "user_onConnectionClosed (UProxy a dir) = directed_onConnectionClosed a dir"

section \<open>Callbacks of a connection\<close>

text \<open>
  \<open>input\<close> is the content of the input buffer (\<open>None\<close>: \<open>bufferevent_get_input\<close> returns null)
  and \<open>copied\<close> what \<open>evbuffer_remove\<close> returns.
\<close>

definition es_onRead :: "env \<Rightarrow> nat \<Rightarrow> bytes option \<Rightarrow> nat \<Rightarrow> world cmd" where
  [method_defs]: "es_onRead e c input copied w =
     andThen (get_sock c w) (\<lambda>k.
     case input of
       None \<Rightarrow> Inr w
     | Some buf \<Rightarrow>
         if copied \<noteq> length buf then Inr w
         else case es_user k of None \<Rightarrow> Inr w | Some u \<Rightarrow> user_onReceive e u buf w)"

definition es_onWrite :: "nat \<Rightarrow> world cmd" where
  "es_onWrite c w = andThen (get_sock c w) (\<lambda>_. Inr w)"

abbreviation (input) BEV_EVENT_EOF :: u16 where "BEV_EVENT_EOF \<equiv> 0x10"
abbreviation (input) BEV_EVENT_ERROR :: u16 where "BEV_EVENT_ERROR \<equiv> 0x20"
abbreviation (input) BEV_EVENT_CONNECTED :: u16 where "BEV_EVENT_CONNECTED \<equiv> 0x80"

text \<open>The two branches for the end of a connection are the same; \<open>_user\<close> is read after the close.\<close>

definition es_closed :: "nat \<Rightarrow> world cmd" where
  [method_defs]: "es_closed c =
     seqs [es_closeConnection c,
           \<lambda>w. andThen (get_sock c w) (\<lambda>k.
             case es_user k of None \<Rightarrow> Inr w | Some u \<Rightarrow> user_onConnectionClosed u w)]"

definition es_established :: "env \<Rightarrow> nat \<Rightarrow> world cmd" where
  [method_defs]: "es_established e c =
     seqs [es_updateLocalAddress e c, es_updateRemoteAddress e c,
           upd_sock c (\<lambda>k. k\<lparr>es_connected := True\<rparr>),
           \<lambda>w. andThen (get_sock c w) (\<lambda>k.
             case es_user k of None \<Rightarrow> Inr w | Some u \<Rightarrow> user_onConnected e u w)]"

definition es_onEvent :: "env \<Rightarrow> nat \<Rightarrow> u16 \<Rightarrow> world cmd" where
  [method_defs]: "es_onEvent e c events w =
     andThen (get_sock c w) (\<lambda>_.
     seqs [whenC (events AND BEV_EVENT_EOF \<noteq> 0) (es_closed c),
           whenC (events AND BEV_EVENT_ERROR \<noteq> 0) (es_closed c),
           whenC (events AND BEV_EVENT_CONNECTED \<noteq> 0) (es_established e c)] w)"

section \<open>Accepting\<close>

text \<open>
  The constructors of \<open>Session\<close> and \<open>InConnTracker\<close>: both keep a pointer to the connection,
  whose user becomes the tracker.
\<close>

definition session_new :: "u32 \<Rightarrow> nat \<Rightarrow> world \<Rightarrow> (nat \<times> world) res" where
  [method_defs]: "session_new i c w =
     (let a = next_session w in
      andThen (ptr_copy c w) (\<lambda>w.
      andThen (tracker_new a c w) (\<lambda>w.
      Inr (a, w\<lparr>sessions := (sessions w)(a \<mapsto> \<lparr>s_id = i, s_inConn = c, s_outConn = None,
             s_trackerConn = c, s_machine = WaitForGreeting, s_proxy = None\<rparr>),
           next_session := a + 1\<rparr>))))"

text \<open>\<open>_sessions[id] = std::move(newSess)\<close> deletes the session that had the identifier.\<close>

definition mng_onNewConnection :: "nat \<Rightarrow> world cmd" where
  [method_defs]: "mng_onNewConnection c w =
     (let i = mng_currentId w in
      andThen (session_new i c (w\<lparr>mng_currentId := i + 1\<rparr>)) (\<lambda>(a, w).
      case mng_sessions w i of
        None \<Rightarrow> Inr (w\<lparr>mng_sessions := (mng_sessions w)(i \<mapsto> a)\<rparr>)
      | Some old \<Rightarrow> session_delete old (w\<lparr>mng_sessions := (mng_sessions w)(i \<mapsto> a)\<rparr>)))"

definition srv_onAcceptConnection :: "env \<Rightarrow> world cmd" where
  [method_defs]: "srv_onAcceptConnection e w =
     andThen (es_fromFd e w) (\<lambda>(c, w). seqs [mng_onNewConnection c, ptr_drop c] w)"

section \<open>Signals\<close>

definition srv_stop :: "world cmd" where
  [method_defs]: "srv_stop = emit XLoopBreak"

abbreviation (input) SIGINT :: int where "SIGINT \<equiv> 2"

definition mng_onSignalOccured :: "int \<Rightarrow> world cmd" where
  [method_defs]: "mng_onSignalOccured signum w = (if signum = SIGINT then srv_stop w else Inr w)"

section \<open>One callback, and runs\<close>

datatype event =
    Accepted
  | Readable nat "bytes option" nat
  | Writable nat
  | SockEvent nat u16
  | SignalRaised int

fun handle :: "env \<Rightarrow> event \<Rightarrow> world cmd" where
  "handle e Accepted = srv_onAcceptConnection e"
| "handle e (Readable c input copied) = es_onRead e c input copied"
| "handle e (Writable c) = es_onWrite c"
| "handle e (SockEvent c events) = es_onEvent e c events"
| "handle e (SignalRaised n) = mng_onSignalOccured n"

fun run :: "(env \<times> event) list \<Rightarrow> world cmd" where
  "run [] w = Inr w"
| "run ((e, ev) # evs) w = andThen (handle e ev w) (run evs)"

definition newServer :: "logins \<Rightarrow> world" where
  "newServer m =
     \<lparr>socks = Map.empty, next_sock = 0, sessions = Map.empty, next_session = 0,
      mng_sessions = Map.empty, mng_currentId = 0, mng_logins = m,
      srv_connections = Map.empty, calls = []\<rparr>"

end
