(* ===== verification/Server.thy ===== *)
theory Server
  imports EventLoop
begin

text \<open>
  The server as a whole. \<open>world_ok\<close> is the invariant of the heap between two callbacks, \<open>move\<close> the
  specification of what a callback may do: each move concerns one session, and changes its state
  only on the input that the protocol asks for. The handlers of the code are shown to be
  sequences of moves, and the moves to keep the invariant.
\<close>

section \<open>The invariant\<close>

text \<open>The states a session can be in between two callbacks, with the objects it has there.\<close>

definition session_phase :: "session \<Rightarrow> bool" where
  "session_phase s \<longleftrightarrow>
     (case s_machine s of
        WaitForGreeting \<Rightarrow> s_outConn s = None
      | WaitForPassAuth \<Rightarrow> s_outConn s = None
      | WaitForCommand \<Rightarrow> s_outConn s = None
      | WaitForProxyStart \<Rightarrow> s_outConn s \<noteq> None \<and> s_proxy s = None
      | ProxyStarted \<Rightarrow> s_proxy s \<noteq> None
      | _ \<Rightarrow> False)"

definition owns :: "session \<Rightarrow> nat \<Rightarrow> bool" where
  "owns s c \<longleftrightarrow> c = s_inConn s \<or> s_outConn s = Some c"

definition sessions_ok :: "world \<Rightarrow> bool" where
  "sessions_ok w \<longleftrightarrow> (\<forall>a s. sessions w a = Some s \<longrightarrow> mem_ok w a s \<and> session_phase s)"

definition table_ok :: "world \<Rightarrow> bool" where
  "table_ok w \<longleftrightarrow> (\<forall>i a. mng_sessions w i = Some a \<longrightarrow> (\<exists>s. sessions w a = Some s \<and> s_id s = i))"

text \<open>No connection outlives its session.\<close>

definition socks_owned :: "world \<Rightarrow> bool" where
  "socks_owned w \<longleftrightarrow> (\<forall>c k. socks w c = Some k \<longrightarrow> (\<exists>a s. sessions w a = Some s \<and> owns s c))"

definition fresh_ok :: "world \<Rightarrow> bool" where
  "fresh_ok w \<longleftrightarrow> (\<forall>c. next_sock w \<le> c \<longrightarrow> socks w c = None) \<and>
     (\<forall>a. next_session w \<le> a \<longrightarrow> sessions w a = None \<and> srv_connections w a = None)"

text \<open>\<open>connect\<close> has been called on outgoing connections only.\<close>

definition connects_ok :: "world \<Rightarrow> bool" where
  "connects_ok w \<longleftrightarrow> (\<forall>c sa. XConnect c sa \<in> set (calls w) \<longrightarrow> c < next_sock w) \<and>
     (\<forall>a s sa. sessions w a = Some s \<longrightarrow> XConnect (s_inConn s) sa \<notin> set (calls w))"

definition world_ok :: "world \<Rightarrow> bool" where
  "world_ok w \<longleftrightarrow> sessions_ok w \<and> table_ok w \<and> socks_owned w \<and> fresh_ok w \<and> connects_ok w"

lemma world_okD:
  assumes "world_ok w"
  shows "sessions w a = Some s \<Longrightarrow> mem_ok w a s" "sessions w a = Some s \<Longrightarrow> session_phase s"
    "mng_sessions w i = Some a \<Longrightarrow> \<exists>s. sessions w a = Some s \<and> s_id s = i"
    "socks w c = Some k \<Longrightarrow> \<exists>a s. sessions w a = Some s \<and> owns s c"
    "next_sock w \<le> c \<Longrightarrow> socks w c = None"
    "next_session w \<le> a \<Longrightarrow> sessions w a = None" "next_session w \<le> a \<Longrightarrow> srv_connections w a = None"
    "XConnect c sa \<in> set (calls w) \<Longrightarrow> c < next_sock w"
    "sessions w a = Some s \<Longrightarrow> XConnect (s_inConn s) sa \<notin> set (calls w)"
  using assms
  unfolding world_ok_def sessions_ok_def table_ok_def socks_owned_def fresh_ok_def connects_ok_def
  by blast+

text \<open>Two sessions never share a connection: a connection reports to one of them.\<close>

lemma owned_sock:
  assumes "mem_ok w a s" and "owns s c"
  shows "\<exists>k. socks w c = Some k \<and>
    (case es_user k of Some (UTracker b) \<Rightarrow> b = a | Some (USession b) \<Rightarrow> b = a
                     | Some (UProxy b d) \<Rightarrow> b = a | None \<Rightarrow> False)"
  using assms
  by (auto simp: mem_ok_def out_ok_def owns_def in_sock_ok_def out_sock_ok_def split: option.splits)

lemma owner_unique:
  assumes "mem_ok w a s" "owns s c" "mem_ok w b t" "owns t c"
  shows "a = b"
  using owned_sock [OF assms(1,2)] owned_sock [OF assms(3,4)]
  by (auto split: option.splits user_ref.splits)

lemma owned_below_next:
  assumes "world_ok w" "sessions w a = Some s" "owns s c"
  shows "c < next_sock w"
  using owned_sock [OF world_okD(1) [OF assms(1,2)] assms(3)] world_okD(5) [OF assms(1), of c]
  by (force simp: not_less)

section \<open>What leaves the invariant intact\<close>

text \<open>
  A change to one session \<open>a\<close>: the others keep their records, their connections and their table
  entries. It is enough to look at \<open>a\<close> itself.
\<close>

definition others_kept :: "nat \<Rightarrow> world \<Rightarrow> world \<Rightarrow> bool" where
  "others_kept a w w' \<longleftrightarrow>
     (\<forall>b t. b \<noteq> a \<and> sessions w b = Some t \<longrightarrow>
        sessions w' b = Some t \<and> srv_connections w' b = srv_connections w b \<and>
        mng_sessions w' (s_id t) = mng_sessions w (s_id t) \<and>
        (\<forall>c. owns t c \<longrightarrow> socks w' c = socks w c)) \<and>
     (\<forall>b. b \<noteq> a \<and> sessions w b = None \<longrightarrow> sessions w' b = None)"

lemma others_mem_ok:
  assumes "others_kept a w w'" "b \<noteq> a" "sessions w b = Some t" "mem_ok w b t"
  shows "mem_ok w' b t"
  using assms by (fastforce simp: others_kept_def mem_ok_def out_ok_def owns_def split: option.splits)

lemma others_keptD:
  assumes "others_kept a w w'" "b \<noteq> a"
  shows "sessions w' b = sessions w b"
  using assms by (cases "sessions w b") (auto simp: others_kept_def)

lemma others_kept_refl [simp]: "others_kept a w w"
  by (simp add: others_kept_def)

lemma others_kept_trans:
  assumes "others_kept a w w'" "others_kept a w' w''"
  shows "others_kept a w w''"
  using assms by (fastforce simp: others_kept_def)

lemma world_okI:
  assumes ok: "world_ok w" and kept: "others_kept a w w'"
    and self: "\<And>s. sessions w' a = Some s \<Longrightarrow> mem_ok w' a s \<and> session_phase s"
    and table: "\<And>i b. mng_sessions w' i = Some b \<Longrightarrow> \<exists>s. sessions w' b = Some s \<and> s_id s = i"
    and owned: "\<And>c k. socks w' c = Some k \<Longrightarrow> \<exists>a s. sessions w' a = Some s \<and> owns s c"
    and fresh: "fresh_ok w'" and conn: "connects_ok w'"
  shows "world_ok w'"
proof -
  have "mem_ok w' b t \<and> session_phase t" if "sessions w' b = Some t" for b t
  proof (cases "b = a")
    case True
    with self that show ?thesis by blast
  next
    case False
    with that kept have "sessions w b = Some t"
      by (simp add: others_keptD)
    with False world_okD(1,2) [OF ok] others_mem_ok [OF kept False] show ?thesis by blast
  qed
  then show ?thesis
    using table owned fresh conn
    by (auto simp: world_ok_def sessions_ok_def table_ok_def socks_owned_def)
qed

text \<open>Changes inside one session that create and destroy nothing.\<close>

definition inner_change :: "nat \<Rightarrow> session \<Rightarrow> session \<Rightarrow> world \<Rightarrow> world \<Rightarrow> bool" where
  "inner_change a s s' w w' \<longleftrightarrow>
     sessions w' = (sessions w)(a \<mapsto> s') \<and>
     s_id s' = s_id s \<and> s_inConn s' = s_inConn s \<and> s_outConn s' = s_outConn s \<and>
     mng_sessions w' = mng_sessions w \<and> srv_connections w' = srv_connections w \<and>
     next_sock w' = next_sock w \<and> next_session w' = next_session w \<and>
     dom (socks w') = dom (socks w) \<and> (\<forall>c. \<not> owns s c \<longrightarrow> socks w' c = socks w c) \<and>
     (\<forall>c sa. XConnect c sa \<in> set (calls w') \<longrightarrow> XConnect c sa \<in> set (calls w))"

lemma inner_change_others:
  assumes ok: "world_ok w" and s: "sessions w a = Some s" and ch: "inner_change a s s' w w'"
  shows "others_kept a w w'"
proof -
  have "\<not> owns s c" if "b \<noteq> a" "sessions w b = Some t" "owns t c" for b t c
    using owner_unique [of w a s c b t] world_okD(1) [OF ok] s that by blast
  then show ?thesis
    using ch by (auto simp: others_kept_def inner_change_def)
qed

lemma inner_change_ok:
  assumes ok: "world_ok w" and s: "sessions w a = Some s" and ch: "inner_change a s s' w w'"
    and self: "mem_ok w' a s'" "session_phase s'"
  shows "world_ok w'"
proof (rule world_okI [OF ok inner_change_others [OF ok s ch]])
  note ch = ch [unfolded inner_change_def]
  show "mem_ok w' a t \<and> session_phase t" if "sessions w' a = Some t" for t
    using that ch self by simp
  show "\<exists>t. sessions w' b = Some t \<and> s_id t = i" if "mng_sessions w' i = Some b" for i b
    using that ch s world_okD(3) [OF ok, of i b] by (cases "b = a") auto
  show "\<exists>a s. sessions w' a = Some s \<and> owns s c" if "socks w' c = Some k" for c k
  proof -
    from that ch have "c \<in> dom (socks w)" by blast
    then obtain b t where "sessions w b = Some t" "owns t c"
      using world_okD(4) [OF ok] by blast
    with ch s show ?thesis
      by (cases "b = a") (auto simp: owns_def)
  qed
  show "fresh_ok w'"
    unfolding fresh_ok_def
    using ch world_okD(5-7) [OF ok] s by (metis domIff fun_upd_other option.distinct(1))
  show "connects_ok w'"
    using ch s world_okD(8,9) [OF ok] by (fastforce simp: connects_ok_def)
qed

section \<open>Moves\<close>

text \<open>
  What a callback on a connection of session \<open>a\<close> may do. \<open>offer\<close>, \<open>login\<close> and \<open>start\<close> are the
  three steps of the handshake and name the input they need; \<open>relay\<close> ends it.
\<close>

inductive move :: "env \<Rightarrow> event \<Rightarrow> nat \<Rightarrow> world \<Rightarrow> world \<Rightarrow> bool" for e ev a where
  queue: "sessions w a = Some s \<Longrightarrow> owns s c \<Longrightarrow> move e ev a w (queued c buf w)"
| close: "sessions w a = Some s \<Longrightarrow> s_outConn s = Some c \<Longrightarrow> move e ev a w (disconnected c w)"
| update: "sessions w a = Some s \<Longrightarrow> s_outConn s = Some c \<Longrightarrow> socks w c = Some k \<Longrightarrow>
     move e ev a w (w\<lparr>socks := (socks w)(c \<mapsto> k\<lparr>es_local := l, es_remote := r, es_connected := True\<rparr>)\<rparr>)"
| offer: "sessions w a = Some s \<Longrightarrow> s_machine s = WaitForGreeting \<Longrightarrow>
     ev = Readable (s_inConn s) (Some buf) (length buf) \<Longrightarrow>
     decodeGreeting buf newGreetingMsg = Inr (True, m) \<Longrightarrow> AuthLoginPass \<in> set (gm_authMethods m) \<Longrightarrow>
     move e ev a w (with_machine WaitForPassAuth a s w)"
| login: "sessions w a = Some s \<Longrightarrow> s_machine s = WaitForPassAuth \<Longrightarrow>
     ev = Readable (s_inConn s) (Some buf) (length buf) \<Longrightarrow>
     decodeUserPass buf newUserPassAuthMsg = Inr (True, m) \<Longrightarrow>
     authUserPassword (mng_logins w) (up_user m) (up_password m) \<Longrightarrow>
     move e ev a w (with_machine WaitForCommand a s w)"
| start: "sessions w a = Some s \<Longrightarrow> s_machine s = WaitForCommand \<Longrightarrow>
     ev = Readable (s_inConn s) (Some buf) (length buf) \<Longrightarrow>
     decodeCommand (env_order e) buf newCommandMsg = Inr (True, m) \<Longrightarrow> cm_command m = TCPStream \<Longrightarrow>
     convertAddrToStorage (env_order e) (command_address m) = Inr (Some sa) \<Longrightarrow>
     move e ev a w (connecting a (s\<lparr>s_machine := WaitForProxyStart\<rparr>) (command_address m) sa
       (with_machine WaitForProxyStart a s w))"
| relay: "sessions w a = Some s \<Longrightarrow> s_machine s = WaitForProxyStart \<Longrightarrow> s_outConn s = Some c \<Longrightarrow>
     socks w (s_inConn s) = Some k \<Longrightarrow> socks w c = Some m \<Longrightarrow>
     move e ev a w (proxied a s c k m w)"
| finish: "sessions w a = Some s \<Longrightarrow> move e ev a w (kill a s w)"

inductive_cases moveE: "move e ev a w w'"

lemma socks_kill: "socks (kill a s w) c = (if owns s c then None else socks w c)"
  by (auto simp: kill_def owns_def split: option.splits)

lemma kill_sels [simp]:
  "sessions (kill a s w) = (sessions w)(a := None)"
  "mng_sessions (kill a s w) = (mng_sessions w)(s_id s := None)"
  "next_sock (kill a s w) = next_sock w" "next_session (kill a s w) = next_session w"
  "mng_currentId (kill a s w) = mng_currentId w" "mng_logins (kill a s w) = mng_logins w"
  "b \<noteq> a \<Longrightarrow> srv_connections (kill a s w) b = srv_connections w b"
  by (simp_all add: kill_def split: option.splits)

lemma others_kept_kill:
  assumes ok: "world_ok w" and s: "sessions w a = Some s"
  shows "others_kept a w (kill a s w)"
proof -
  have "s_id t \<noteq> s_id s \<and> (owns t c \<longrightarrow> \<not> owns s c)" if "b \<noteq> a" "sessions w b = Some t" for b t c
    using owner_unique [of w a s c b t] mem_okD(2) [OF world_okD(1) [OF ok]] world_okD(1) [OF ok] s that
    by (metis option.inject)
  then show ?thesis
    by (auto simp: others_kept_def socks_kill)
qed

lemma kill_ok:
  assumes ok: "world_ok w" and s: "sessions w a = Some s"
  shows "world_ok (kill a s w)"
proof (rule world_okI [OF ok others_kept_kill [OF ok s]])
  show "mem_ok (kill a s w) a t \<and> session_phase t" if "sessions (kill a s w) a = Some t" for t
    using that by simp
  show "\<exists>t. sessions (kill a s w) b = Some t \<and> s_id t = i"
    if "mng_sessions (kill a s w) i = Some b" for i b
    using that world_okD(3) [OF ok, of i b] s by (auto simp: kill_def split: if_splits)
  show "\<exists>a' s'. sessions (kill a s w) a' = Some s' \<and> owns s' c" if k: "socks (kill a s w) c = Some k" for c k
  proof -
    have "\<not> owns s c" and "socks w c = Some k"
      using k by (auto simp: socks_kill split: if_splits)
    then obtain b t where "sessions w b = Some t" "owns t c"
      using world_okD(4) [OF ok] by blast
    with \<open>\<not> owns s c\<close> s show ?thesis
      by (intro exI [of _ b] exI [of _ t]) (auto simp: kill_def)
  qed
  show "fresh_ok (kill a s w)"
    using world_okD(5-7) [OF ok] s
    by (auto simp: fresh_ok_def kill_def split: option.splits)
  show "connects_ok (kill a s w)"
    using world_okD(8,9) [OF ok]
    by (auto simp: connects_ok_def kill_def kill_calls_def split: option.splits if_splits)
qed

lemma connecting_ok:
  assumes ok: "world_ok w" and s: "sessions w a = Some s" and st: "s_machine s = WaitForCommand"
    and w': "w' = connecting a (s\<lparr>s_machine := WaitForProxyStart\<rparr>) addr sa (with_machine WaitForProxyStart a s w)"
  shows "world_ok w' \<and> others_kept a w w'"
proof -
  let ?c = "next_sock w" and ?s = "s\<lparr>s_machine := WaitForProxyStart, s_outConn := Some (next_sock w)\<rparr>"
  have out: "s_outConn s = None" "s_proxy s = None"
    using world_okD(1,2) [OF ok s] st by (auto simp: session_phase_def mem_ok_def out_ok_def)
  have sess: "sessions w' = (sessions w)(a \<mapsto> ?s)"
    and sel: "mng_sessions w' = mng_sessions w" "next_session w' = next_session w" "next_sock w' = ?c + 1"
      "srv_connections w' = (srv_connections w)(a \<mapsto> Some ?c)"
      "calls w' = calls w @ [XNewBev ?c, XConnect ?c sa]"
    and socks: "socks w' = (socks w)(?c \<mapsto> \<lparr>es_user = Some (USession a), es_remote = addr,
           es_local = emptyAddress, es_connected = False, es_refs = 2\<rparr>)"
    by (simp_all add: w' connecting_def Let_def)
  have below: "c < ?c" if "sessions w b = Some t" "owns t c" for b t c
    using owned_below_next [OF ok that] .
  have inC: "s_inConn s < ?c"
    using below [OF s] by (simp add: owns_def)
  have inN: "s_inConn t \<noteq> ?c" if "sessions w b = Some t" for b t
    using below [OF that, of "s_inConn t"] by (auto simp: owns_def)
  have kept: "others_kept a w w'"
    using below by (auto simp: others_kept_def sess sel socks)
  have "world_ok w'"
  proof (rule world_okI [OF ok kept])
    have "mem_ok w' a ?s"
      using world_okD(1) [OF ok s] inC out
      by (auto simp: mem_ok_def out_ok_def in_sock_ok_def out_sock_ok_def proxy_refs_def sess sel socks)
    then show "mem_ok w' a t \<and> session_phase t" if "sessions w' a = Some t" for t
      using that out by (auto simp: sess session_phase_def)
    show "\<exists>t. sessions w' b = Some t \<and> s_id t = i" if "mng_sessions w' i = Some b" for i b
      using that world_okD(3) [OF ok, of i b] s by (cases "b = a") (auto simp: sess sel)
    show "\<exists>b t. sessions w' b = Some t \<and> owns t c" if k: "socks w' c = Some k" for c k
    proof (cases "c = ?c")
      case True
      then show ?thesis by (auto simp: sess owns_def)
    next
      case False
      with k obtain b t where "sessions w b = Some t" "owns t c"
        using world_okD(4) [OF ok, of c k] by (auto simp: socks)
      with s out show ?thesis
        by (cases "b = a") (auto simp: sess owns_def)
    qed
    show "fresh_ok w'"
      using world_okD(5-7) [OF ok] s by (auto simp: fresh_ok_def sess sel socks)
    show "connects_ok w'"
      using world_okD(8,9) [OF ok] s
      by (auto simp: connects_ok_def sess sel less_Suc_eq inN)
  qed
  with kept show ?thesis by blast
qed

text \<open>Every move keeps the invariant and leaves the other sessions alone.\<close>

lemma inner_change_move:
  assumes "world_ok w" "sessions w a = Some s" "inner_change a s s' w w'"
    and "mem_ok w' a s'" "session_phase s'"
  shows "world_ok w' \<and> others_kept a w w'"
  using inner_change_ok [OF assms] inner_change_others [OF assms(1-3)] by blast

lemma update_mem_ok:
  assumes "mem_ok w a s" "s_outConn s = Some c" "socks w c = Some k"
  shows "mem_ok (w\<lparr>socks := (socks w)(c \<mapsto> k\<lparr>es_local := l, es_remote := r, es_connected := True\<rparr>)\<rparr>) a s"
  using assms by (auto simp: mem_ok_def out_ok_def out_sock_ok_def)

lemma proxied_mem_ok:
  assumes "mem_ok w a s" "s_outConn s = Some c" "s_proxy s = None"
    and "socks w (s_inConn s) = Some k" "socks w c = Some m"
  shows "mem_ok (proxied a s c k m w) a
    (s\<lparr>s_machine := ProxyStarted, s_proxy := Some \<lparr>p_main = s_inConn s, p_out = c\<rparr>\<rparr>)"
  using assms
  by (auto simp: mem_ok_def out_ok_def in_sock_ok_def out_sock_ok_def proxied_def proxy_refs_def)

lemma move_ok:
  assumes ok: "world_ok w" and "move e ev a w w'"
  shows "world_ok w' \<and> others_kept a w w'"
  using assms(2)
proof cases
  case (queue s c buf)
  show ?thesis
    using queue world_okD(1,2) [OF ok]
    by (intro inner_change_move [OF ok queue(2)]) (auto simp: inner_change_def)
next
  case (close s c)
  have "dom (socks (disconnected c w)) = dom (socks w)"
    by (auto simp: socks_disconnected split: if_splits)
  moreover have "XConnect d sa \<in> set (calls (disconnected c w)) \<Longrightarrow> XConnect d sa \<in> set (calls w)" for d sa
    by (auto simp: disconnected_def split: option.splits if_splits)
  ultimately have "inner_change a s s w (disconnected c w)"
    using close by (auto simp: inner_change_def socks_disconnected owns_def)
  then show ?thesis
    using close world_okD(1,2) [OF ok] inner_change_move [OF ok close(2)] by simp
next
  case (update s c k l r)
  show ?thesis
    using update world_okD(1,2) [OF ok] update_mem_ok
    by (intro inner_change_move [OF ok update(2)]) (auto simp: inner_change_def owns_def)
next
  case (offer s buf m)
  show ?thesis
    using offer world_okD(1,2) [OF ok offer(2)]
    by (intro inner_change_move [OF ok offer(2)]) (auto simp: inner_change_def session_phase_def)
next
  case (login s buf m)
  show ?thesis
    using login world_okD(1,2) [OF ok login(2)]
    by (intro inner_change_move [OF ok login(2)]) (auto simp: inner_change_def session_phase_def)
next
  case (start s buf m sa)
  then show ?thesis
    using connecting_ok [OF ok] by blast
next
  case (relay s c k m)
  then have np: "s_proxy s = None"
    using world_okD(2) [OF ok relay(2)] by (auto simp: session_phase_def)
  let ?s = "s\<lparr>s_machine := ProxyStarted, s_proxy := Some \<lparr>p_main = s_inConn s, p_out = c\<rparr>\<rparr>"
  have "inner_change a s ?s w (proxied a s c k m w)"
    using relay by (auto simp: inner_change_def proxied_def owns_def)
  moreover have "session_phase ?s"
    by (simp add: session_phase_def)
  ultimately show ?thesis
    using relay proxied_mem_ok [OF world_okD(1) [OF ok] _ np] inner_change_move [OF ok] by metis
next
  case (finish s)
  then show ?thesis
    using kill_ok [OF ok] others_kept_kill [OF ok] by blast
qed

lemma moves_ok:
  assumes "(move e ev a)\<^sup>*\<^sup>* w w'" and "world_ok w"
  shows "world_ok w' \<and> others_kept a w w'"
  using assms
proof (induction rule: rtranclp_induct)
  case base
  then show ?case by simp
next
  case (step y z)
  then show ?case
    using move_ok others_kept_trans by blast
qed

section \<open>The handlers are moves\<close>

text \<open>Whose connection a callback is on, and which object it reports to.\<close>

lemma sock_cases:
  assumes ok: "world_ok w" and k: "socks w c = Some k"
  obtains
    (inside) a s where "sessions w a = Some s" "c = s_inConn s" "s_proxy s = None"
      "es_user k = Some (UTracker a)" "\<not> es_connected k"
  | (main) a s d where "proxying w a s d" "c = s_inConn s" "es_user k = Some (UProxy a Main)"
      "\<not> es_connected k"
  | (pending) a s where "sessions w a = Some s" "s_outConn s = Some c" "s_proxy s = None"
      "s_machine s = WaitForProxyStart" "es_user k = Some (USession a)"
  | (out) a s where "proxying w a s c" "es_user k = Some (UProxy a Out)"
proof -
  obtain a s where s: "sessions w a = Some s" "owns s c"
    using world_okD(4) [OF ok k] by blast
  have mem: "mem_ok w a s" and phase: "session_phase s"
    using world_okD(1,2) [OF ok s(1)] by blast+
  show ?thesis
  proof (cases "c = s_inConn s")
    case True
    then have i: "in_sock_ok a s k"
      using mem k by (auto simp: mem_ok_def)
    show ?thesis
    proof (cases "s_proxy s")
      case None
      with True i s inside show ?thesis by (simp add: in_sock_ok_def)
    next
      case (Some p)
      then obtain d where "s_outConn s = Some d"
        using mem by (auto simp: mem_ok_def out_ok_def split: option.splits)
      with Some True i mem main [of a s d] show ?thesis by (simp add: in_sock_ok_def proxying_def)
    qed
  next
    case False
    then have c: "s_outConn s = Some c"
      using s(2) by (simp add: owns_def)
    then have o: "out_sock_ok a s k"
      using mem k by (auto simp: mem_ok_def out_ok_def)
    show ?thesis
    proof (cases "s_proxy s")
      case None
      with c phase have "s_machine s = WaitForProxyStart"
        by (auto simp: session_phase_def split: sm_state.splits)
      with None c o s pending show ?thesis by (simp add: out_sock_ok_def)
    next
      case (Some p)
      with c o mem out [of a s] show ?thesis by (simp add: out_sock_ok_def proxying_def)
    qed
  qed
qed

definition moves_to :: "env \<Rightarrow> event \<Rightarrow> nat \<Rightarrow> world \<Rightarrow> world res \<Rightarrow> bool" where
  "moves_to e ev c w r \<longleftrightarrow> (\<forall>w'. r = Inr w' \<longrightarrow>
     (\<exists>a s. sessions w a = Some s \<and> owns s c \<and> (move e ev a)\<^sup>*\<^sup>* w w'))"

lemma moves_toI:
  "sessions w a = Some s \<Longrightarrow> owns s c \<Longrightarrow> (\<And>w'. r = Inr w' \<Longrightarrow> (move e ev a)\<^sup>*\<^sup>* w w') \<Longrightarrow> moves_to e ev c w r"
  by (auto simp: moves_to_def)

lemma queue_then:
  assumes "sessions w a = Some s" "owns s c" "(move e ev a)\<^sup>*\<^sup>* (queued c buf w) w'"
  shows "(move e ev a)\<^sup>*\<^sup>* w w'"
  using move.queue [OF assms(1,2)] assms(3) by (rule converse_rtranclp_into_rtranclp)

lemma finish_moves:
  assumes "sessions w a = Some s"
  shows "(move e ev a)\<^sup>*\<^sup>* w (kill a s w)"
  using assms by (blast intro: move.finish)

lemma queue_finish_moves:
  assumes "sessions w a = Some s" "owns s c"
  shows "(move e ev a)\<^sup>*\<^sup>* w (kill a s (queued c buf w))"
  by (rule queue_then [OF assms finish_moves]) (simp add: assms)

lemma queue_offer_moves:
  assumes s: "sessions w a = Some s" and st: "s_machine s = WaitForGreeting"
    and dec: "decodeGreeting buf newGreetingMsg = Inr (True, m)" and m: "AuthLoginPass \<in> set (gm_authMethods m)"
  shows "(move e (Readable (s_inConn s) (Some buf) (length buf)) a)\<^sup>*\<^sup>* w
    (with_machine WaitForPassAuth a s (queued (s_inConn s) reply w))"
proof (rule queue_then [OF s])
  show "owns s (s_inConn s)" by (simp add: owns_def)
  have "sessions (queued (s_inConn s) reply w) a = Some s" using s by simp
  from move.offer [OF this st refl dec] m
  show "(move e (Readable (s_inConn s) (Some buf) (length buf)) a)\<^sup>*\<^sup>* (queued (s_inConn s) reply w)
      (with_machine WaitForPassAuth a s (queued (s_inConn s) reply w))"
    by (intro r_into_rtranclp) simp
qed

lemma queue_login_moves:
  assumes s: "sessions w a = Some s" and st: "s_machine s = WaitForPassAuth"
    and dec: "decodeUserPass buf newUserPassAuthMsg = Inr (True, m)" and m: "authUserPassword (mng_logins w) (up_user m) (up_password m)"
  shows "(move e (Readable (s_inConn s) (Some buf) (length buf)) a)\<^sup>*\<^sup>* w
    (with_machine WaitForCommand a s (queued (s_inConn s) reply w))"
proof (rule queue_then [OF s])
  show "owns s (s_inConn s)" by (simp add: owns_def)
  have "sessions (queued (s_inConn s) reply w) a = Some s" using s by simp
  from move.login [OF this st refl dec] m
  show "(move e (Readable (s_inConn s) (Some buf) (length buf)) a)\<^sup>*\<^sup>* (queued (s_inConn s) reply w)
      (with_machine WaitForCommand a s (queued (s_inConn s) reply w))"
    by (intro r_into_rtranclp) simp
qed

lemma start_moves:
  assumes "sessions w a = Some s" "s_machine s = WaitForCommand"
    and "decodeCommand (env_order e) buf newCommandMsg = Inr (True, m)" "cm_command m = TCPStream"
    and "convertAddrToStorage (env_order e) (command_address m) = Inr (Some sa)"
  shows "(move e (Readable (s_inConn s) (Some buf) (length buf)) a)\<^sup>*\<^sup>* w
    (connecting a (s\<lparr>s_machine := WaitForProxyStart\<rparr>) (command_address m) sa
       (with_machine WaitForProxyStart a s w))"
  using move.start [OF assms(1,2) refl assms(3-5)] by (rule r_into_rtranclp)

lemma accepted_cases:
  assumes "(case accepted r of None \<Rightarrow> f | Some m \<Rightarrow> g m) = Inr w'"
  obtains "f = Inr w'" | m where "r = Inr (True, m)" "g m = Inr w'"
  using assms by (cases "accepted r") (auto simp: accepted_eq_Some)

text \<open>Messages of the client, in each state of the handshake.\<close>

lemma receive_moves:
  assumes ok: "world_ok w" and s: "sessions w a = Some s"
    and r: "tracker_onReceive e a buf w = Inr w'"
    and ev: "ev = Readable (s_inConn s) (Some buf) (length buf)"
  shows "(move e ev a)\<^sup>*\<^sup>* w w'"
proof -
  have mem: "mem_ok w a s" and phase: "session_phase s"
    using world_okD(1,2) [OF ok s] by blast+
  have own: "owns s (s_inConn s)" by (simp add: owns_def)
  consider "s_machine s = WaitForGreeting" | "s_machine s = WaitForPassAuth"
    | "s_machine s = WaitForCommand" "s_outConn s = None"
    | "s_machine s \<notin> {WaitForGreeting, WaitForPassAuth, WaitForCommand}"
    using phase by (cases "s_machine s") (auto simp: session_phase_def)
  then show ?thesis
  proof cases
    case 1
    from r show ?thesis
      unfolding receive_greeting [OF mem 1] Let_def
      by (rule accepted_cases)
        (use s own 1 ev in \<open>auto split: if_splits
           intro: finish_moves queue_finish_moves queue_offer_moves\<close>)
  next
    case 2
    from r show ?thesis
      unfolding receive_passAuth [OF mem 2] Let_def
      by (rule accepted_cases)
        (use s own 2 ev in \<open>auto split: if_splits
           intro: finish_moves queue_finish_moves queue_login_moves\<close>)
  next
    case 3
    have fresh: "socks w (next_sock w) = None"
      using world_okD(5) [OF ok] by simp
    from r show ?thesis
      unfolding receive_command [OF mem 3 fresh]
      by (rule accepted_cases)
        (use s 3 ev in \<open>auto split: if_splits sum.splits option.splits
           intro: finish_moves start_moves\<close>)
  next
    case 4
    then show ?thesis
      using r receive_unexpected [OF mem 4] finish_moves [OF s] by simp
  qed
qed

end
