(* ===== verification/Callbacks.thy ===== *)
theory Callbacks
  imports Server
begin

text \<open>
  The callbacks of theory \<open>EventLoop\<close> in a world that satisfies the invariant: what each of them
  does, as a sequence of the moves of theory \<open>Server\<close>, and accepting a connection.
\<close>

section \<open>The end of a connection\<close>

lemma proxying_disconnected [simp]: "proxying w a s c \<Longrightarrow> proxying (disconnected d w) a s c"
  by (simp add: proxying_def)

lemma disconnected_twice [simp]: "disconnected c (disconnected c w) = disconnected c w"
  by (cases "socks w c") (auto simp: disconnected_def)

text \<open>The result of one EOF or error branch, by the role of the connection.\<close>

lemma closed_inside:
  assumes "world_ok w" "sessions w a = Some s" "socks w (s_inConn s) = Some k"
    and "es_user k = Some (UTracker a)" "\<not> es_connected k"
  shows "es_closed (s_inConn s) w = Inr (kill a s w)"
  using assms world_okD(1) [OF assms(1,2)]
  by (simp add: es_closed_def tracker_onConnectionClosed_def)

lemma closed_main_conn:
  assumes "proxying w a s d" "socks w (s_inConn s) = Some k"
    and "es_user k = Some (UProxy a Main)" "\<not> es_connected k"
  shows "es_closed (s_inConn s) w = Inr (kill a s (disconnected d w))"
  using assms by (simp add: es_closed_def closed_main)

lemma closed_pending:
  assumes "sessions w a = Some s" "socks w c = Some k" "es_user k = Some (USession a)"
  shows "es_closed c w = Inr (disconnected c w)"
  using assms by (simp add: es_closed_def close_is_disconnected socks_disconnected
      session_onConnectionClosed_def)

lemma closed_out_conn:
  assumes "proxying w a s c" "socks w c = Some k" "es_user k = Some (UProxy a Out)"
  shows "es_closed c w = Inr (kill a s (disconnected c w))"
  using assms by (simp add: es_closed_def close_is_disconnected socks_disconnected
      closed_out [OF proxying_disconnected])

lemma close_moves:
  assumes "sessions w a = Some s" "s_outConn s = Some c"
  shows "(move e ev a)\<^sup>*\<^sup>* w (disconnected c w)"
  using move.close [OF assms] by (rule r_into_rtranclp)

lemma close_finish_moves:
  assumes "sessions w a = Some s" "s_outConn s = Some c"
  shows "(move e ev a)\<^sup>*\<^sup>* w (kill a s (disconnected c w))"
proof (rule rtranclp.rtrancl_into_rtrancl)
  show "(move e ev a)\<^sup>*\<^sup>* w (disconnected c w)"
    by (rule close_moves [OF assms])
  show "move e ev a (disconnected c w) (kill a s (disconnected c w))"
    by (rule move.finish) (simp add: assms)
qed

lemma closed_moves:
  assumes ok: "world_ok w" and live: "socks w c \<noteq> None"
  shows "\<exists>a s w'. sessions w a = Some s \<and> owns s c \<and> es_closed c w = Inr w' \<and>
    (\<forall>e ev. (move e ev a)\<^sup>*\<^sup>* w w')"
proof -
  from live obtain k where k: "socks w c = Some k" by blast
  from ok k show ?thesis
  proof (cases rule: sock_cases)
    case (inside a s)
    then show ?thesis
      using closed_inside [OF ok, of a s k] k finish_moves [of w a s] by (auto simp: owns_def)
  next
    case (main a s d)
    then show ?thesis
      using closed_main_conn [of w a s d k] k proxyingD(2,3) [OF main(1)] close_finish_moves [of w a s d]
      by (auto simp: owns_def)
  next
    case (pending a s)
    then show ?thesis
      using closed_pending [OF pending(1) k] close_moves [OF pending(1,2)]
      unfolding owns_def by blast
  next
    case (out a s)
    then show ?thesis
      using closed_out_conn [of w a s c k] k proxyingD(2,3) [OF out(1)] close_finish_moves [of w a s c]
      by (auto simp: owns_def)
  qed
qed

section \<open>An established connection\<close>

definition typed_env :: "env \<Rightarrow> bool" where
  "typed_env e \<longleftrightarrow> (\<forall>c p ip. env_sockname e c = SockAddrIn6 p ip \<longrightarrow> length ip = 16)"

text \<open>After both addresses have been read, the connection is marked connected.\<close>

lemma established_start:
  assumes k: "socks w c = Some k" and r: "es_established e c w = Inr w'" and typed: "typed_env e"
  obtains l rem u where "wire_variant (addr_addr l)" "variant_type (addr_addr l) = addr_type l"
    "getAddress (env_order e) (env_sockname e c) = Inr l"
    "(case es_user k of None \<Rightarrow> Inr u | Some user \<Rightarrow> user_onConnected e user u) = Inr w'"
    "u = w\<lparr>socks := (socks w)(c \<mapsto> k\<lparr>es_local := l, es_remote := rem, es_connected := True\<rparr>)\<rparr>"
proof -
  obtain l where l: "getAddress (env_order e) (env_sockname e c) = Inr l"
    using k r by (cases "getAddress (env_order e) (env_sockname e c)")
      (auto simp: es_established_def es_updateLocalAddress_def)
  obtain rem where rem: "getAddress (env_order e) (env_peername e c) = Inr rem"
    using k r l by (cases "getAddress (env_order e) (env_peername e c)")
      (auto simp: es_established_def es_updateLocalAddress_def es_updateRemoteAddress_def)
  have "wire_variant (addr_addr l) \<and> variant_type (addr_addr l) = addr_type l"
    using getAddress_wf [OF l] typed by (simp add: typed_env_def wf_address_def)
  moreover have "(case es_user k of None \<Rightarrow> Inr u | Some user \<Rightarrow> user_onConnected e user u) = Inr w'"
    if "u = w\<lparr>socks := (socks w)(c \<mapsto> k\<lparr>es_local := l, es_remote := rem, es_connected := True\<rparr>)\<rparr>" for u
    using that k r l rem
    by (cases "es_user k")
      (simp_all add: es_established_def es_updateLocalAddress_def es_updateRemoteAddress_def)
  ultimately show ?thesis
    using that l by blast
qed

lemma established_moves:
  assumes ok: "world_ok w" and k: "socks w c = Some k" and conn: "XConnect c sa \<in> set (calls w)"
    and r: "es_established e c w = Inr w'" and typed: "typed_env e"
  shows "moves_to e ev c w (Inr w')"
proof -
  from k r typed obtain l rem u where l: "wire_variant (addr_addr l)" "variant_type (addr_addr l) = addr_type l"
    and u: "u = w\<lparr>socks := (socks w)(c \<mapsto> k\<lparr>es_local := l, es_remote := rem, es_connected := True\<rparr>)\<rparr>"
    and user: "(case es_user k of None \<Rightarrow> Inr u | Some user \<Rightarrow> user_onConnected e user u) = Inr w'"
    by (rule established_start)
  have upd: "(move e ev a)\<^sup>*\<^sup>* w u" if "sessions w a = Some s" "s_outConn s = Some c" for a s
    unfolding u using move.update [OF that k] by (rule r_into_rtranclp)
  from ok k show ?thesis
  proof (cases rule: sock_cases)
    case (inside a s)
    with world_okD(9) [OF ok inside(1)] conn show ?thesis by simp
  next
    case (main a s d)
    with world_okD(9) [OF ok proxyingD(2) [OF main(1)]] conn show ?thesis by simp
  next
    case (out a s)
    then have "w' = u"
      using user proxyingD(2,5) [OF out(1)] u
      by (simp add: directed_onConnected_def proxy_onConnected_def)
    then show ?thesis
      using upd proxyingD(2,3) [OF out(1)] by (auto simp: moves_to_def owns_def)
  next
    case (pending a s)
    let ?m = "k\<lparr>es_local := l, es_remote := rem, es_connected := True\<rparr>"
    let ?reply = "commandWire (env_order e) RequestGranted (addr_addr l) (addr_port l)"
    let ?v = "queued (s_inConn s) ?reply u"
    have mem: "mem_ok u a s"
      unfolding u using update_mem_ok [OF world_okD(1) [OF ok pending(1)] pending(2) k] .
    obtain i where i: "socks u (s_inConn s) = Some i"
      using mem by (auto simp: mem_ok_def)
    have su: "sessions u a = Some s" and m: "socks u c = Some ?m"
      using pending by (simp_all add: u)
    have w': "w' = proxied a s c i ?m ?v"
      using user session_onConnected_result [OF mem pending(4,2,3) i m _ l] pending(5)
      by (simp add: Let_def split: if_splits)
    have "move e ev a ?v (proxied a s c i ?m ?v)"
      using su i m pending(2,4) by (intro move.relay) simp_all
    then have "(move e ev a)\<^sup>*\<^sup>* ?v w'"
      unfolding w' by (rule r_into_rtranclp)
    then have "(move e ev a)\<^sup>*\<^sup>* u w'"
      by (rule queue_then [OF su, of "s_inConn s", rotated]) (simp add: owns_def)
    with upd [OF pending(1,2)] have "(move e ev a)\<^sup>*\<^sup>* w w'"
      by (rule rtranclp_trans)
    with pending(1,2) show ?thesis
      by (auto simp: moves_to_def owns_def)
  qed
qed

section \<open>Data\<close>

lemma queue_moves: "sessions w a = Some s \<Longrightarrow> owns s c \<Longrightarrow> (move e ev a)\<^sup>*\<^sup>* w (queued c buf w)"
  using move.queue by (rule r_into_rtranclp)

lemma read_moves:
  assumes ok: "world_ok w" and live: "socks w c \<noteq> None"
  shows "moves_to e (Readable c input copied) c w (es_onRead e c input copied w)"
proof -
  from live obtain k where k: "socks w c = Some k" by blast
  then obtain a s where s: "sessions w a = Some s" "owns s c"
    using world_okD(4) [OF ok] by blast
  show ?thesis
  proof (cases "\<exists>buf. input = Some buf \<and> copied = length buf \<and> es_user k \<noteq> None")
    case False
    then have "es_onRead e c input copied w = Inr w"
      using k by (auto simp: es_onRead_def split: option.splits)
    with s show ?thesis by (auto intro: moves_toI)
  next
    case True
    then obtain buf where input: "input = Some buf" "copied = length buf" by blast
    from ok k show ?thesis
    proof (cases rule: sock_cases)
      case (inside a s)
      then show ?thesis
        using k input receive_moves [OF ok inside(1)]
        by (intro moves_toI [of w a s]) (auto simp: es_onRead_def owns_def)
    next
      case (main a s d)
      then show ?thesis
        using k input proxyingD(2,3) [OF main(1)] queue_moves [OF proxyingD(2) [OF main(1)], of d]
        by (intro moves_toI [of w a s]) (auto simp: es_onRead_def relay_main owns_def)
    next
      case (pending a s)
      then show ?thesis
        using k input by (intro moves_toI [of w a s]) (auto simp: es_onRead_def owns_def session_onReceive_def)
    next
      case (out a s)
      then show ?thesis
        using k input proxyingD(2,3) [OF out(1)] queue_moves [OF proxyingD(2) [OF out(1)], of "s_inConn s"]
        by (intro moves_toI [of w a s]) (auto simp: es_onRead_def relay_out owns_def)
    qed
  qed
qed

section \<open>\<open>onEvent\<close>\<close>

lemma move_calls: "move e ev a w w' \<Longrightarrow> set (calls w) \<subseteq> set (calls w')"
  by (erule moveE)
    (auto simp: disconnected_def connecting_def proxied_def kill_def Let_def split: option.splits)

lemma moves_calls: "(move e ev a)\<^sup>*\<^sup>* w w' \<Longrightarrow> set (calls w) \<subseteq> set (calls w')"
  by (induction rule: rtranclp_induct) (use move_calls in blast)+

lemma moves_to_then:
  assumes ok: "world_ok w" and 1: "moves_to e ev c w (Inr w1)" and 2: "moves_to e ev c w1 r"
  shows "moves_to e ev c w r"
  unfolding moves_to_def
proof (intro allI impI)
  fix w'
  assume "r = Inr w'"
  with 2 obtain b t where t: "sessions w1 b = Some t" "owns t c" "(move e ev b)\<^sup>*\<^sup>* w1 w'"
    by (auto simp: moves_to_def)
  from 1 obtain a s where s: "sessions w a = Some s" "owns s c" "(move e ev a)\<^sup>*\<^sup>* w w1"
    by (auto simp: moves_to_def)
  have "b = a"
  proof (rule ccontr)
    assume "b \<noteq> a"
    then have "sessions w b = Some t"
      using others_keptD [of a w w1 b] moves_ok [OF s(3) ok] t(1) by simp
    with \<open>b \<noteq> a\<close> show False
      using owner_unique [of w a s c b t] world_okD(1) [OF ok] s t by blast
  qed
  with s t show "\<exists>a s. sessions w a = Some s \<and> owns s c \<and> (move e ev a)\<^sup>*\<^sup>* w w'"
    by (meson rtranclp_trans)
qed

lemma moves_to_world_ok: "moves_to e ev c w (Inr w') \<Longrightarrow> world_ok w \<Longrightarrow> world_ok w'"
  using moves_ok by (fastforce simp: moves_to_def)

lemma when_closed:
  assumes ok: "world_ok w" and 1: "moves_to e ev c w (Inr w1)"
  shows "moves_to e ev c w (whenC b (es_closed c) w1)"
proof (cases "b \<and> socks w1 c \<noteq> None")
  case True
  with closed_moves [OF moves_to_world_ok [OF 1 ok], of c] have "moves_to e ev c w1 (es_closed c w1)"
    by (fastforce simp: moves_to_def)
  with moves_to_then [OF ok 1] True show ?thesis by simp
next
  case False
  then show ?thesis
    using 1 by (cases b) (auto simp: moves_to_def es_closed_def es_closeConnection_def get_sock_def)
qed

lemma when_established:
  assumes ok: "world_ok w" and 1: "moves_to e ev c w (Inr w1)" and typed: "typed_env e"
    and conn: "b \<Longrightarrow> XConnect c sa \<in> set (calls w)"
  shows "moves_to e ev c w (whenC b (es_established e c) w1)"
proof (cases "b \<and> socks w1 c \<noteq> None")
  case True
  then obtain k where k: "socks w1 c = Some k" by blast
  have conn1: "XConnect c sa \<in> set (calls w1)"
    using 1 conn True moves_calls by (fastforce simp: moves_to_def)
  have "moves_to e ev c w1 (es_established e c w1)"
    using established_moves [OF moves_to_world_ok [OF 1 ok] k conn1 _ typed]
    by (cases "es_established e c w1") (auto simp: moves_to_def)
  with moves_to_then [OF ok 1] True show ?thesis by simp
next
  case False
  then show ?thesis
    using 1 by (cases b) (auto simp: moves_to_def es_established_def es_updateLocalAddress_def get_sock_def)
qed

lemma moves_to_refl: "world_ok w \<Longrightarrow> socks w c \<noteq> None \<Longrightarrow> moves_to e ev c w (Inr w)"
  using world_okD(4) by (fastforce simp: moves_to_def)

lemma event_moves:
  assumes ok: "world_ok w" and live: "socks w c \<noteq> None" and typed: "typed_env e"
    and conn: "events AND BEV_EVENT_CONNECTED \<noteq> 0 \<Longrightarrow> XConnect c sa \<in> set (calls w)"
  shows "moves_to e (SockEvent c events) c w (es_onEvent e c events w)"
proof (cases "es_onEvent e c events w")
  case (Inl f)
  then show ?thesis by (simp add: moves_to_def)
next
  case (Inr w')
  with live obtain w1 w2 where w1: "whenC (events AND BEV_EVENT_EOF \<noteq> 0) (es_closed c) w = Inr w1"
    and w2: "whenC (events AND BEV_EVENT_ERROR \<noteq> 0) (es_closed c) w1 = Inr w2"
    and w': "whenC (events AND BEV_EVENT_CONNECTED \<noteq> 0) (es_established e c) w2 = Inr w'"
    by (auto simp: es_onEvent_def andThen_eq_Inr_iff)
  let ?ev = "SockEvent c events"
  have "moves_to e ?ev c w (Inr w1)"
    using when_closed [OF ok moves_to_refl [OF ok live], of e ?ev] w1 by metis
  then have "moves_to e ?ev c w (Inr w2)"
    using when_closed [OF ok] w2 by metis
  then have "moves_to e ?ev c w (Inr w')"
    using when_established [OF ok _ typed conn] w' by metis
  with Inr show ?thesis by simp
qed

end
