(* ===== verification/Reachable.thy ===== *)
theory Reachable
  imports Callbacks
begin

text \<open>
  Accepting a connection, the worlds that callbacks lead to, and the invariant of theory \<open>Server\<close> in all of them.
\<close>

section \<open>Accepting\<close>

definition accepted_world :: "world \<Rightarrow> world" where
  "accepted_world w =
     (let c = next_sock w; a = next_session w; i = mng_currentId w in
      w\<lparr>socks := (socks w)(c \<mapsto> \<lparr>es_user = Some (UTracker a), es_remote = emptyAddress,
           es_local = emptyAddress, es_connected = False, es_refs = 2\<rparr>),
        next_sock := c + 1,
        sessions := (sessions w)(a \<mapsto> \<lparr>s_id = i, s_inConn = c, s_outConn = None,
           s_trackerConn = c, s_machine = WaitForGreeting, s_proxy = None\<rparr>),
        next_session := a + 1,
        mng_sessions := (mng_sessions w)(i \<mapsto> a), mng_currentId := i + 1,
        calls := calls w @ [XNewBev c]\<rparr>)"

lemma accept_result:
  assumes "mng_sessions w (mng_currentId w) = None"
  shows "srv_onAcceptConnection e w = (if env_bev_new e then Inr (accepted_world w) else Inl NullDeref)"
  using assms
  by (simp add: srv_onAcceptConnection_def es_fromFd_def es_new_def es_enable_def Let_def
      mng_onNewConnection_def session_new_def tracker_new_def accepted_world_def numeral_2_eq_2)

lemma accepted_world_sels [simp]:
  "next_sock (accepted_world w) = next_sock w + 1" "next_session (accepted_world w) = next_session w + 1"
  "mng_sessions (accepted_world w) = (mng_sessions w)(mng_currentId w \<mapsto> next_session w)"
  "mng_currentId (accepted_world w) = mng_currentId w + 1" "mng_logins (accepted_world w) = mng_logins w"
  "srv_connections (accepted_world w) = srv_connections w"
  "calls (accepted_world w) = calls w @ [XNewBev (next_sock w)]"
  "sessions (accepted_world w) = (sessions w)(next_session w \<mapsto>
     \<lparr>s_id = mng_currentId w, s_inConn = next_sock w, s_outConn = None,
      s_trackerConn = next_sock w, s_machine = WaitForGreeting, s_proxy = None\<rparr>)"
  "socks (accepted_world w) = (socks w)(next_sock w \<mapsto>
     \<lparr>es_user = Some (UTracker (next_session w)), es_remote = emptyAddress,
      es_local = emptyAddress, es_connected = False, es_refs = 2\<rparr>)"
  by (simp_all add: accepted_world_def Let_def)

lemma accepted_world_ok:
  assumes ok: "world_ok w" and free: "mng_sessions w (mng_currentId w) = None"
  shows "world_ok (accepted_world w) \<and> others_kept (next_session w) w (accepted_world w)"
proof -
  let ?c = "next_sock w" and ?a = "next_session w" and ?w = "accepted_world w"
  have new: "sessions w ?a = None" "srv_connections w ?a = None"
    using world_okD(6,7) [OF ok] by simp_all
  have below: "c < ?c" if "sessions w b = Some t" "owns t c" for b t c
    using owned_below_next [OF ok that] .
  have inN: "s_inConn t \<noteq> ?c" if "sessions w b = Some t" for b t
    using below [OF that, of "s_inConn t"] by (auto simp: owns_def)
  have idN: "s_id t \<noteq> mng_currentId w" if "sessions w b = Some t" for b t
    using mem_okD(2) [OF world_okD(1) [OF ok that]] free by auto
  have kept: "others_kept ?a w ?w"
    using below idN by (auto simp: others_kept_def)
  have "world_ok ?w"
  proof (rule world_okI [OF ok kept])
    show "mem_ok ?w ?a t \<and> session_phase t" if "sessions ?w ?a = Some t" for t
      using that new
      by (auto simp: mem_ok_def out_ok_def in_sock_ok_def proxy_refs_def session_phase_def)
    show "\<exists>t. sessions ?w b = Some t \<and> s_id t = i" if "mng_sessions ?w i = Some b" for i b
      using that world_okD(3) [OF ok, of i b] new by (auto split: if_splits)
    show "\<exists>b t. sessions ?w b = Some t \<and> owns t c" if k: "socks ?w c = Some k" for c k
    proof (cases "c = ?c")
      case True
      then show ?thesis by (intro exI [of _ ?a]) (simp add: owns_def)
    next
      case False
      with k obtain b t where "sessions w b = Some t" "owns t c"
        using world_okD(4) [OF ok, of c k] by auto
      with new show ?thesis
        by (intro exI [of _ b] exI [of _ t]) auto
    qed
    show "fresh_ok ?w"
      using world_okD(5-7) [OF ok] by (auto simp: fresh_ok_def)
    show "connects_ok ?w"
      using world_okD(8,9) [OF ok] by (force simp: connects_ok_def less_Suc_eq inN)
  qed
  with kept show ?thesis by blast
qed

section \<open>Reachable worlds\<close>

text \<open>
  What libevent promises: callbacks come for connections that have not been freed, a connection
  becomes connected only after \<open>bufferevent_socket_connect\<close>, and IPv6 addresses have 16 bytes.
\<close>

fun possible :: "world \<Rightarrow> event \<Rightarrow> bool" where
  "possible w Accepted \<longleftrightarrow> True"
| "possible w (Readable c input copied) \<longleftrightarrow> socks w c \<noteq> None"
| "possible w (Writable c) \<longleftrightarrow> socks w c \<noteq> None"
| "possible w (SockEvent c events) \<longleftrightarrow> socks w c \<noteq> None \<and>
     (events AND BEV_EVENT_CONNECTED = 0 \<or> (\<exists>sa. XConnect c sa \<in> set (calls w)))"
| "possible w (SignalRaised n) \<longleftrightarrow> True"

inductive reachable :: "logins \<Rightarrow> (env \<times> event) list \<Rightarrow> world \<Rightarrow> bool" for m where
  reach_init: "reachable m [] (newServer m)"
| reach_step: "reachable m h w \<Longrightarrow> possible w ev \<Longrightarrow> typed_env e \<Longrightarrow> handle e ev w = Inr w' \<Longrightarrow>
     reachable m (h @ [(e, ev)]) w'"

definition accepts :: "(env \<times> event) list \<Rightarrow> nat" where
  "accepts h = length (filter (\<lambda>(e, ev). ev = Accepted) h)"

lemma accepts_append: "accepts (h @ [(e, ev)]) = accepts h + (if ev = Accepted then 1 else 0)"
  by (simp add: accepts_def)

text \<open>
  One callback, seen from the specification: nothing but a call to libevent, moves of one session,
  or a new session.
\<close>

lemma handle_cases:
  assumes ok: "world_ok w" and p: "possible w ev" and typed: "typed_env e"
    and r: "handle e ev w = Inr w'" and free: "ev = Accepted \<Longrightarrow> mng_sessions w (mng_currentId w) = None"
  obtains (idle) "w' = w" | (stop) "w' = w\<lparr>calls := calls w @ [XLoopBreak]\<rparr>"
  | (moves) a s where "sessions w a = Some s" "(move e ev a)\<^sup>*\<^sup>* w w'"
  | (accept) "ev = Accepted" "w' = accepted_world w"
proof (cases ev)
  case Accepted
  with r accept_result [OF free, of e] accept show ?thesis by (simp split: if_splits)
next
  case (Readable c input copied)
  with r p read_moves [OF ok, of c e input copied] moves show ?thesis by (auto simp: moves_to_def)
next
  case (Writable c)
  with r p idle show ?thesis by (auto simp: es_onWrite_def)
next
  case (SockEvent c events)
  with p obtain sa where "events AND BEV_EVENT_CONNECTED \<noteq> 0 \<Longrightarrow> XConnect c sa \<in> set (calls w)"
    by auto
  with SockEvent r p event_moves [OF ok _ typed, of c events sa] moves show ?thesis
    by (auto simp: moves_to_def)
next
  case (SignalRaised n)
  with r idle stop show ?thesis by (auto simp: mng_onSignalOccured_def srv_stop_def split: if_splits)
qed

lemma newServer_ok: "world_ok (newServer m)"
  by (simp add: world_ok_def sessions_ok_def table_ok_def socks_owned_def fresh_ok_def connects_ok_def
      newServer_def)

lemma mem_ok_calls [simp]: "mem_ok (w\<lparr>calls := cs\<rparr>) a s = mem_ok w a s"
  by (simp add: mem_ok_def out_ok_def split: option.splits)

lemma stop_ok: "world_ok w \<Longrightarrow> world_ok (w\<lparr>calls := calls w @ [XLoopBreak]\<rparr>)"
  by (simp add: world_ok_def sessions_ok_def table_ok_def socks_owned_def fresh_ok_def
      connects_ok_def)

text \<open>The identifiers in use stay below the number of accepted connections until it wraps.\<close>

definition ids_ok :: "nat \<Rightarrow> world \<Rightarrow> bool" where
  "ids_ok n w \<longleftrightarrow> mng_currentId w = of_nat n \<and> (\<forall>i a. mng_sessions w i = Some a \<longrightarrow> unat i < n)"

lemma move_ids: "move e ev a w w' \<Longrightarrow> ids_ok n w \<Longrightarrow> ids_ok n w' \<and> mng_logins w' = mng_logins w"
  by (erule moveE) (auto simp: ids_ok_def connecting_def proxied_def Let_def)

lemma moves_ids: "(move e ev a)\<^sup>*\<^sup>* w w' \<Longrightarrow> ids_ok n w \<Longrightarrow> ids_ok n w' \<and> mng_logins w' = mng_logins w"
  by (induction rule: rtranclp_induct) (use move_ids in \<open>fastforce+\<close>)

lemma ids_free:
  assumes "ids_ok n w" and "n < 2 ^ 32"
  shows "mng_sessions w (mng_currentId w) = None"
proof (rule ccontr)
  assume "mng_sessions w (mng_currentId w) \<noteq> None"
  then have "unat (of_nat n :: u32) < n"
    using assms(1) by (auto simp: ids_ok_def)
  then show False
    using assms(2) by (simp add: unat_of_nat)
qed

lemma reachable_invariant:
  "reachable m h w \<Longrightarrow> accepts h \<le> 2 ^ 32 \<Longrightarrow> world_ok w \<and> ids_ok (accepts h) w \<and> mng_logins w = m"
proof (induction rule: reachable.induct)
  case reach_init
  have "ids_ok 0 (newServer m)" "mng_logins (newServer m) = m"
    by (simp_all add: ids_ok_def newServer_def)
  then show ?case using newServer_ok by (simp add: accepts_def)
next
  case (reach_step h w ev e w')
  then have ok: "world_ok w" and ids: "ids_ok (accepts h) w" and m: "mng_logins w = m"
    by (auto simp: accepts_append)
  have free: "ev = Accepted \<Longrightarrow> mng_sessions w (mng_currentId w) = None"
    using ids_free [OF ids] reach_step.prems by (simp add: accepts_append)
  show ?case
  proof (cases "ev = Accepted")
    case True
    have small: "unat i < accepts h + 1" if "mng_sessions w i = Some a" for i a
      using that ids by (force simp: ids_ok_def)
    have "w' = accepted_world w"
      using True reach_step.hyps(4) accept_result [OF free [OF True], of e] by (simp split: if_splits)
    with True ok ids m small reach_step.prems show ?thesis
      using accepted_world_ok [OF ok free [OF True]]
      by (auto simp: ids_ok_def accepts_append unat_of_nat)
  next
    case False
    show ?thesis
    proof (rule handle_cases [OF ok reach_step.hyps(2,3,4) free])
      assume "w' = w"
      with ok ids m False show ?thesis by (simp add: accepts_append)
    next
      assume "w' = w\<lparr>calls := calls w @ [XLoopBreak]\<rparr>"
      with stop_ok ok ids m False show ?thesis by (simp add: accepts_append ids_ok_def)
    next
      fix a s
      assume mv: "(move e ev a)\<^sup>*\<^sup>* w w'"
      show ?thesis
        using moves_ok [OF mv ok] moves_ids [OF mv ids] m False by (simp add: accepts_append)
    next
      assume "ev = Accepted"
      with False show ?thesis by simp
    qed
  qed
qed

section \<open>The callbacks of a run\<close>

text \<open>Libevent keeps its promises in every world the callbacks lead to.\<close>

fun feasible :: "(env \<times> event) list \<Rightarrow> world \<Rightarrow> bool" where
  "feasible [] w \<longleftrightarrow> True"
| "feasible ((e, ev) # evs) w \<longleftrightarrow> possible w ev \<and> typed_env e \<and>
     (case handle e ev w of Inl f \<Rightarrow> True | Inr w' \<Rightarrow> feasible evs w')"

lemma run_reachable:
  "reachable m h w \<Longrightarrow> feasible evs w \<Longrightarrow> run evs w = Inr w' \<Longrightarrow> reachable m (h @ evs) w'"
proof (induction evs arbitrary: h w)
  case (Cons x evs)
  obtain e ev where x: "x = (e, ev)" by fastforce
  obtain w1 where w1: "handle e ev w = Inr w1" "run evs w1 = Inr w'"
    using Cons.prems(3) by (auto simp: x andThen_eq_Inr_iff)
  have "reachable m (h @ [(e, ev)]) w1"
    using Cons.prems(1,2) w1(1) by (auto simp: x intro: reach_step)
  from Cons.IH [OF this] show ?case
    using Cons.prems(2) w1 by (simp add: x)
qed simp

end
