(* ===== verification/Safety.thy ===== *)
theory Safety
  imports Reachable
begin

text \<open>
  Properties of all reachable worlds: the object graph, isolation of the sessions, and authentication
  before every outgoing connection.
\<close>

section \<open>Callbacks on a connection\<close>

fun event_conn :: "event \<Rightarrow> nat option" where
  "event_conn (Readable c input copied) = Some c"
| "event_conn (Writable c) = Some c"
| "event_conn (SockEvent c events) = Some c"
| "event_conn _ = None"

lemma handle_conn:
  assumes ok: "world_ok w" and p: "possible w ev" and typed: "typed_env e" and c: "event_conn ev = Some c"
  shows "moves_to e ev c w (handle e ev w)"
proof (cases ev)
  case (Readable d input copied)
  with p c read_moves [OF ok, of c e input copied] show ?thesis by simp
next
  case (Writable d)
  with p c moves_to_refl [OF ok, of c] show ?thesis by (auto simp: es_onWrite_def)
next
  case (SockEvent d events)
  with p obtain sa where "events AND BEV_EVENT_CONNECTED \<noteq> 0 \<Longrightarrow> XConnect d sa \<in> set (calls w)"
    by auto
  with SockEvent p c event_moves [OF ok _ typed, of d events sa] show ?thesis by simp
qed (use c in simp_all)

section \<open>The object graph\<close>

text \<open>
  C2: in every world reachable with at most \<open>2 ^ 32\<close> accepted connections, all pointers are good:
  every live session has exactly the connections and objects of its phase, the use count of each
  connection is the number of pointers to it, it reports to an object of its own session, no
  connection is left without a session, and the session table is exact. The logins never change.
\<close>

theorem reachable_worlds_are_ok:
  assumes "reachable m h w" and "accepts h \<le> 2 ^ 32"
  shows "world_ok w \<and> mng_logins w = m"
  using reachable_invariant [OF assms] by simp

lemma reachable_newServer: "reachable m [] (newServer m)"
  by (rule reach_init)

definition plain_env :: env where
  "plain_env = \<lparr>env_order = LittleEndian, env_bev_new = True, env_add_ok = (\<lambda>c buf. True),
     env_connect_ok = (\<lambda>c sa. True), env_sockname = (\<lambda>c. SockAddrIn 80 0), env_peername = (\<lambda>c. SockAddrIn 80 0)\<rparr>"

lemma plain_env_simps [simp]:
  "env_order plain_env = LittleEndian" "env_bev_new plain_env" "env_add_ok plain_env c buf"
  "env_connect_ok plain_env c sa" "env_sockname plain_env c = SockAddrIn 80 0"
  "env_peername plain_env c = SockAddrIn 80 0" "typed_env plain_env"
  by (simp_all add: plain_env_def typed_env_def)

lemma newServer_sels [simp]:
  "socks (newServer m) = Map.empty" "next_sock (newServer m) = 0" "sessions (newServer m) = Map.empty"
  "next_session (newServer m) = 0" "mng_sessions (newServer m) = Map.empty"
  "mng_currentId (newServer m) = 0" "mng_logins (newServer m) = m"
  "srv_connections (newServer m) = Map.empty" "calls (newServer m) = []"
  by (simp_all add: newServer_def)

lemma reachable_accepted: "reachable m [(plain_env, Accepted)] (accepted_world (newServer m))"
proof -
  have "handle plain_env Accepted (newServer m) = Inr (accepted_world (newServer m))"
    by (simp add: accept_result)
  then show ?thesis
    using reach_step [OF reach_init, of m Accepted plain_env] by simp
qed

theorem reachable_worlds_are_ok_witness:
  "world_ok (accepted_world (newServer Map.empty)) \<and> mng_logins (accepted_world (newServer Map.empty)) = Map.empty"
  by (rule reachable_worlds_are_ok [OF reachable_accepted]) (simp add: accepts_def)

section \<open>Isolation\<close>

definition new_calls :: "world \<Rightarrow> world \<Rightarrow> ext_call list" where
  "new_calls w w' = drop (length (calls w)) (calls w')"

lemma new_calls_append: "calls w' = calls w @ cs \<Longrightarrow> new_calls w w' = cs"
  by (simp add: new_calls_def)

lemma move_new_calls:
  assumes "world_ok w" "move e ev a w w'"
  shows "\<exists>cs. calls w' = calls w @ cs \<and>
    (\<forall>c buf. XQueue c buf \<in> set cs \<longrightarrow> (\<exists>s. sessions w a = Some s \<and> owns s c))"
  using assms(2)
  by cases (auto simp: disconnected_def connecting_def proxied_def kill_def kill_calls_def Let_def
      split: option.splits)

lemma moves_new_calls:
  assumes "(move e ev a)\<^sup>*\<^sup>* w w'" "world_ok w" "b \<noteq> a" "sessions w b = Some t"
  shows "\<exists>cs. calls w' = calls w @ cs \<and> (\<forall>c buf. XQueue c buf \<in> set cs \<longrightarrow> \<not> owns t c)"
  using assms
proof (induction rule: rtranclp_induct)
  case base
  then show ?case by simp
next
  case (step y z)
  then obtain cs where cs: "calls y = calls w @ cs" "\<forall>c buf. XQueue c buf \<in> set cs \<longrightarrow> \<not> owns t c"
    by blast
  have y: "world_ok y" and t: "sessions y b = Some t"
    using moves_ok [OF step.hyps(1)] step.prems by (auto simp: others_keptD)
  obtain ds where ds: "calls z = calls y @ ds"
    "\<forall>c buf. XQueue c buf \<in> set ds \<longrightarrow> (\<exists>s. sessions y a = Some s \<and> owns s c)"
    using move_new_calls [OF y step.hyps(2)] by blast
  have "\<not> owns t c" if "sessions y a = Some s" "owns s c" for s c
    using owner_unique [of y a s c b t] world_okD(1) [OF y] that t step.prems(2) by blast
  with cs ds show ?case by auto
qed

text \<open>
  C9: an event on a connection of one session leaves every other session as it was: its record, its
  connections with all their fields, and its entries in the tables of the session manager and of the server; and no byte
  is queued on a connection of the other session.
\<close>

theorem sessions_are_isolated:
  assumes "reachable m h w" and "accepts h \<le> 2 ^ 32" and "possible w ev" and "typed_env e"
    and "handle e ev w = Inr w'" and "event_conn ev = Some c"
    and "sessions w b = Some t" and "\<not> owns t c"
  shows "sessions w' b = Some t \<and> mng_sessions w' (s_id t) = mng_sessions w (s_id t) \<and>
    srv_connections w' b = srv_connections w b \<and> (\<forall>d. owns t d \<longrightarrow> socks w' d = socks w d) \<and>
    (\<forall>d buf. XQueue d buf \<in> set (new_calls w w') \<longrightarrow> \<not> owns t d)"
proof -
  have ok: "world_ok w"
    using reachable_invariant [OF assms(1,2)] by simp
  obtain a s where s: "sessions w a = Some s" "owns s c" "(move e ev a)\<^sup>*\<^sup>* w w'"
    using handle_conn [OF ok assms(3,4,6)] assms(5) by (auto simp: moves_to_def)
  then have "b \<noteq> a"
    using assms(7,8) by auto
  with moves_ok [OF s(3) ok] moves_new_calls [OF s(3) ok] assms(7) show ?thesis
    by (fastforce simp: others_kept_def new_calls_def)
qed

section \<open>Authentication\<close>

definition logged_in :: "logins \<Rightarrow> (env \<times> event) list \<Rightarrow> nat \<Rightarrow> bool" where
  "logged_in m h c \<longleftrightarrow> (\<exists>e buf msg. (e, Readable c (Some buf) (length buf)) \<in> set h \<and>
     decodeUserPass buf newUserPassAuthMsg = Inr (True, msg) \<and>
     authUserPassword m (up_user msg) (up_password msg))"

definition auth_ok :: "logins \<Rightarrow> (env \<times> event) list \<Rightarrow> world \<Rightarrow> bool" where
  "auth_ok m h w \<longleftrightarrow> (\<forall>a s. sessions w a = Some s \<longrightarrow>
     s_machine s \<in> {WaitForGreeting, WaitForPassAuth} \<or> logged_in m h (s_inConn s))"

lemma logged_in_mono: "logged_in m h c \<Longrightarrow> set h \<subseteq> set h' \<Longrightarrow> logged_in m h' c"
  unfolding logged_in_def by blast

lemma auth_ok_mono: "auth_ok m h w \<Longrightarrow> set h \<subseteq> set h' \<Longrightarrow> auth_ok m h' w"
  unfolding auth_ok_def using logged_in_mono by blast

lemma auth_okD: "auth_ok m h w \<Longrightarrow> sessions w a = Some s \<Longrightarrow>
    s_machine s \<notin> {WaitForGreeting, WaitForPassAuth} \<Longrightarrow> logged_in m h (s_inConn s)"
  by (auto simp: auth_ok_def)

text \<open>A move of session \<open>a\<close> under the callback \<open>(e, ev)\<close>, which is already in the history.\<close>

lemma auth_ok_upd:
  assumes "auth_ok m h w" "sessions w' = (sessions w)(a := x)"
    and "\<And>s. x = Some s \<Longrightarrow> s_machine s \<in> {WaitForGreeting, WaitForPassAuth} \<or> logged_in m h (s_inConn s)"
  shows "auth_ok m h w'"
  using assms by (auto simp: auth_ok_def)

lemma auth_ok_same: "auth_ok m h w \<Longrightarrow> sessions w' = sessions w \<Longrightarrow> auth_ok m h w'"
  by (simp add: auth_ok_def)

lemma move_auth:
  assumes "move e ev a w w'" and auth: "auth_ok m h w" and ev: "(e, ev) \<in> set h" and m: "mng_logins w = m"
  shows "auth_ok m h w'"
  using assms(1)
proof cases
  case (offer s buf msg)
  then show ?thesis by (intro auth_ok_upd [OF auth, where a = a]) auto
next
  case (login s buf msg)
  then have "logged_in m h (s_inConn s)"
    using ev m by (auto simp: logged_in_def)
  with login show ?thesis by (intro auth_ok_upd [OF auth, where a = a]) auto
next
  case (start s buf msg sa)
  then have "logged_in m h (s_inConn s)"
    using auth_okD [OF auth start(2)] by simp
  with start show ?thesis
    by (intro auth_ok_upd [OF auth, where a = a]) (auto simp: connecting_def Let_def)
next
  case (relay s c k l)
  then have "logged_in m h (s_inConn s)"
    using auth_okD [OF auth relay(2)] by simp
  with relay show ?thesis
    by (intro auth_ok_upd [OF auth, where a = a]) (auto simp: proxied_def)
next
  case (finish s)
  then show ?thesis by (intro auth_ok_upd [OF auth, where a = a]) auto
qed (auto intro: auth_ok_same [OF auth])

text \<open>A call to connect that is new after some moves comes from an accepted command.\<close>

definition started_by :: "logins \<Rightarrow> (env \<times> event) list \<Rightarrow> env \<Rightarrow> event \<Rightarrow> sockaddr \<Rightarrow> bool" where
  "started_by m h e ev sa \<longleftrightarrow> (\<exists>client buf cmd. ev = Readable client (Some buf) (length buf) \<and>
     decodeCommand (env_order e) buf newCommandMsg = Inr (True, cmd) \<and> cm_command cmd = TCPStream \<and>
     convertAddrToStorage (env_order e) (command_address cmd) = Inr (Some sa) \<and> logged_in m h client)"

lemma move_connect:
  assumes "move e ev a w w'" and auth: "auth_ok m h w"
    and "XConnect c sa \<in> set (calls w')" "XConnect c sa \<notin> set (calls w)"
  shows "started_by m h e ev sa"
  using assms(1)
proof cases
  case (start s buf cmd sa')
  then have "sa' = sa" using assms(3,4) by (auto simp: connecting_def Let_def)
  with start auth_okD [OF auth start(2)] show ?thesis
    by (auto simp: started_by_def)
qed (use assms(3,4) in \<open>auto simp: disconnected_def proxied_def kill_def kill_calls_def
      split: option.splits if_splits\<close>)

lemma moves_connect:
  assumes "(move e ev a)\<^sup>*\<^sup>* w w'" and "auth_ok m h w" and ev: "(e, ev) \<in> set h" and "mng_logins w = m"
    and "ids_ok n w"
  shows "auth_ok m h w' \<and>
    (\<forall>c sa. XConnect c sa \<in> set (calls w') \<and> XConnect c sa \<notin> set (calls w) \<longrightarrow> started_by m h e ev sa)"
  using assms
proof (induction rule: rtranclp_induct)
  case base
  then show ?case by simp
next
  case (step y z)
  then have y: "auth_ok m h y" and "mng_logins y = m"
    using moves_ids [OF step.hyps(1), of n] by auto
  then have "auth_ok m h z"
    using move_auth [OF step.hyps(2) _ ev] by blast
  moreover have "started_by m h e ev sa"
    if "XConnect c sa \<in> set (calls z)" "XConnect c sa \<notin> set (calls w)" for c sa
    using that move_connect [OF step.hyps(2) y, of c sa] step by blast
  ultimately show ?case by blast
qed

text \<open>A buffer is not both a login and a command: their first bytes differ.\<close>

lemma login_not_command:
  assumes "decodeUserPass buf newUserPassAuthMsg = Inr (True, msg)"
  shows "decodeCommand bo buf old \<noteq> Inr (True, cmd)"
proof
  assume "decodeCommand bo buf old = Inr (True, cmd)"
  then obtain c v p where "buf = commandWire bo c v p"
    using decodeCommand_accepts_only_wire by blast
  moreover obtain u q where "buf = userPassWire u q"
    using assms by (auto simp: userPass_iff)
  ultimately show False
    by (simp add: commandWire_def userPassWire_def)
qed

lemma started_by_earlier:
  assumes "started_by m (h @ [(e, ev)]) e ev sa"
  shows "started_by m h e ev sa"
  using assms login_not_command unfolding started_by_def logged_in_def by fastforce

lemma reachable_auth:
  "reachable m h w \<Longrightarrow> accepts h \<le> 2 ^ 32 \<Longrightarrow> auth_ok m h w"
proof (induction rule: reachable.induct)
  case reach_init
  then show ?case by (simp add: auth_ok_def)
next
  case (reach_step h w ev e w')
  let ?h = "h @ [(e, ev)]"
  from reach_step have le: "accepts h \<le> 2 ^ 32" and IH: "auth_ok m h w"
    by (auto simp: accepts_append)
  have auth: "auth_ok m ?h w"
    by (rule auth_ok_mono [OF IH]) auto
  have ok: "world_ok w" and ids: "ids_ok (accepts h) w" and m: "mng_logins w = m"
    using reachable_invariant [OF reach_step.hyps(1) le] by auto
  have free: "ev = Accepted \<Longrightarrow> mng_sessions w (mng_currentId w) = None"
    using ids_free [OF ids] reach_step.prems by (simp add: accepts_append)
  show ?case
  proof (rule handle_cases [OF ok reach_step.hyps(2-4) free])
    assume "w' = w\<lparr>calls := calls w @ [XLoopBreak]\<rparr>"
    then show ?thesis using auth_ok_same [OF auth] by simp
  next
    fix a s
    assume mv: "(move e ev a)\<^sup>*\<^sup>* w w'"
    show ?thesis using moves_connect [OF mv auth _ m ids] by simp
  next
    assume "w' = accepted_world w"
    then show ?thesis by (intro auth_ok_upd [OF auth]) auto
  qed (use auth in simp_all)
qed

text \<open>
  C1: whenever a callback calls connect, it handles a buffer from a client: a command to open a TCP
  stream to exactly the address connected to; and this client has sent, in an earlier buffer on the
  same connection, a user and a password that the logins accept.
\<close>

theorem connect_requires_login:
  assumes "reachable m h w" and "accepts h < 2 ^ 32" and "possible w ev" and "typed_env e"
    and "handle e ev w = Inr w'"
    and "XConnect c sa \<in> set (calls w')" and "XConnect c sa \<notin> set (calls w)"
  shows "started_by m h e ev sa"
proof (rule started_by_earlier)
  have inv: "world_ok w" "ids_ok (accepts h) w" "mng_logins w = m"
    using reachable_invariant [OF assms(1)] assms(2) by auto
  have free: "mng_sessions w (mng_currentId w) = None"
    using ids_free [OF inv(2) assms(2)] .
  have auth: "auth_ok m (h @ [(e, ev)]) w"
    by (rule auth_ok_mono [OF reachable_auth [OF assms(1)]]) (use assms(2) in auto)
  show "started_by m (h @ [(e, ev)]) e ev sa"
  proof (rule handle_cases [OF inv(1) assms(3-5) free])
    fix a s
    assume mv: "(move e ev a)\<^sup>*\<^sup>* w w'"
    show ?thesis using moves_connect [OF mv auth _ inv(3,2)] assms(6,7) by simp
  qed (use assms(6,7) in auto)
qed

end
