(* ===== verification/Steps.thy ===== *)
theory Steps
  imports Safety
begin

text \<open>
  What one callback does, phase by phase, in a reachable world: the results of the handlers with
  all their branches, stated over \<open>handle\<close>.
\<close>

section \<open>Whom an event reaches\<close>

lemma reachable_ok: "reachable m h w \<Longrightarrow> accepts h \<le> 2 ^ 32 \<Longrightarrow> world_ok w"
  using reachable_invariant by blast

lemma client_sock:
  assumes "world_ok w" "sessions w a = Some s" "s_proxy s = None"
  shows "\<exists>k. socks w (s_inConn s) = Some k \<and> es_user k = Some (UTracker a) \<and> \<not> es_connected k"
  using world_okD(1) [OF assms(1,2)] assms(3) by (auto simp: mem_ok_def in_sock_ok_def)

lemma pending_sock:
  assumes "world_ok w" "sessions w a = Some s" "s_proxy s = None" "s_outConn s = Some c"
  shows "\<exists>k. socks w c = Some k \<and> es_user k = Some (USession a)"
  using world_okD(1) [OF assms(1,2)] assms(3,4) by (auto simp: mem_ok_def out_ok_def out_sock_ok_def)

lemma started_proxying:
  assumes "world_ok w" "sessions w a = Some s" "s_machine s = ProxyStarted"
  shows "\<exists>c. proxying w a s c"
proof -
  have "s_proxy s \<noteq> None"
    using world_okD(2) [OF assms(1,2)] assms(3) by (simp add: session_phase_def)
  with world_okD(1) [OF assms(1,2)] show ?thesis
    by (auto simp: proxying_def mem_ok_def out_ok_def split: option.splits)
qed

lemma proxying_socks:
  assumes "proxying w a s c"
  shows "\<exists>k. socks w (s_inConn s) = Some k \<and> es_user k = Some (UProxy a Main) \<and> \<not> es_connected k"
    "\<exists>k. socks w c = Some k \<and> es_user k = Some (UProxy a Out)"
  using proxyingD(5-7) [OF assms] by (auto simp: in_sock_ok_def out_sock_ok_def)

lemma handle_client_data:
  assumes "world_ok w" "sessions w a = Some s" "s_proxy s = None"
  shows "handle e (Readable (s_inConn s) (Some buf) (length buf)) w = tracker_onReceive e a buf w"
  using client_sock [OF assms] by (auto simp: es_onRead_def)

lemma unproxied:
  assumes "world_ok w" "sessions w a = Some s"
    and "s_machine s \<in> {WaitForGreeting, WaitForPassAuth, WaitForCommand}"
  shows "s_proxy s = None" "s_outConn s = None"
  using world_okD(1,2) [OF assms(1,2)] assms(3) by (auto simp: session_phase_def mem_ok_def out_ok_def)

section \<open>The handshake\<close>

lemma step_greeting:
  assumes ok: "world_ok w" and s: "sessions w a = Some s" "s_machine s = WaitForGreeting"
    and dec: "decodeGreeting buf newGreetingMsg = Inr (True, g)" "AuthLoginPass \<in> set (gm_authMethods g)"
    and add: "env_add_ok e (s_inConn s) [Version5, AuthLoginPass]"
  shows "handle e (Readable (s_inConn s) (Some buf) (length buf)) w =
    Inr (with_machine WaitForPassAuth a s (queued (s_inConn s) [Version5, AuthLoginPass] w))"
  using handle_client_data [OF ok s(1) unproxied(1) [OF ok s(1)]] s(2) dec add
    receive_greeting [OF world_okD(1) [OF ok s(1)] s(2)]
  by (simp add: Let_def)

lemma step_login:
  assumes ok: "world_ok w" and s: "sessions w a = Some s" "s_machine s = WaitForPassAuth"
    and dec: "decodeUserPass buf newUserPassAuthMsg = Inr (True, l)"
    and auth: "authUserPassword (mng_logins w) (up_user l) (up_password l)"
    and add: "env_add_ok e (s_inConn s) [Version5, 0]"
  shows "handle e (Readable (s_inConn s) (Some buf) (length buf)) w =
    Inr (with_machine WaitForCommand a s (queued (s_inConn s) [Version5, 0] w))"
  using handle_client_data [OF ok s(1) unproxied(1) [OF ok s(1)]] s(2) dec auth add
    receive_passAuth [OF world_okD(1) [OF ok s(1)] s(2)]
  by (simp add: Let_def)

lemma step_wrong_login:
  assumes ok: "world_ok w" and s: "sessions w a = Some s" "s_machine s = WaitForPassAuth"
    and dec: "decodeUserPass buf newUserPassAuthMsg = Inr (True, l)"
    and auth: "\<not> authUserPassword (mng_logins w) (up_user l) (up_password l)"
    and add: "env_add_ok e (s_inConn s) [Version5, 1]"
  shows "handle e (Readable (s_inConn s) (Some buf) (length buf)) w =
    Inr (kill a s (queued (s_inConn s) [Version5, 1] w))"
  using handle_client_data [OF ok s(1) unproxied(1) [OF ok s(1)]] s(2) dec auth add
    receive_passAuth [OF world_okD(1) [OF ok s(1)] s(2)]
  by (simp add: Let_def)

lemma step_command:
  assumes ok: "world_ok w" and s: "sessions w a = Some s" "s_machine s = WaitForCommand"
    and dec: "decodeCommand (env_order e) buf newCommandMsg = Inr (True, cmd)" "cm_command cmd = TCPStream"
    and sa: "convertAddrToStorage (env_order e) (command_address cmd) = Inr (Some sa)"
    and env: "env_bev_new e" "env_connect_ok e (next_sock w) sa"
  shows "handle e (Readable (s_inConn s) (Some buf) (length buf)) w =
    Inr (connecting a (s\<lparr>s_machine := WaitForProxyStart\<rparr>) (command_address cmd) sa
      (with_machine WaitForProxyStart a s w))"
proof -
  have "socks w (next_sock w) = None"
    using world_okD(5) [OF ok] by simp
  then show ?thesis
    using handle_client_data [OF ok s(1) unproxied(1) [OF ok s(1)]] s(2) dec sa env
      receive_command [OF world_okD(1) [OF ok s(1)] s(2) unproxied(2) [OF ok s(1)]]
    by simp
qed

lemma step_connected:
  assumes ok: "world_ok w" and s: "sessions w a = Some s" "s_machine s = WaitForProxyStart"
    and c: "s_outConn s = Some c" "s_proxy s = None"
    and k: "socks w (s_inConn s) = Some k" and m: "socks w c = Some m"
    and l: "getAddress (env_order e) (env_sockname e c) = Inr l"
      "getAddress (env_order e) (env_peername e c) = Inr rem"
    and typed: "typed_env e"
    and add: "env_add_ok e (s_inConn s) (commandWire (env_order e) RequestGranted (addr_addr l) (addr_port l))"
  shows "handle e (SockEvent c BEV_EVENT_CONNECTED) w =
    (let m = m\<lparr>es_local := l, es_remote := rem, es_connected := True\<rparr> in
     Inr (proxied a s c k m (queued (s_inConn s)
       (commandWire (env_order e) RequestGranted (addr_addr l) (addr_port l))
       (w\<lparr>socks := (socks w)(c \<mapsto> m)\<rparr>))))"
proof -
  let ?m = "m\<lparr>es_local := l, es_remote := rem, es_connected := True\<rparr>"
  let ?w = "w\<lparr>socks := (socks w)(c \<mapsto> ?m)\<rparr>"
  have wf: "wire_variant (addr_addr l)" "variant_type (addr_addr l) = addr_type l"
    using getAddress_wf [OF l(1)] typed by (simp_all add: typed_env_def wf_address_def)
  have u: "es_user m = Some (USession a)"
    using pending_sock [OF ok s(1) c(2,1)] m by auto
  have ne: "c \<noteq> s_inConn s"
    using world_okD(1) [OF ok s(1)] c(1) by (auto simp: mem_ok_def out_ok_def)
  have mem: "mem_ok ?w a s"
    using update_mem_ok [OF world_okD(1) [OF ok s(1)] c(1) m] .
  have "session_onConnected e a ?w = Inr (proxied a s c k ?m (queued (s_inConn s)
       (commandWire (env_order e) RequestGranted (addr_addr l) (addr_port l)) ?w))"
    using session_onConnected_result [OF mem s(2) c _ _ _ wf, of k ?m e] k ne add
    by (simp add: Let_def)
  then show ?thesis
    using m l u by (simp add: es_onEvent_def es_established_def es_updateLocalAddress_def
        es_updateRemoteAddress_def Let_def)
qed

section \<open>Relaying and closing\<close>

lemma step_relay:
  assumes "proxying w a s c"
  shows "handle e (Readable (s_inConn s) (Some buf) (length buf)) w =
      Inr (if env_add_ok e c buf then queued c buf w else w)"
    "handle e (Readable c (Some buf) (length buf)) w =
      Inr (if env_add_ok e (s_inConn s) buf then queued (s_inConn s) buf w else w)"
  using proxying_socks [OF assms] relay_main [OF assms] relay_out [OF assms]
  by (auto simp: es_onRead_def)

text \<open>One branch for the end of a connection, by the role of the connection.\<close>

lemma closed_result:
  assumes ok: "world_ok w" and s: "sessions w a = Some s" and own: "owns s c"
  shows "es_closed c w = Inr
    (if s_proxy s = None then (if c = s_inConn s then kill a s w else disconnected c w)
     else kill a s (case s_outConn s of None \<Rightarrow> w | Some d \<Rightarrow> disconnected d w))"
proof (cases "s_proxy s")
  case None
  show ?thesis
  proof (cases "c = s_inConn s")
    case True
    with client_sock [OF ok s None] closed_inside [OF ok s] None show ?thesis by auto
  next
    case False
    with own have c: "s_outConn s = Some c" by (simp add: owns_def)
    with pending_sock [OF ok s None c] closed_pending [OF s] None False show ?thesis by auto
  qed
next
  case (Some p)
  then obtain d where d: "proxying w a s d"
    using world_okD(1) [OF ok s] by (auto simp: proxying_def mem_ok_def out_ok_def split: option.splits)
  show ?thesis
  proof (cases "c = s_inConn s")
    case True
    with proxying_socks(1) [OF d] closed_main_conn [OF d] proxyingD(3) [OF d] Some show ?thesis by auto
  next
    case False
    with own proxyingD(3) [OF d] have "c = d" by (simp add: owns_def)
    with proxying_socks(2) [OF d] closed_out_conn [OF d] proxyingD(3) [OF d] Some show ?thesis by auto
  qed
qed

lemma handle_closing:
  assumes "socks w c \<noteq> None" and "events AND BEV_EVENT_CONNECTED = 0"
  shows "handle e (SockEvent c events) w =
    (if events AND BEV_EVENT_EOF \<noteq> 0 \<and> events AND BEV_EVENT_ERROR \<noteq> 0
     then andThen (es_closed c w) (es_closed c)
     else if events AND BEV_EVENT_EOF \<noteq> 0 \<or> events AND BEV_EVENT_ERROR \<noteq> 0 then es_closed c w
     else Inr w)"
proof -
  have skip: "skip = (\<lambda>w. Inr w)" and two: "seqs [f, Inr] = f" for f :: "world cmd"
    by (simp_all add: fun_eq_iff)
  show ?thesis
    using assms by (auto simp: es_onEvent_def skip two)
qed

end
