(* ===== verification/Scenario.thy ===== *)
theory Scenario
  imports Steps
begin

text \<open>
  The life of one session from the accepted connection to the end, world by world: the next client of
  a server that may have others. The worlds are reachable, and the examples of the other theories are
  those of the first client of a fresh server.
\<close>

section \<open>The worlds\<close>

text \<open>The session, its connections and the connection it asks for, counted from the world \<open>w\<close> it starts in.\<close>

definition new_client :: "world \<Rightarrow> session" where
  "new_client w = \<lparr>s_id = mng_currentId w, s_inConn = next_sock w, s_outConn = None, s_trackerConn = next_sock w,
     s_machine = WaitForGreeting, s_proxy = None\<rparr>"

definition client_world :: "world \<Rightarrow> sm_state \<Rightarrow> sm_state \<Rightarrow> bytes \<Rightarrow> world \<Rightarrow> world" where
  "client_world w st st' reply v =
     with_machine st' (next_session w) ((new_client w)\<lparr>s_machine := st\<rparr>) (queued (next_sock w) reply v)"

definition greeted_world :: "world \<Rightarrow> world" where
  "greeted_world w = client_world w WaitForGreeting WaitForPassAuth [Version5, AuthLoginPass] (accepted_world w)"

definition logged_in_world :: "world \<Rightarrow> world" where
  "logged_in_world w = client_world w WaitForPassAuth WaitForCommand [Version5, 0] (greeted_world w)"

definition connecting_world :: "world \<Rightarrow> SocksAddress \<Rightarrow> sockaddr \<Rightarrow> world" where
  "connecting_world w addr sa = connecting (next_session w) ((new_client w)\<lparr>s_machine := WaitForProxyStart\<rparr>) addr sa
     (with_machine WaitForProxyStart (next_session w) ((new_client w)\<lparr>s_machine := WaitForCommand\<rparr>) (logged_in_world w))"

definition waiting_of :: "world \<Rightarrow> session" where
  "waiting_of w = (new_client w)\<lparr>s_machine := WaitForProxyStart, s_outConn := Some (next_sock w + 1)\<rparr>"

definition served_of :: "world \<Rightarrow> session" where
  "served_of w = (waiting_of w)\<lparr>s_machine := ProxyStarted, s_proxy := Some \<lparr>p_main = next_sock w, p_out = next_sock w + 1\<rparr>\<rparr>"

definition client_sock_of :: "nat \<Rightarrow> user_ref \<Rightarrow> sock" where
  "client_sock_of n u = \<lparr>es_user = Some u, es_remote = emptyAddress, es_local = emptyAddress,
     es_connected = False, es_refs = n\<rparr>"

definition out_sock_of :: "nat \<Rightarrow> SocksAddress \<Rightarrow> sock" where
  "out_sock_of a addr = \<lparr>es_user = Some (USession a), es_remote = addr, es_local = emptyAddress,
     es_connected = False, es_refs = 2\<rparr>"

definition proxied_world ::
  "byte_order \<Rightarrow> world \<Rightarrow> SocksAddress \<Rightarrow> sockaddr \<Rightarrow> SocksAddress \<Rightarrow> SocksAddress \<Rightarrow> world" where
  "proxied_world bo w addr sa l r =
     (let a = next_session w; c = next_sock w;
          k = (out_sock_of a addr)\<lparr>es_local := l, es_remote := r, es_connected := True\<rparr>;
          v = connecting_world w addr sa in
      proxied a (waiting_of w) (c + 1) (client_sock_of 2 (UTracker a)) k
        (queued c (commandWire bo RequestGranted (addr_addr l) (addr_port l))
          (v\<lparr>socks := (socks v)(c + 1 \<mapsto> k)\<rparr>)))"

lemmas world_defs = new_client_def client_world_def greeted_world_def logged_in_world_def connecting_world_def
  waiting_of_def served_of_def connecting_def client_sock_of_def out_sock_of_def Let_def

lemma new_client_sels [simp]:
  "s_machine (new_client w) = WaitForGreeting" "s_inConn (new_client w) = next_sock w"
  "s_id (new_client w) = mng_currentId w" "s_outConn (new_client w) = None" "s_proxy (new_client w) = None"
  by (simp_all add: new_client_def)

lemma life_sels [simp]:
  "sessions (greeted_world w) (next_session w) = Some ((new_client w)\<lparr>s_machine := WaitForPassAuth\<rparr>)"
  "sessions (logged_in_world w) (next_session w) = Some ((new_client w)\<lparr>s_machine := WaitForCommand\<rparr>)"
  "sessions (connecting_world w addr sa) (next_session w) = Some (waiting_of w)"
  "next_sock (logged_in_world w) = next_sock w + 1"
  "mng_logins (greeted_world w) = mng_logins w"
  "socks (greeted_world w) (next_sock w) \<noteq> None" "socks (logged_in_world w) (next_sock w) \<noteq> None"
  "socks (connecting_world w addr sa) (next_sock w) = Some (client_sock_of 2 (UTracker (next_session w)))"
  "socks (connecting_world w addr sa) (next_sock w + 1) = Some (out_sock_of (next_session w) addr)"
  "calls (connecting_world w addr sa) = calls w @ [XNewBev (next_sock w), XQueue (next_sock w) [Version5, AuthLoginPass],
     XQueue (next_sock w) [Version5, 0], XNewBev (next_sock w + 1), XConnect (next_sock w + 1) sa]"
  by (simp_all add: world_defs)

lemma accepted_client: "sessions (accepted_world w) (next_session w) = Some (new_client w)"
  by (simp add: new_client_def)

lemma served_of_sels [simp]:
  "s_outConn (served_of w) = Some (next_sock w + 1)" "s_id (served_of w) = mng_currentId w"
  "s_inConn (served_of w) = next_sock w" "s_proxy (served_of w) = Some \<lparr>p_main = next_sock w, p_out = next_sock w + 1\<rparr>"
  "s_machine (served_of w) = ProxyStarted"
  by (simp_all add: served_of_def waiting_of_def)

text \<open>The world of a served client, field by field.\<close>

lemma proxied_world_sels [simp]:
  "sessions (proxied_world bo w addr sa l r) = (sessions w)(next_session w \<mapsto> served_of w)"
  "mng_sessions (proxied_world bo w addr sa l r) = (mng_sessions w)(mng_currentId w \<mapsto> next_session w)"
  "srv_connections (proxied_world bo w addr sa l r) = (srv_connections w)(next_session w \<mapsto> Some (next_sock w + 1))"
  "next_sock (proxied_world bo w addr sa l r) = next_sock w + 2"
  "next_session (proxied_world bo w addr sa l r) = next_session w + 1"
  "mng_currentId (proxied_world bo w addr sa l r) = mng_currentId w + 1"
  "mng_logins (proxied_world bo w addr sa l r) = mng_logins w"
  "calls (proxied_world bo w addr sa l r) = calls w @ [XNewBev (next_sock w), XQueue (next_sock w) [Version5, AuthLoginPass],
     XQueue (next_sock w) [Version5, 0], XNewBev (next_sock w + 1), XConnect (next_sock w + 1) sa,
     XQueue (next_sock w) (commandWire bo RequestGranted (addr_addr l) (addr_port l))]"
  "socks (proxied_world bo w addr sa l r) = (socks w)
     (next_sock w \<mapsto> client_sock_of 3 (UProxy (next_session w) Main),
      next_sock w + 1 \<mapsto> \<lparr>es_user = Some (UProxy (next_session w) Out), es_remote = r, es_local = l,
        es_connected = True, es_refs = 3\<rparr>)"
  by (simp_all add: proxied_world_def proxied_def world_defs fun_eq_iff)

section \<open>They are reached\<close>

definition client_run ::
  "env \<Rightarrow> nat \<Rightarrow> byte list \<Rightarrow> bytes \<Rightarrow> bytes \<Rightarrow> SocksVariantAddress \<Rightarrow> u16 \<Rightarrow> (env \<times> event) list" where
  "client_run e c ms u p v port =
     map (Pair e)
       [Accepted,
        Readable c (Some (greetingWire ms)) (length (greetingWire ms)),
        Readable c (Some (userPassWire u p)) (length (userPassWire u p)),
        Readable c (Some (commandWire (env_order e) TCPStream v port))
          (length (commandWire (env_order e) TCPStream v port)),
        SockEvent (c + 1) BEV_EVENT_CONNECTED]"

text \<open>The conditions under which a client gets through.\<close>

definition good_client ::
  "env \<Rightarrow> logins \<Rightarrow> byte list \<Rightarrow> bytes \<Rightarrow> bytes \<Rightarrow> SocksVariantAddress \<Rightarrow> u16 \<Rightarrow> sockaddr \<Rightarrow> bool" where
  "good_client e m ms u p v port sa \<longleftrightarrow>
     length ms \<le> 255 \<and> set ms \<subseteq> {NoAuth, AuthGSSAPI, AuthLoginPass} \<and> AuthLoginPass \<in> set ms \<and>
     length u \<le> 255 \<and> length p \<le> 255 \<and> m u = Some p \<and> wire_variant v \<and>
     convertAddrToStorage (env_order e) \<lparr>addr_type = variant_type v, addr_addr = v, addr_port = port\<rparr>
       = Inr (Some sa)"

definition good_env :: "env \<Rightarrow> bool" where
  "good_env e \<longleftrightarrow> typed_env e \<and> env_bev_new e \<and> (\<forall>c buf. env_add_ok e c buf) \<and>
     (\<forall>c sa. env_connect_ok e c sa)"

lemma good_plain_env [simp]: "good_env plain_env"
  by (simp add: good_env_def)

lemma good_envD:
  assumes "good_env e"
  shows "typed_env e" "env_bev_new e" "env_add_ok e c buf" "env_connect_ok e c sa"
  using assms by (auto simp: good_env_def)

lemma good_clientD:
  assumes "good_client e m ms u p v port sa"
  shows "decodeGreeting (greetingWire ms) newGreetingMsg = Inr (True, \<lparr>gm_version = Version5, gm_authMethods = ms\<rparr>)"
    "AuthLoginPass \<in> set ms"
    "decodeUserPass (userPassWire u p) newUserPassAuthMsg = Inr (True, \<lparr>up_user = u, up_password = p\<rparr>)"
    "authUserPassword m u p"
    "decodeCommand bo (commandWire bo TCPStream v port) newCommandMsg = Inr (True,
       \<lparr>cm_version = Version5, cm_command = TCPStream, cm_addrType = variant_type v, cm_addr = v, cm_port = port\<rparr>)"
    "convertAddrToStorage (env_order e) \<lparr>addr_type = variant_type v, addr_addr = v, addr_port = port\<rparr>
       = Inr (Some sa)"
  using assms decodeCommand_wire [of TCPStream v bo port newCommandMsg]
  by (auto simp: good_client_def greeting_iff userPass_iff authUserPassword_def isCommandExist_def)

lemma step_reachable:
  assumes "reachable m h w" "handle e ev w = Inr w'" "possible w ev" "typed_env e"
  shows "reachable m (h @ [(e, ev)]) w'"
  using reach_step [OF assms(1,3,4,2)] .

lemma world_ok_step:
  assumes "world_ok w" "possible w ev" "typed_env e" "handle e ev w = Inr w'" "event_conn ev = Some c"
  shows "world_ok w'"
  using handle_conn [OF assms(1-3,5)] assms(4) moves_to_world_ok [OF _ assms(1)] by simp

text \<open>The server can take one more client.\<close>

definition room :: "world \<Rightarrow> bool" where
  "room w \<longleftrightarrow> world_ok w \<and> mng_sessions w (mng_currentId w) = None"

lemma room_newServer [simp]: "room (newServer m)"
  by (simp add: room_def newServer_ok)

lemma reachable_room:
  assumes "reachable m h w" and "accepts h < 2 ^ 32"
  shows "room w"
  using reachable_invariant [OF assms(1)] ids_free [OF _ assms(2)] assms(2) by (auto simp: room_def)

text \<open>The handlers along the run, and the invariant in each world.\<close>

lemma run_accept:
  assumes "good_env e" "room w"
  shows "handle e Accepted w = Inr (accepted_world w) \<and> world_ok (accepted_world w)"
  using assms good_envD(2) accepted_world_ok by (simp add: room_def accept_result)

lemma run_greeting:
  assumes e: "good_env e" and w: "room w" and g: "good_client e (mng_logins w) ms u p v port sa"
  shows "handle e (Readable (next_sock w) (Some (greetingWire ms)) (length (greetingWire ms)))
      (accepted_world w) = Inr (greeted_world w) \<and> world_ok (greeted_world w)"
proof -
  have ok: "world_ok (accepted_world w)"
    using run_accept [OF e w] by simp
  from step_greeting [OF ok accepted_client new_client_sels(1) good_clientD(1) [OF g]]
  have r: "handle e (Readable (next_sock w) (Some (greetingWire ms)) (length (greetingWire ms)))
      (accepted_world w) = Inr (greeted_world w)"
    using good_clientD(2) [OF g] good_envD [OF e] by (simp add: greeted_world_def client_world_def new_client_def)
  with world_ok_step [OF ok _ good_envD(1) [OF e] r] show ?thesis by simp
qed

lemma run_login:
  assumes e: "good_env e" and w: "room w" and g: "good_client e (mng_logins w) ms u p v port sa"
  shows "handle e (Readable (next_sock w) (Some (userPassWire u p)) (length (userPassWire u p)))
      (greeted_world w) = Inr (logged_in_world w) \<and> world_ok (logged_in_world w)"
proof -
  have ok: "world_ok (greeted_world w)"
    using run_greeting [OF e w g] by simp
  have "s_machine ((new_client w)\<lparr>s_machine := WaitForPassAuth\<rparr>) = WaitForPassAuth"
    by simp
  from step_login [OF ok life_sels(1) this good_clientD(3) [OF g]]
  have r: "handle e (Readable (next_sock w) (Some (userPassWire u p)) (length (userPassWire u p)))
      (greeted_world w) = Inr (logged_in_world w)"
    using good_clientD(4) [OF g] good_envD [OF e] by (simp add: logged_in_world_def client_world_def)
  with world_ok_step [OF ok _ good_envD(1) [OF e] r] show ?thesis by simp
qed

lemma run_command:
  assumes e: "good_env e" and w: "room w" and g: "good_client e (mng_logins w) ms u p v port sa"
    and addr: "addr = \<lparr>addr_type = variant_type v, addr_addr = v, addr_port = port\<rparr>"
  shows "handle e (Readable (next_sock w) (Some (commandWire (env_order e) TCPStream v port))
        (length (commandWire (env_order e) TCPStream v port))) (logged_in_world w) =
      Inr (connecting_world w addr sa) \<and> world_ok (connecting_world w addr sa)"
proof -
  have ok: "world_ok (logged_in_world w)"
    using run_login [OF e w g] by simp
  have "s_machine ((new_client w)\<lparr>s_machine := WaitForCommand\<rparr>) = WaitForCommand"
    by simp
  from step_command [OF ok life_sels(2) this good_clientD(5) [OF g, of "env_order e"]]
  have r: "handle e (Readable (next_sock w) (Some (commandWire (env_order e) TCPStream v port))
        (length (commandWire (env_order e) TCPStream v port))) (logged_in_world w) =
      Inr (connecting_world w addr sa)"
    using good_clientD(6) [OF g] good_envD [OF e]
    by (simp add: connecting_world_def command_address_def addr)
  with world_ok_step [OF ok _ good_envD(1) [OF e] r] show ?thesis by simp
qed

lemma connecting_possible: "possible (connecting_world w addr sa) (SockEvent (next_sock w + 1) BEV_EVENT_CONNECTED)"
  using life_sels(9,10) [of w addr sa] by auto

lemma run_connected:
  assumes e: "good_env e" and w: "room w" and g: "good_client e (mng_logins w) ms u p v port sa"
    and addr: "addr = \<lparr>addr_type = variant_type v, addr_addr = v, addr_port = port\<rparr>"
    and l: "getAddress (env_order e) (env_sockname e (next_sock w + 1)) = Inr l"
    and r: "getAddress (env_order e) (env_peername e (next_sock w + 1)) = Inr r"
  shows "handle e (SockEvent (next_sock w + 1) BEV_EVENT_CONNECTED) (connecting_world w addr sa) =
      Inr (proxied_world (env_order e) w addr sa l r) \<and>
    world_ok (proxied_world (env_order e) w addr sa l r)"
proof -
  have ok: "world_ok (connecting_world w addr sa)"
    using run_command [OF e w g addr] by simp
  have wc: "s_machine (waiting_of w) = WaitForProxyStart" "s_outConn (waiting_of w) = Some (next_sock w + 1)"
      "s_proxy (waiting_of w) = None" and in0: "s_inConn (waiting_of w) = next_sock w"
    by (simp_all add: waiting_of_def)
  have s0: "socks (connecting_world w addr sa) (s_inConn (waiting_of w)) = Some (client_sock_of 2 (UTracker (next_session w)))"
    by (simp add: in0)
  from step_connected [OF ok life_sels(3) wc s0 life_sels(9) l r good_envD(1) [OF e] good_envD(3) [OF e]]
  have r: "handle e (SockEvent (next_sock w + 1) BEV_EVENT_CONNECTED) (connecting_world w addr sa) =
      Inr (proxied_world (env_order e) w addr sa l r)"
    by (simp add: proxied_world_def in0 Let_def del: handle.simps)
  from r world_ok_step [OF ok connecting_possible good_envD(1) [OF e] r, of "next_sock w + 1"] show ?thesis by simp
qed

lemma served_proxying:
  assumes "world_ok (proxied_world bo w addr sa l r)"
  shows "proxying (proxied_world bo w addr sa l r) (next_session w) (served_of w) (next_sock w + 1)"
  using world_okD(1) [OF assms, of "next_session w" "served_of w"] by (simp add: proxying_def)

section \<open>Reachability\<close>

lemma reachable_run:
  assumes h: "reachable m h w" "room w"
    and e: "good_env e" and g: "good_client e (mng_logins w) ms u p v port sa"
    and addr: "addr = \<lparr>addr_type = variant_type v, addr_addr = v, addr_port = port\<rparr>"
  shows "reachable m (h @ take 1 (client_run e (next_sock w) ms u p v port)) (accepted_world w)"
    "reachable m (h @ take 2 (client_run e (next_sock w) ms u p v port)) (greeted_world w)"
    "reachable m (h @ take 3 (client_run e (next_sock w) ms u p v port)) (logged_in_world w)"
    "reachable m (h @ take 4 (client_run e (next_sock w) ms u p v port)) (connecting_world w addr sa)"
proof -
  note typed = good_envD(1) [OF e]
  have p: "possible (accepted_world w) (Readable (next_sock w) i n)" "possible (greeted_world w) (Readable (next_sock w) i n)"
    "possible (logged_in_world w) (Readable (next_sock w) i n)" for i n
    by simp_all
  note 1 = step_reachable [OF h(1) run_accept [OF e h(2), THEN conjunct1] _ typed]
  then show "reachable m (h @ take 1 (client_run e (next_sock w) ms u p v port)) (accepted_world w)"
    by (simp add: client_run_def)
  note 2 = step_reachable [OF 1 run_greeting [OF e h(2) g, THEN conjunct1] p(1) typed]
  then show "reachable m (h @ take 2 (client_run e (next_sock w) ms u p v port)) (greeted_world w)"
    by (simp add: client_run_def numeral_eq_Suc)
  note 3 = step_reachable [OF 2 run_login [OF e h(2) g, THEN conjunct1] p(2) typed]
  then show "reachable m (h @ take 3 (client_run e (next_sock w) ms u p v port)) (logged_in_world w)"
    by (simp add: client_run_def numeral_eq_Suc)
  from step_reachable [OF 3 run_command [OF e h(2) g addr, THEN conjunct1] p(3) typed]
  show "reachable m (h @ take 4 (client_run e (next_sock w) ms u p v port)) (connecting_world w addr sa)"
    by (simp add: client_run_def numeral_eq_Suc)
qed

lemma reachable_proxied:
  assumes h: "reachable m h w" "room w"
    and e: "good_env e" and g: "good_client e (mng_logins w) ms u p v port sa"
    and addr: "addr = \<lparr>addr_type = variant_type v, addr_addr = v, addr_port = port\<rparr>"
    and l: "getAddress (env_order e) (env_sockname e (next_sock w + 1)) = Inr l"
    and r: "getAddress (env_order e) (env_peername e (next_sock w + 1)) = Inr r"
  shows "reachable m (h @ client_run e (next_sock w) ms u p v port) (proxied_world (env_order e) w addr sa l r)"
proof -
  from step_reachable [OF reachable_run(4) [OF h e g addr] run_connected [OF e h(2) g addr l r, THEN conjunct1]
      connecting_possible good_envD(1) [OF e]]
  show ?thesis by (simp add: client_run_def numeral_eq_Suc)
qed

lemma accepts_take: "accepts (take n h) \<le> accepts h"
proof -
  have "accepts (take n h @ drop n h) = accepts (take n h) + accepts (drop n h)"
    unfolding accepts_def filter_append length_append ..
  then show ?thesis by (simp only: append_take_drop_id)
qed

lemma accepts_client_run: "accepts (take n (client_run e c ms u p v port)) \<le> 1"
  by (rule order_trans [OF accepts_take]) (simp add: accepts_def client_run_def)

section \<open>The first client of a fresh server\<close>

definition first_client :: session where
  "first_client = \<lparr>s_id = 0, s_inConn = 0, s_outConn = None, s_trackerConn = 0,
     s_machine = WaitForGreeting, s_proxy = None\<rparr>"

definition waiting_client :: session where
  "waiting_client = first_client\<lparr>s_machine := WaitForProxyStart, s_outConn := Some 1\<rparr>"

definition served_client :: session where
  "served_client = waiting_client\<lparr>s_machine := ProxyStarted, s_proxy := Some \<lparr>p_main = 0, p_out = 1\<rparr>\<rparr>"

lemma first_eq: "new_client (newServer m) = first_client" "waiting_of (newServer m) = waiting_client"
  "served_of (newServer m) = served_client"
  by (simp_all add: new_client_def first_client_def waiting_of_def waiting_client_def served_of_def served_client_def)

lemma scenario_sels [simp]:
  "sessions (accepted_world (newServer m)) 0 = Some first_client"
  "sessions (greeted_world (newServer m)) 0 = Some (first_client\<lparr>s_machine := WaitForPassAuth\<rparr>)"
  "sessions (logged_in_world (newServer m)) 0 = Some (first_client\<lparr>s_machine := WaitForCommand\<rparr>)"
  "sessions (connecting_world (newServer m) addr sa) 0 = Some waiting_client"
  using life_sels(1-3) [of "newServer m"] by (simp_all only: first_eq newServer_sels) (simp add: first_client_def)


abbreviation (input) demo_logins :: logins where "demo_logins \<equiv> [[104] \<mapsto> [116]]"
abbreviation (input) demo_v :: SocksVariantAddress where "demo_v \<equiv> SocksIPv4Address [10, 0, 0, 1]"

definition demo_run :: "(env \<times> event) list" where
  "demo_run = client_run plain_env 0 [0, 2] [104] [116] demo_v 80"

definition demo_target :: sockaddr where
  "demo_target = SockAddrIn 80 (load32 LittleEndian [10, 0, 0, 1])"

definition demo_addr :: SocksAddress where
  "demo_addr = \<lparr>addr_type = variant_type demo_v, addr_addr = demo_v, addr_port = 80\<rparr>"

definition demo_local :: SocksAddress where
  "demo_local = \<lparr>addr_type = 1, addr_addr = SocksIPv4Address (store32 LittleEndian (ntohl LittleEndian 0)),
     addr_port = ntohs LittleEndian 80\<rparr>"

lemma demo_client: "good_client plain_env demo_logins [0, 2] [104] [116] demo_v 80 demo_target"
  by (simp add: good_client_def convertAddrToStorage_def demo_target_def)

lemma demo_local_address:
  "getAddress (env_order plain_env) (env_sockname plain_env 1) = Inr demo_local"
  "getAddress (env_order plain_env) (env_peername plain_env 1) = Inr demo_local"
  by (simp_all add: getAddress_def demo_local_def Let_def)

abbreviation (input) demo_server :: world where "demo_server \<equiv> newServer demo_logins"

lemmas demo_reachable =
  reachable_run [OF reach_init room_newServer good_plain_env, of demo_logins, simplified newServer_sels append_Nil,
    OF demo_client demo_addr_def, folded demo_run_def]
  reachable_proxied [OF reach_init room_newServer good_plain_env, of demo_logins, simplified newServer_sels append_Nil add_0,
    OF demo_client demo_addr_def demo_local_address, folded demo_run_def]

lemma demo_accepts [simp]: "accepts (take n demo_run) \<le> 2 ^ 32" "accepts (take n demo_run) < 2 ^ 32"
  "accepts demo_run \<le> 2 ^ 32"
proof -
  show "accepts (take n demo_run) \<le> 2 ^ 32" "accepts (take n demo_run) < 2 ^ 32"
    using accepts_client_run [of n plain_env 0 "[0, 2]" "[104]" "[116]" demo_v 80]
    by (simp_all add: demo_run_def)
  show "accepts demo_run \<le> 2 ^ 32"
    by (simp add: demo_run_def accepts_def client_run_def)
qed

definition demo_served :: world where
  "demo_served = proxied_world LittleEndian (newServer demo_logins) demo_addr demo_target demo_local demo_local"

lemma demo_served_reachable: "reachable demo_logins demo_run demo_served" "accepts demo_run \<le> 2 ^ 32"
  using demo_reachable(5) demo_accepts(3) by (simp_all add: demo_served_def)

lemma demo_served_session: "sessions demo_served 0 = Some served_client"
  by (simp add: demo_served_def first_eq)

lemma demo_served_client: "s_machine served_client = ProxyStarted" "s_outConn served_client = Some 1"
  "s_inConn served_client = 0" "s_id served_client = 0"
  by (simp_all add: served_client_def waiting_client_def first_client_def)

end
