(* ===== verification/Behaviour.thy ===== *)
theory Behaviour
  imports Scenario
begin

text \<open>
  The properties of the running server: a whole session from accept to close, a wrong login, the ends of
  connections, and what happens when the identifiers of the sessions wrap.
\<close>

section \<open>A whole session\<close>

text \<open>
  \<open>traffic_event e c (True, buf)\<close>: data of the client, whose connection is \<open>c\<close>; otherwise data of the
  other side, whose connection is the next one. \<open>traffic_call\<close> is how it is passed on.
\<close>

definition traffic_event :: "env \<Rightarrow> nat \<Rightarrow> bool \<times> bytes \<Rightarrow> env \<times> event" where
  "traffic_event e c d = (e, Readable (if fst d then c else c + 1) (Some (snd d)) (length (snd d)))"

definition traffic_call :: "nat \<Rightarrow> bool \<times> bytes \<Rightarrow> ext_call" where
  "traffic_call c d = XQueue (if fst d then c + 1 else c) (snd d)"

text \<open>
  The flags of an event that reports the end of a connection, by EOF or by an error; others may be set, such
  as that for reading or writing.
\<close>

definition closing :: "u16 \<Rightarrow> bool" where
  "closing events \<longleftrightarrow> events AND BEV_EVENT_CONNECTED = 0 \<and>
     (events AND BEV_EVENT_EOF \<noteq> 0) \<noteq> (events AND BEV_EVENT_ERROR \<noteq> 0)"

lemma handle_closed: "socks w c \<noteq> None \<Longrightarrow> closing events \<Longrightarrow> handle e (SockEvent c events) w = es_closed c w"
  using handle_closing [of w c events e] by (auto simp: closing_def simp del: handle.simps)

lemma run_traffic:
  assumes "proxying w a s (c + 1)" and "s_inConn s = c" and "good_env e"
  shows "run (map (traffic_event e c) data) w = Inr (w\<lparr>calls := calls w @ map (traffic_call c) data\<rparr>)"
  using assms(1)
proof (induction data arbitrary: w)
  case (Cons d data)
  have "handle e (snd (traffic_event e c d)) w = Inr (w\<lparr>calls := calls w @ [traffic_call c d]\<rparr>)"
    using step_relay [OF Cons.prems, of e "snd d"] good_envD(3) [OF assms(3)] assms(2)
    by (simp add: traffic_event_def traffic_call_def queued_def del: handle.simps)
  moreover have "proxying (w\<lparr>calls := calls w @ [traffic_call c d]\<rparr>) a s (c + 1)"
    using Cons.prems by (simp add: proxying_def)
  ultimately show ?case
    using Cons.IH by (simp add: traffic_event_def del: handle.simps)
qed simp

lemma run_append: "run (h @ h') w = andThen (run h w) (run h')"
  by (induction h arbitrary: w) (auto simp: andThen_def split: sum.splits)

lemma run_handshake:
  assumes e: "good_env e" and w: "room w" and g: "good_client e (mng_logins w) ms u p v port sa"
    and l: "getAddress (env_order e) (env_sockname e (next_sock w + 1)) = Inr l"
    and r: "getAddress (env_order e) (env_peername e (next_sock w + 1)) = Inr r"
  shows "run (client_run e (next_sock w) ms u p v port) w = Inr (proxied_world (env_order e) w
    \<lparr>addr_type = variant_type v, addr_addr = v, addr_port = port\<rparr> sa l r)"
  using run_accept [OF e w] run_greeting [OF e w g] run_login [OF e w g] run_command [OF e w g refl]
    run_connected [OF e w g refl l r]
  by (simp add: client_run_def del: handle.simps)

text \<open>The end of a served session, in the world of its handshake with other calls.\<close>

lemma served_ends:
  assumes "w' = kill (next_session w) (served_of w) (disconnected (next_sock w + 1)
      ((proxied_world bo w addr sa l r)\<lparr>calls := cs\<rparr>))"
    and "room w"
  shows "w' = w\<lparr>srv_connections := (srv_connections w)(next_session w \<mapsto> None), next_sock := next_sock w + 2,
      next_session := next_session w + 1, mng_currentId := mng_currentId w + 1,
      calls := cs @ [XDisable (next_sock w + 1), XCloseSocket (next_sock w + 1),
        XFreeBev (next_sock w + 1), XFreeBev (next_sock w)]\<rparr>"
proof -
  have "socks w (next_sock w) = None" "socks w (next_sock w + 1) = None" "sessions w (next_session w) = None"
    "mng_sessions w (mng_currentId w) = None"
    using assms(2) world_okD(5,6) [of w] by (simp_all add: room_def)
  then show ?thesis
    unfolding assms(1)
    by (intro world.equality) (simp_all add: kill_def kill_calls_def disconnected_def fun_eq_iff)
qed



section \<open>Data from the client\<close>

text \<open>
  C22: a login the file does not contain is answered with status 1, and that is the end: the
  session and its connection are gone.
\<close>

theorem wrong_login_ends_session:
  assumes "reachable m h w" and "accepts h \<le> 2 ^ 32" and "env_add_ok e (s_inConn s) [Version5, 1]"
    and "sessions w a = Some s" and "s_machine s = WaitForPassAuth"
    and "length u \<le> 255" and "length p \<le> 255" and "m u \<noteq> Some p"
  shows "\<exists>w'. handle e (Readable (s_inConn s) (Some (userPassWire u p)) (length (userPassWire u p))) w = Inr w' \<and>
    sessions w' a = None \<and> mng_sessions w' (s_id s) = None \<and> socks w' (s_inConn s) = None \<and>
    new_calls w w' = [XQueue (s_inConn s) [Version5, 1], XFreeBev (s_inConn s)]"
proof -
  have ok: "world_ok w" and m: "mng_logins w = m"
    using reachable_invariant [OF assms(1,2)] by auto
  have dec: "decodeUserPass (userPassWire u p) newUserPassAuthMsg = Inr (True, \<lparr>up_user = u, up_password = p\<rparr>)"
    using assms(6,7) by (auto simp: userPass_iff)
  have auth: "\<not> authUserPassword (mng_logins w) u p"
    using assms(8) m by (auto simp: authUserPassword_def split: option.splits)
  have out: "s_outConn s = None"
    using unproxied(2) [OF ok assms(4)] assms(5) by simp
  have r: "handle e (Readable (s_inConn s) (Some (userPassWire u p)) (length (userPassWire u p))) w =
      Inr (kill a s (queued (s_inConn s) [Version5, 1] w))"
    using step_wrong_login [OF ok assms(4,5) dec _ assms(3)] auth by simp
  let ?w' = "kill a s (queued (s_inConn s) [Version5, 1] w)"
  have "sessions ?w' a = None \<and> mng_sessions ?w' (s_id s) = None \<and> socks ?w' (s_inConn s) = None \<and>
      new_calls w ?w' = [XQueue (s_inConn s) [Version5, 1], XFreeBev (s_inConn s)]"
    using out by (simp add: socks_kill owns_def new_calls_def kill_def kill_calls_def)
  with r show ?thesis by blast
qed

theorem wrong_login_ends_session_witness:
  "\<exists>w'. handle plain_env (Readable 0 (Some (userPassWire [104] [117])) (length (userPassWire [104] [117])))
      (greeted_world demo_server) = Inr w' \<and> sessions w' 0 = None \<and> mng_sessions w' 0 = None"
proof -
  have s: "s_inConn first_client = 0" "s_id first_client = 0"
    by (simp_all add: first_client_def)
  show ?thesis
    using wrong_login_ends_session [OF demo_reachable(2) demo_accepts(1) _ scenario_sels(2), of plain_env "[104]" "[117]"]
    by (fastforce simp: s simp del: handle.simps)
qed

section \<open>The end of a connection\<close>

text \<open>
  C19: when the client's connection ends, or either connection of a served session, the callback
  ends the session and frees all it had: the session, its table entry and every connection it
  owned, each of them given back to libevent exactly once. The end is an event with one of the flags for EOF and for
  an error, whatever else is set with it but the flag for an established connection.
\<close>

theorem closing_frees_session:
  assumes "reachable m h w" and "accepts h \<le> 2 ^ 32"
    and "sessions w a = Some s" and "owns s c" and "c = s_inConn s \<or> s_proxy s \<noteq> None"
    and "events AND BEV_EVENT_CONNECTED = 0"
    and "(events AND BEV_EVENT_EOF \<noteq> 0) \<noteq> (events AND BEV_EVENT_ERROR \<noteq> 0)"
  shows "\<exists>w'. handle e (SockEvent c events) w = Inr w' \<and>
    sessions w' a = None \<and> mng_sessions w' (s_id s) = None \<and>
    (\<forall>d. owns s d \<longrightarrow> socks w' d = None \<and> count_list (new_calls w w') (XFreeBev d) = 1)"
proof -
  have ok: "world_ok w"
    using reachable_ok [OF assms(1,2)] .
  have mem: "mem_ok w a s"
    using world_okD(1) [OF ok assms(3)] .
  have ne: "s_outConn s \<noteq> Some (s_inConn s)"
    using mem by (auto simp: mem_ok_def out_ok_def)
  have free: "\<exists>cs. calls (disconnected d w) = calls w @ cs \<and> (\<forall>c. count_list cs (XFreeBev c) = 0)" for d
    by (auto simp: disconnected_def split: option.splits)
  define v where "v = (if s_proxy s = None then w else case s_outConn s of None \<Rightarrow> w | Some d \<Rightarrow> disconnected d w)"
  have v: "es_closed c w = Inr (kill a s v)"
    using closed_result [OF ok assms(3,4)] assms(5) by (auto simp: v_def)
  have "\<exists>cs. calls v = calls w @ cs \<and> (\<forall>c. count_list cs (XFreeBev c) = 0)"
    using free by (cases "s_proxy s"; cases "s_outConn s") (simp_all add: v_def)
  then obtain cs where cs: "calls v = calls w @ cs" "\<And>c. count_list cs (XFreeBev c) = 0"
    by blast
  have live: "socks w c \<noteq> None"
    using owned_sock [OF mem assms(4)] by auto
  have "handle e (SockEvent c events) w = es_closed c w"
    using handle_closed [OF live] assms(6,7) by (simp add: closing_def del: handle.simps)
  moreover have "count_list (new_calls w (kill a s v)) (XFreeBev d) = 1" if "owns s d" for d
    using that cs ne by (auto simp: new_calls_def kill_def kill_calls_def owns_def split: option.splits)
  ultimately show ?thesis
    using v by (auto simp: socks_kill simp del: handle.simps)
qed

text \<open>The end of a stream as libevent reports it while reading, and an error while writing.\<close>

theorem closing_frees_session_witness:
  "(\<exists>w'. handle plain_env (SockEvent 1 0x11) demo_served = Inr w' \<and> sessions w' 0 = None \<and>
     mng_sessions w' 0 = None \<and> socks w' 0 = None \<and> socks w' 1 = None) \<and>
   (\<exists>w'. handle plain_env (SockEvent 0 0x22) demo_served = Inr w' \<and> sessions w' 0 = None)"
proof -
  have own: "owns served_client 0" "owns served_client 1" and p: "s_proxy served_client \<noteq> None"
    by (simp_all add: owns_def demo_served_client) (simp add: served_client_def)
  note ending = closing_frees_session [OF demo_served_reachable demo_served_session _ disjI2 [OF p], of _ _ plain_env]
  show ?thesis
    using ending [OF own(2), of "0x11"] ending [OF own(1), of "0x22"] own
    by (fastforce simp: demo_served_client(4) simp del: handle.simps)
qed

text \<open>
  When the outgoing connection fails before it is established, nobody is told: the session
  stays as it is, waiting for a connection that will not come, and nothing is sent to the client.
\<close>

theorem failed_connect_is_silent:
  assumes "reachable m h w" and "accepts h \<le> 2 ^ 32"
    and "sessions w a = Some s" and "s_machine s = WaitForProxyStart" and "s_outConn s = Some c"
    and "closing events"
  shows "\<exists>w'. handle e (SockEvent c events) w = Inr w' \<and> sessions w' = sessions w \<and>
    mng_sessions w' = mng_sessions w \<and> socks w' (s_inConn s) = socks w (s_inConn s) \<and>
    (\<forall>d buf. XQueue d buf \<notin> set (new_calls w w'))"
proof -
  have ok: "world_ok w"
    using reachable_ok [OF assms(1,2)] .
  have mem: "mem_ok w a s" and np: "s_proxy s = None"
    using world_okD(1,2) [OF ok assms(3)] assms(4) by (auto simp: session_phase_def)
  have own: "owns s c" and ne: "c \<noteq> s_inConn s"
    using mem assms(5) by (auto simp: owns_def mem_ok_def out_ok_def)
  have live: "socks w c \<noteq> None"
    using owned_sock [OF mem own] by auto
  have "handle e (SockEvent c events) w = Inr (disconnected c w)"
    using handle_closed [OF live assms(6)] closed_result [OF ok assms(3) own] np ne
    by (auto simp del: handle.simps)
  moreover have "XQueue d buf \<notin> set (new_calls w (disconnected c w))" for d buf
    by (auto simp: new_calls_def disconnected_def split: option.splits)
  ultimately show ?thesis
    using ne by (auto simp: socks_disconnected simp del: handle.simps)
qed

theorem failed_connect_is_silent_witness:
  "\<exists>w'. handle plain_env (SockEvent 1 BEV_EVENT_ERROR) (connecting_world demo_server demo_addr demo_target) = Inr w' \<and>
     sessions w' = sessions (connecting_world demo_server demo_addr demo_target)"
proof -
  have "s_machine waiting_client = WaitForProxyStart" "s_outConn waiting_client = Some 1"
    by (simp_all add: waiting_client_def)
  from failed_connect_is_silent [OF demo_reachable(4) demo_accepts(1) scenario_sels(4) this, of BEV_EVENT_ERROR plain_env]
  show ?thesis by (simp add: closing_def del: handle.simps) blast
qed

section \<open>Examples for the safety properties\<close>

theorem connect_requires_login_witness:
  "started_by demo_logins (take 3 demo_run) plain_env
     (Readable 0 (Some (commandWire LittleEndian TCPStream demo_v 80))
        (length (commandWire LittleEndian TCPStream demo_v 80))) demo_target"
proof (rule connect_requires_login [OF demo_reachable(3) demo_accepts(2)])
  show "handle plain_env (Readable 0 (Some (commandWire LittleEndian TCPStream demo_v 80))
        (length (commandWire LittleEndian TCPStream demo_v 80))) (logged_in_world demo_server) =
      Inr (connecting_world demo_server demo_addr demo_target)"
    using run_command [OF good_plain_env room_newServer, of demo_logins, simplified newServer_sels,
        OF demo_client demo_addr_def] by simp
  show "possible (logged_in_world demo_server) (Readable 0 (Some (commandWire LittleEndian TCPStream demo_v 80))
        (length (commandWire LittleEndian TCPStream demo_v 80)))"
    by (simp add: logged_in_world_def greeted_world_def client_world_def)
  show "XConnect 1 demo_target \<in> set (calls (connecting_world demo_server demo_addr demo_target))"
    by simp
  show "XConnect 1 demo_target \<notin> set (calls (logged_in_world demo_server))"
    by (simp add: logged_in_world_def greeted_world_def client_world_def)
qed simp

text \<open>Two clients; the first one sends an empty buffer and is dropped.\<close>

lemma two_clients:
  "reachable m [(plain_env, Accepted), (plain_env, Accepted)] (accepted_world (accepted_world (newServer m)))"
proof -
  let ?w = "accepted_world (newServer m)"
  have "mng_sessions ?w (mng_currentId ?w) = None"
    by simp
  then have "handle plain_env Accepted ?w = Inr (accepted_world ?w)"
    by (simp add: accept_result)
  from step_reachable [OF reachable_accepted this] show ?thesis by simp
qed

theorem sessions_are_isolated_witness:
  "\<exists>w'. handle plain_env (Readable 0 (Some []) 0) (accepted_world (accepted_world (newServer Map.empty))) = Inr w' \<and>
     sessions w' 0 = None \<and>
     sessions w' 1 = Some \<lparr>s_id = 1, s_inConn = 1, s_outConn = None, s_trackerConn = 1,
       s_machine = WaitForGreeting, s_proxy = None\<rparr>"
proof -
  let ?w = "accepted_world (accepted_world (newServer Map.empty))"
  let ?t = "\<lparr>s_id = 1, s_inConn = 1, s_outConn = None, s_trackerConn = 1, s_machine = WaitForGreeting, s_proxy = None\<rparr>"
  have acc: "accepts [(plain_env, Accepted), (plain_env, Accepted)] \<le> 2 ^ 32"
    by (simp add: accepts_def)
  have ok: "world_ok ?w"
    by (rule reachable_ok [OF two_clients acc])
  have s: "sessions ?w 0 = Some first_client" "s_inConn first_client = 0" "s_proxy first_client = None"
      "s_machine first_client = WaitForGreeting"
    by (simp_all add: first_client_def)
  have "decodeGreeting [] newGreetingMsg \<noteq> Inr (True, g)" for g
    by (auto simp: greeting_iff greetingWire_def)
  then have "accepted (decodeGreeting [] newGreetingMsg) = None"
    by (cases "accepted (decodeGreeting [] newGreetingMsg)") (auto simp: accepted_eq_Some)
  then have r: "handle plain_env (Readable 0 (Some []) 0) ?w = Inr (kill 0 first_client ?w)"
    using handle_client_data [OF ok s(1,3), of plain_env "[]"] s(2)
      receive_greeting [OF world_okD(1) [OF ok s(1)] s(4), of plain_env "[]"]
    by (simp del: handle.simps)
  have "sessions (kill 0 first_client ?w) 1 = Some ?t"
    using sessions_are_isolated [OF two_clients acc _ _ r, of 0 1 ?t]
    by (simp add: owns_def)
  with r show ?thesis by auto
qed

section \<open>The identifier wraps\<close>

text \<open>
  C25: when the 32-bit counter of the session manager comes back to an identifier that is still in
  use, the older session is deleted while it is served. If it had an outgoing connection, this
  connection is leaked: it stays open, with the server's table as the only pointer to it.
\<close>

theorem reused_identifier_leaks_connection:
  assumes "world_ok w" and "env_bev_new e" and "mng_sessions w (mng_currentId w) = Some b"
    and "sessions w b = Some t" and "s_outConn t = Some c"
  shows "\<exists>w' k. srv_onAcceptConnection e w = Inr w' \<and> sessions w' b = None \<and>
    socks w' (s_inConn t) = None \<and> socks w' c = Some k \<and> es_refs k = 1 \<and>
    srv_connections w' b = Some (Some c)"
proof -
  let ?c = "next_sock w" and ?a = "next_session w" and ?i = "mng_currentId w"
  define k0 where "k0 = \<lparr>es_user = Some (UTracker ?a), es_remote = emptyAddress, es_local = emptyAddress,
      es_connected = False, es_refs = Suc (Suc (Suc 0))\<rparr>"
  define v where "v = w\<lparr>next_sock := Suc ?c, calls := calls w @ [XNewBev ?c],
      mng_currentId := ?i + 1, socks := (socks w)(?c \<mapsto> k0),
      sessions := (sessions w)(?a \<mapsto> \<lparr>s_id = ?i, s_inConn = ?c, s_outConn = None, s_trackerConn = ?c,
        s_machine = WaitForGreeting, s_proxy = None\<rparr>), next_session := Suc ?a,
      mng_sessions := (mng_sessions w)(?i \<mapsto> ?a)\<rparr>"
  have mem: "mem_ok w b t"
    using world_okD(1) [OF assms(1,4)] .
  have below: "d \<noteq> ?c" if "owns t d" for d
    using owned_below_next [OF assms(1,4) that] by auto
  have ne: "b \<noteq> ?a"
    using world_okD(6) [OF assms(1), of b] assms(4) by auto
  have own: "s_inConn t \<noteq> ?c" "c \<noteq> ?c"
    using below assms(5) by (auto simp: owns_def)
  have "mem_ok (v\<lparr>mng_sessions := mng_sessions w\<rparr>) b t"
    using mem below ne
    by (auto simp: v_def mem_ok_def out_ok_def owns_def split: option.splits)
  from session_delete_leaks [OF this assms(5)] obtain v' k where
    v': "session_delete b v = Inr v'" "sessions v' = (sessions v)(b := None)" "socks v' (s_inConn t) = None"
      "socks v' c = Some k" "es_refs k = 1" "srv_connections v' = srv_connections v"
      "socks v' ?c = socks v ?c"
    using own by metis
  have c: "socks v' ?c = Some k0" and srv: "srv_connections v' b = Some (Some c)"
    using v'(6,7) mem assms(5) by (simp_all add: v_def mem_ok_def out_ok_def)
  have "srv_onAcceptConnection e w = andThen (session_delete b v) (ptr_drop ?c)"
    using assms(2,3)
    by (simp add: srv_onAcceptConnection_def es_fromFd_def es_new_def es_enable_def Let_def
        mng_onNewConnection_def session_new_def tracker_new_def v_def k0_def fun_upd_twist)
  moreover have "ptr_drop ?c v' = Inr (v'\<lparr>socks := (socks v')(?c \<mapsto> k0\<lparr>es_refs := es_refs k0 - 1\<rparr>)\<rparr>)"
    by (rule ptr_drop_shared [OF c]) (simp add: k0_def)
  ultimately show ?thesis
    using v'(1-5) srv own by simp
qed

lemma mem_ok_currentId [simp]: "mem_ok (w\<lparr>mng_currentId := i\<rparr>) a s = mem_ok w a s"
  by (simp add: mem_ok_def out_ok_def split: option.splits)

theorem reused_identifier_leaks_connection_witness:
  "\<exists>w' k. srv_onAcceptConnection plain_env (demo_served\<lparr>mng_currentId := 0\<rparr>) = Inr w' \<and>
     sessions w' 0 = None \<and> socks w' 0 = None \<and> socks w' 1 = Some k \<and> es_refs k = 1 \<and>
     srv_connections w' 0 = Some (Some 1)"
proof -
  have "world_ok demo_served"
    by (rule reachable_ok [OF demo_served_reachable])
  then have "world_ok (demo_served\<lparr>mng_currentId := 0\<rparr>)"
    by (simp add: world_ok_def sessions_ok_def table_ok_def socks_owned_def fresh_ok_def
        connects_ok_def)
  moreover have "mng_sessions demo_served 0 = Some 0"
    by (simp add: demo_served_def)
  ultimately show ?thesis
    using reused_identifier_leaks_connection [of "demo_served\<lparr>mng_currentId := 0\<rparr>" plain_env 0 served_client 1]
      demo_served_session demo_served_client
    by simp
qed

end
