(* ===== verification/MemReader.thy ===== *)
theory MemReader
  imports Prelude
begin

text \<open>
  \<open>libratel/MemReader\<close>: a cursor over a block of memory. The pointers \<open>_data\<close> and \<open>_pos\<close> are
  the block and an offset into it; \<open>_size\<close> is the size the caller gave. Offsets and sizes are
  the 64-bit integers the code computes with, so that its checks wrap around as they do there;
  a copy from outside the block is a fault. A value read through a reference parameter is
  returned; where the code leaves the parameter as it was, so does the model.
\<close>

section \<open>64-bit integers in memory\<close>

definition join64 :: "u32 \<Rightarrow> u32 \<Rightarrow> u64" where
  "join64 hi lo = of_nat (unat hi * 4294967296 + unat lo)"

definition hi64 :: "u64 \<Rightarrow> u32" where
  "hi64 x = of_nat (unat x div 4294967296)"

definition lo64 :: "u64 \<Rightarrow> u32" where
  "lo64 x = of_nat (unat x mod 4294967296)"

definition load64 :: "byte_order \<Rightarrow> bytes \<Rightarrow> u64" where
  "load64 bo bs =
     (case bo of LittleEndian \<Rightarrow> join64 (load32 bo (drop 4 bs)) (load32 bo (take 4 bs))
               | BigEndian \<Rightarrow> join64 (load32 bo (take 4 bs)) (load32 bo (drop 4 bs)))"

definition store64 :: "byte_order \<Rightarrow> u64 \<Rightarrow> bytes" where
  "store64 bo x =
     (case bo of LittleEndian \<Rightarrow> store32 bo (lo64 x) @ store32 bo (hi64 x)
               | BigEndian \<Rightarrow> store32 bo (hi64 x) @ store32 bo (lo64 x))"

lemma join64_parts [simp]: "join64 (hi64 x) (lo64 x) = x"
proof (rule unsigned_word_eqI [where 'a = nat])
  have x: "unat x < 18446744073709551616"
    using unsigned_less [of x, where 'a = nat] by simp
  have "unat (hi64 x) = unat x div 4294967296" "unat (lo64 x) = unat x mod 4294967296"
    using x by (simp_all only: hi64_def lo64_def unat_of_nat) simp_all
  then show "unat (join64 (hi64 x) (lo64 x)) = unat x"
    using x by (simp add: join64_def unat_of_nat)
qed

lemma load64_store64 [simp]: "load64 bo (store64 bo x) = x"
  by (simp add: load64_def store64_def split: byte_order.splits)

lemma length_store64 [simp]: "length (store64 bo x) = 8"
  by (simp add: store64_def split: byte_order.splits)

section \<open>The cursor\<close>

record MemReader =
  r_data :: bytes
  r_size :: u64
  r_pos :: u64

definition mr_new :: "bytes \<Rightarrow> u64 \<Rightarrow> MemReader" where
  "mr_new bs n = \<lparr>r_data = bs, r_size = n, r_pos = 0\<rparr>"

definition mr_default :: MemReader where
  "mr_default = mr_new [] 0"

definition mr_setPos :: "u32 \<Rightarrow> MemReader \<Rightarrow> bool \<times> MemReader" where
  "mr_setPos p r =
     (if r_size r < ucast p then (False, r) else (True, r\<lparr>r_pos := ucast p\<rparr>))"

text \<open>\<open>(_pos - _data) + size > _size\<close> is computed in \<open>size_t\<close>; \<open>None\<close> is the result \<open>false\<close>.\<close>

definition mr_readData :: "u64 \<Rightarrow> MemReader \<Rightarrow> (bytes option \<times> MemReader) res" where
  "mr_readData n r =
     (if r_size r < r_pos r + n then Inr (None, r)
      else andThen (vec_range (r_data r) (unat (r_pos r)) (unat n)) (\<lambda>bs.
           Inr (Some bs, r\<lparr>r_pos := r_pos r + n\<rparr>)))"

definition mr_readUint8 :: "byte \<Rightarrow> MemReader \<Rightarrow> (bool \<times> byte \<times> MemReader) res" where
  "mr_readUint8 old r = andThen (mr_readData 1 r) (\<lambda>(got, r').
     Inr (case got of None \<Rightarrow> (False, old, r') | Some bs \<Rightarrow> (True, bs ! 0, r')))"

definition mr_readUint16 ::
    "byte_order \<Rightarrow> u16 \<Rightarrow> MemReader \<Rightarrow> (bool \<times> u16 \<times> MemReader) res" where
  "mr_readUint16 bo old r = andThen (mr_readData 2 r) (\<lambda>(got, r').
     Inr (case got of None \<Rightarrow> (False, old, r') | Some bs \<Rightarrow> (True, load16 bo bs, r')))"

definition mr_readUint32 ::
    "byte_order \<Rightarrow> u32 \<Rightarrow> MemReader \<Rightarrow> (bool \<times> u32 \<times> MemReader) res" where
  "mr_readUint32 bo old r = andThen (mr_readData 4 r) (\<lambda>(got, r').
     Inr (case got of None \<Rightarrow> (False, old, r') | Some bs \<Rightarrow> (True, load32 bo bs, r')))"

definition mr_readUint64 ::
    "byte_order \<Rightarrow> u64 \<Rightarrow> MemReader \<Rightarrow> (bool \<times> u64 \<times> MemReader) res" where
  "mr_readUint64 bo old r = andThen (mr_readData 8 r) (\<lambda>(got, r').
     Inr (case got of None \<Rightarrow> (False, old, r') | Some bs \<Rightarrow> (True, load64 bo bs, r')))"

text \<open>
  \<open>shift\<close> adds two signed 64-bit integers, compares the sum with the unsigned \<open>_size\<close> and moves
  the pointer; a sum outside the signed range is an overflow.
\<close>

definition mr_shift :: "64 word \<Rightarrow> MemReader \<Rightarrow> (bool \<times> MemReader) res" where
  "mr_shift v r =
     (let s = sint (r_pos r) + sint v
      in if s < - (2 ^ 63) \<or> 2 ^ 63 \<le> s then Inl Overflow
         else if r_size r \<le> word_of_int s then Inr (False, r)
         else Inr (True, r\<lparr>r_pos := r_pos r + v\<rparr>))"

definition mr_shiftFromStart :: "u32 \<Rightarrow> MemReader \<Rightarrow> bool \<times> MemReader" where
  "mr_shiftFromStart v r =
     (if r_size r \<le> ucast v then (False, r) else (True, r\<lparr>r_pos := ucast v\<rparr>))"

definition mr_size :: "MemReader \<Rightarrow> u64" where
  "mr_size r = r_size r"

text \<open>The two observers return 32 bits of a 64-bit difference.\<close>

definition mr_getOffset :: "MemReader \<Rightarrow> u32" where
  "mr_getOffset r = ucast (r_pos r)"

definition mr_getRemainingSize :: "MemReader \<Rightarrow> u32" where
  "mr_getRemainingSize r = ucast (r_size r - r_pos r)"

definition mr_getPos :: "MemReader \<Rightarrow> u64" where
  "mr_getPos r = r_pos r"

section \<open>Bounds\<close>

text \<open>
  What a caller provides: the size is that of the block, and a block is smaller than
  \<open>PTRDIFF_MAX\<close>, as every C++ object is.
\<close>

definition mr_ok :: "MemReader \<Rightarrow> bool" where
  "mr_ok r \<longleftrightarrow> length (r_data r) = unat (r_size r) \<and> r_pos r \<le> r_size r \<and>
     unat (r_size r) < 2 ^ 63"

lemma mr_ok_new: "length bs = unat n \<Longrightarrow> unat n < 2 ^ 63 \<Longrightarrow> mr_ok (mr_new bs n)"
  by (simp add: mr_ok_def mr_new_def)

lemma unat_add64:
  "unat (a + b :: u64) =
     (if 2 ^ 64 \<le> unat a + unat b then unat a + unat b - 2 ^ 64 else unat a + unat b)"
proof (cases "2 ^ 64 \<le> unat a + unat b")
  case True
  moreover have "unat a < 2 ^ 64" "unat b < 2 ^ 64"
    using unsigned_less [of a, where 'a = nat] unsigned_less [of b, where 'a = nat] by simp_all
  ultimately show ?thesis
    by (simp add: unat_word_ariths mod_if)
next
  case False
  then show ?thesis
    by (simp add: unat_word_ariths)
qed

lemma readData_result:
  assumes "mr_ok r"
  shows "mr_readData n r =
    (if 2 ^ 64 \<le> unat (r_pos r) + unat n then Inl OutOfBounds
     else if unat (r_size r) < unat (r_pos r) + unat n then Inr (None, r)
     else Inr (Some (take (unat n) (drop (unat (r_pos r)) (r_data r))),
               r\<lparr>r_pos := r_pos r + n\<rparr>))"
  using assms unsigned_less [of n, where 'a = nat]
  by (auto simp: mr_readData_def mr_ok_def word_le_nat_alt word_less_nat_alt unat_add64
      vec_range_def split: if_splits)

lemma readData_ok:
  assumes "mr_ok r" "mr_readData n r = Inr (got, r')"
  shows "mr_ok r'"
  using assms by (auto simp: readData_result mr_ok_def word_le_nat_alt unat_add64 split: if_splits)

text \<open>Reading what lies at the cursor, for the sizes the program asks for.\<close>

lemma readData_at:
  assumes "mr_ok r" "drop (unat (r_pos r)) (r_data r) = bs @ rest" "length bs = unat n"
  shows "mr_readData n r = Inr (Some bs, r\<lparr>r_pos := r_pos r + n\<rparr>)"
proof -
  have "unat (r_pos r) \<le> unat (r_size r)" "length (r_data r) = unat (r_size r)"
    using assms(1) by (simp_all add: mr_ok_def word_le_nat_alt)
  moreover from this have "unat (r_size r) - unat (r_pos r) = unat n + length rest"
    using arg_cong [OF assms(2), of length] assms(3) by simp
  ultimately show ?thesis
    using assms(1) by (auto simp: readData_result [OF assms(1)] assms(2,3) mr_ok_def)
qed

text \<open>What is left to read, and the cursor after \<open>k\<close> more bytes.\<close>

definition mr_rest :: "MemReader \<Rightarrow> bytes" where
  "mr_rest r = drop (unat (r_pos r)) (r_data r)"

definition mr_advanced :: "nat \<Rightarrow> MemReader \<Rightarrow> MemReader" where
  "mr_advanced k r = r\<lparr>r_pos := r_pos r + of_nat k\<rparr>"

lemma mr_advanced_simps [simp]:
  "mr_advanced 0 r = r"
  "mr_advanced j (mr_advanced k r) = mr_advanced (k + j) r"
  by (simp_all add: mr_advanced_def add.assoc)

lemma mr_advanced_ok:
  assumes "mr_ok r" "mr_rest r = bs @ rest"
  shows "mr_ok (mr_advanced (length bs) r)" and "mr_rest (mr_advanced (length bs) r) = rest"
proof -
  have len: "unat (r_pos r) + length bs \<le> unat (r_size r)"
    using arg_cong [OF assms(2), of length] assms(1)
    by (auto simp: mr_rest_def mr_ok_def word_le_nat_alt)
  then have pos: "unat (r_pos (mr_advanced (length bs) r)) = unat (r_pos r) + length bs"
    using assms(1) by (simp add: mr_advanced_def unat_add64 unat_of_nat mr_ok_def)
  show "mr_ok (mr_advanced (length bs) r)"
    using len pos assms(1) by (simp add: mr_ok_def word_le_nat_alt) (simp add: mr_advanced_def)
  have "mr_rest (mr_advanced (length bs) r) = drop (length bs) (mr_rest r)"
    unfolding mr_rest_def pos drop_plus by (simp add: mr_advanced_def)
  then show "mr_rest (mr_advanced (length bs) r) = rest"
    by (simp add: assms(2))
qed

lemma readData_rest:
  assumes "mr_ok r" "mr_rest r = bs @ rest" "length bs = unat n"
  shows "mr_readData n r = Inr (Some bs, mr_advanced (length bs) r)"
  using readData_at [OF assms(1) assms(2) [unfolded mr_rest_def] assms(3)] assms(3)
  by (simp add: mr_advanced_def)

lemma readUint_rest:
  assumes "mr_ok r"
  shows "mr_rest r = b # rest \<Longrightarrow> mr_readUint8 old8 r = Inr (True, b, mr_advanced 1 r)"
    and "mr_rest r = store16 bo x16 @ rest \<Longrightarrow>
      mr_readUint16 bo old16 r = Inr (True, x16, mr_advanced 2 r)"
    and "mr_rest r = store32 bo x32 @ rest \<Longrightarrow>
      mr_readUint32 bo old32 r = Inr (True, x32, mr_advanced 4 r)"
    and "mr_rest r = store64 bo x64 @ rest \<Longrightarrow>
      mr_readUint64 bo old64 r = Inr (True, x64, mr_advanced 8 r)"
  by (simp_all add: readData_rest [OF assms, of "[b]"] readData_rest [OF assms, of "store16 bo x16"]
      readData_rest [OF assms, of "store32 bo x32"] readData_rest [OF assms, of "store64 bo x64"]
      mr_readUint8_def mr_readUint16_def mr_readUint32_def mr_readUint64_def)

lemma mr_moves_ok:
  assumes "mr_ok r"
  shows "mr_ok (snd (mr_setPos p r))" "mr_ok (snd (mr_shiftFromStart v r))"
  using assms by (auto simp: mr_setPos_def mr_shiftFromStart_def mr_ok_def)

lemma uint_small: "unat (p :: u64) < 2 ^ 63 \<Longrightarrow> uint p < 2 ^ 63"
  using of_nat_less_iff [of "unat p" "2 ^ 63", where 'a = int] by simp

lemma sint_small: "unat (p :: u64) < 2 ^ 63 \<Longrightarrow> sint p = int (unat p)"
proof -
  assume "unat (p :: u64) < 2 ^ 63"
  then have "uint p < 2 ^ 63" by (rule uint_small)
  moreover have "- (2 ^ 63) \<le> uint p"
    by (rule order_trans [OF _ unsigned_greater_eq]) simp
  ultimately have "signed_take_bit 63 (uint p) = uint p"
    by (rule signed_take_bit_int_eq_self [rotated])
  then show ?thesis
    by (simp add: sint_uint)
qed

lemma unat_of_int64:
  "0 \<le> s \<Longrightarrow> s < 2 ^ 63 \<Longrightarrow> int (unat (word_of_int s :: u64)) = s"
  "- (2 ^ 63) \<le> s \<Longrightarrow> s < 0 \<Longrightarrow> int (unat (word_of_int s :: u64)) = s + 2 ^ 64"
proof -
  show "0 \<le> s \<Longrightarrow> s < 2 ^ 63 \<Longrightarrow> int (unat (word_of_int s :: u64)) = s"
    by (simp add: uint_word_of_int flip: uint_nat)
  assume s: "- (2 ^ 63) \<le> s" "s < 0"
  have "s mod 2 ^ 64 = (s + 2 ^ 64) mod 2 ^ 64" by simp
  also have "... = s + 2 ^ 64" using s by (intro mod_pos_pos_trivial) simp_all
  finally show "int (unat (word_of_int s :: u64)) = s + 2 ^ 64"
    by (simp add: uint_word_of_int flip: uint_nat)
qed

text \<open>
  \<open>shift\<close> moves to every offset inside the block and to no other, the end of the block
  excluded; it overflows when the signed sum does.
\<close>

lemma shift_result:
  fixes v :: "64 word"
  assumes "mr_ok r"
  defines "s \<equiv> int (unat (r_pos r)) + sint v"
  shows "mr_shift v r =
    (if 2 ^ 63 \<le> s then Inl Overflow
     else if 0 \<le> s \<and> s < int (unat (r_size r)) then Inr (True, r\<lparr>r_pos := word_of_int s\<rparr>)
     else Inr (False, r))"
proof -
  have sum: "sint (r_pos r) + sint v = s"
    using assms(1) sint_small [of "r_pos r"] by (simp add: s_def mr_ok_def word_le_nat_alt)
  have low: "- (2 ^ 63) \<le> s"
    using sint_ge [of v] by (simp add: s_def add_increasing)
  have move: "r_pos r + v = word_of_int s"
    by (simp add: s_def flip: uint_nat)
  have size: "int (unat (r_size r)) < 2 ^ 63"
    using assms(1) uint_small [of "r_size r"] by (simp add: mr_ok_def)
  show ?thesis
  proof (cases "0 \<le> s \<and> s < 2 ^ 63")
    case True
    then have "r_size r \<le> word_of_int s \<longleftrightarrow> int (unat (r_size r)) \<le> s"
      using unat_of_int64(1) [of s] by (simp add: word_le_def)
    with True low show ?thesis
      by (simp only: mr_shift_def sum move Let_def) simp
  next
    case False
    then have "s < 0 \<Longrightarrow> r_size r \<le> word_of_int s"
      using unat_of_int64(2) [of s] low size by (simp add: word_le_def)
    with False low show ?thesis
      by (simp only: mr_shift_def sum move Let_def) auto
  qed
qed
lemma shift_keeps_ok: "mr_ok r \<Longrightarrow> mr_shift v r = Inr (ok, r') \<Longrightarrow> mr_ok r'"
  using unat_of_int64(1) [of "int (unat (r_pos r)) + sint v"]
  by (auto simp: shift_result mr_ok_def word_le_def split: if_splits)

text \<open>The readers of integers ask for 1, 2, 4 and 8 bytes.\<close>

definition mr_left :: "MemReader \<Rightarrow> nat" where
  "mr_left r = length (r_data r) - unat (r_pos r)"

lemma readData_left:
  assumes "mr_ok r" "unat n < 2 ^ 63"
  shows "mr_readData n r =
    (if unat n \<le> mr_left r
     then Inr (Some (take (unat n) (drop (unat (r_pos r)) (r_data r))),
               r\<lparr>r_pos := r_pos r + n\<rparr>)
     else Inr (None, r))"
  using assms by (auto simp: readData_result mr_left_def mr_ok_def word_le_nat_alt)

lemma readUint_left:
  assumes "mr_ok r"
  shows "\<exists>x r'. mr_readUint8 old8 r = Inr (1 \<le> mr_left r, x, r') \<and> mr_ok r'"
    and "\<exists>x r'. mr_readUint16 bo old16 r = Inr (2 \<le> mr_left r, x, r') \<and> mr_ok r'"
    and "\<exists>x r'. mr_readUint32 bo old32 r = Inr (4 \<le> mr_left r, x, r') \<and> mr_ok r'"
    and "\<exists>x r'. mr_readUint64 bo old64 r = Inr (8 \<le> mr_left r, x, r') \<and> mr_ok r'"
  using readData_left [OF assms, of 1] readData_left [OF assms, of 2]
    readData_left [OF assms, of 4] readData_left [OF assms, of 8]
    readData_ok [OF assms, of 1] readData_ok [OF assms, of 2]
    readData_ok [OF assms, of 4] readData_ok [OF assms, of 8] assms
  by (auto simp: mr_readUint8_def mr_readUint16_def mr_readUint32_def mr_readUint64_def
      split: if_splits)

section \<open>Property\<close>

text \<open>
  C31: a reader over a real block never leaves it, except in one case. \<open>readData\<close> copies the
  bytes at the cursor when enough are left and refuses otherwise, but a size so large that
  offset plus size wraps around 64 bits passes the check and reads outside the block. The
  integer readers ask for too little for that: they return \<open>false\<close> exactly when too few bytes
  are left. \<open>setPos\<close> and \<open>shiftFromStart\<close> keep the cursor inside the block, and so does
  \<open>shift\<close>, which faults exactly when the signed sum overflows.
\<close>

theorem reader_bounds:
  assumes "mr_ok r"
  shows "(mr_readData n r = Inl OutOfBounds \<longleftrightarrow> 2 ^ 64 \<le> unat (r_pos r) + unat n) \<and>
    (unat n < 2 ^ 63 \<longrightarrow> (\<exists>got r'. mr_readData n r = Inr (got, r') \<and> mr_ok r' \<and>
       got = (if unat n \<le> mr_left r
              then Some (take (unat n) (drop (unat (r_pos r)) (r_data r))) else None))) \<and>
    (\<exists>x r'. mr_readUint8 old8 r = Inr (1 \<le> mr_left r, x, r') \<and> mr_ok r') \<and>
    (\<exists>x r'. mr_readUint16 bo old16 r = Inr (2 \<le> mr_left r, x, r') \<and> mr_ok r') \<and>
    (\<exists>x r'. mr_readUint32 bo old32 r = Inr (4 \<le> mr_left r, x, r') \<and> mr_ok r') \<and>
    (\<exists>x r'. mr_readUint64 bo old64 r = Inr (8 \<le> mr_left r, x, r') \<and> mr_ok r') \<and>
    mr_ok (snd (mr_setPos p r)) \<and> mr_ok (snd (mr_shiftFromStart p r)) \<and>
    (mr_shift v r = Inl Overflow \<longleftrightarrow> 2 ^ 63 \<le> int (unat (r_pos r)) + sint v) \<and>
    (\<forall>ok r'. mr_shift v r = Inr (ok, r') \<longrightarrow> mr_ok r')"
proof (intro conjI impI readUint_left mr_moves_ok assms)
  show "mr_readData n r = Inl OutOfBounds \<longleftrightarrow> 2 ^ 64 \<le> unat (r_pos r) + unat n"
    by (simp add: readData_result [OF assms])
  show "mr_shift v r = Inl Overflow \<longleftrightarrow> 2 ^ 63 \<le> int (unat (r_pos r)) + sint v"
    by (simp add: shift_result [OF assms])
  show "\<forall>ok r'. mr_shift v r = Inr (ok, r') \<longrightarrow> mr_ok r'"
    using shift_keeps_ok [OF assms] by blast
  assume "unat n < 2 ^ 63"
  then show "\<exists>got r'. mr_readData n r = Inr (got, r') \<and> mr_ok r' \<and>
      got = (if unat n \<le> mr_left r
             then Some (take (unat n) (drop (unat (r_pos r)) (r_data r))) else None)"
    using readData_left [OF assms, of n] readData_ok [OF assms, of n] assms by auto
qed

lemma reader_bounds_witness:
  "mr_ok (mr_new [1, 2, 3] 3) \<and>
   mr_readData 4 (mr_new [1, 2, 3] 3) = Inr (None, mr_new [1, 2, 3] 3) \<and>
   mr_readData 18446744073709551615 ((mr_new [1, 2, 3] 3)\<lparr>r_pos := 2\<rparr>) = Inl OutOfBounds"
proof (intro conjI)
  show ok: "mr_ok (mr_new [1, 2, 3] 3)"
    by (simp add: mr_ok_def mr_new_def)
  show "mr_readData 4 (mr_new [1, 2, 3] 3) = Inr (None, mr_new [1, 2, 3] 3)"
    using reader_bounds [OF ok, of 4] by (auto simp: mr_left_def mr_new_def mr_readData_def)
  have "mr_ok ((mr_new [1, 2, 3] 3)\<lparr>r_pos := 2\<rparr>)"
    by (simp add: mr_ok_def mr_new_def)
  from reader_bounds [OF this, of 18446744073709551615]
  show "mr_readData 18446744073709551615 ((mr_new [1, 2, 3] 3)\<lparr>r_pos := 2\<rparr>) = Inl OutOfBounds"
    by (simp add: mr_new_def)
qed

end
