(* ===== verification/MemWriter.thy ===== *)
theory MemWriter
  imports MemReader
begin

text \<open>
  \<open>libratel/MemWriter\<close>: the cursor that writes. The model is that of \<open>MemReader\<close>, with the
  block as a part of the state. \<open>MemWriter.h\<close> also declares \<open>shift\<close> and a constant \<open>getPos\<close>
  that no file defines.
\<close>

record MemWriter =
  w_data :: bytes
  w_size :: u64
  w_pos :: u64

definition mw_new :: "bytes \<Rightarrow> u64 \<Rightarrow> MemWriter" where
  "mw_new bs n = \<lparr>w_data = bs, w_size = n, w_pos = 0\<rparr>"

definition mw_writeData :: "bytes \<Rightarrow> u64 \<Rightarrow> MemWriter \<Rightarrow> (bool \<times> MemWriter) res" where
  "mw_writeData src n w =
     (if w_size w < w_pos w + n then Inr (False, w)
      else andThen (vec_range src 0 (unat n)) (\<lambda>bs.
           andThen (vec_put (unat (w_pos w)) bs (w_data w)) (\<lambda>data.
           Inr (True, w\<lparr>w_data := data, w_pos := w_pos w + n\<rparr>))))"

definition mw_writeUint8 :: "byte \<Rightarrow> MemWriter \<Rightarrow> (bool \<times> MemWriter) res" where
  "mw_writeUint8 x w = mw_writeData [x] 1 w"

definition mw_writeUint16 :: "byte_order \<Rightarrow> u16 \<Rightarrow> MemWriter \<Rightarrow> (bool \<times> MemWriter) res" where
  "mw_writeUint16 bo x w = mw_writeData (store16 bo x) 2 w"

definition mw_writeUint32 :: "byte_order \<Rightarrow> u32 \<Rightarrow> MemWriter \<Rightarrow> (bool \<times> MemWriter) res" where
  "mw_writeUint32 bo x w = mw_writeData (store32 bo x) 4 w"

definition mw_writeUint64 :: "byte_order \<Rightarrow> u64 \<Rightarrow> MemWriter \<Rightarrow> (bool \<times> MemWriter) res" where
  "mw_writeUint64 bo x w = mw_writeData (store64 bo x) 8 w"

definition mw_shiftFromStart :: "u32 \<Rightarrow> MemWriter \<Rightarrow> bool \<times> MemWriter" where
  "mw_shiftFromStart v w =
     (if w_size w \<le> ucast v then (False, w) else (True, w\<lparr>w_pos := ucast v\<rparr>))"

definition mw_getRemainingSize :: "MemWriter \<Rightarrow> u32" where
  "mw_getRemainingSize w = ucast (w_size w - w_pos w)"

definition mw_getPos :: "MemWriter \<Rightarrow> u64" where
  "mw_getPos w = w_pos w"

section \<open>Values in memory\<close>

text \<open>The values the two classes transfer, the bytes of each, and how it is written and read.\<close>

datatype cell = Cell8 byte | Cell16 u16 | Cell32 u32 | Cell64 u64

fun cell_bytes :: "byte_order \<Rightarrow> cell \<Rightarrow> bytes" where
  "cell_bytes bo (Cell8 x) = [x]"
| "cell_bytes bo (Cell16 x) = store16 bo x"
| "cell_bytes bo (Cell32 x) = store32 bo x"
| "cell_bytes bo (Cell64 x) = store64 bo x"

fun write_cell :: "byte_order \<Rightarrow> cell \<Rightarrow> MemWriter \<Rightarrow> (bool \<times> MemWriter) res" where
  "write_cell bo (Cell8 x) = mw_writeUint8 x"
| "write_cell bo (Cell16 x) = mw_writeUint16 bo x"
| "write_cell bo (Cell32 x) = mw_writeUint32 bo x"
| "write_cell bo (Cell64 x) = mw_writeUint64 bo x"

text \<open>Reading a value of the same kind as a given one.\<close>

fun read_like :: "byte_order \<Rightarrow> cell \<Rightarrow> MemReader \<Rightarrow> (bool \<times> cell \<times> MemReader) res" where
  "read_like bo (Cell8 _) r =
     andThen (mr_readUint8 0 r) (\<lambda>(ok, x, r'). Inr (ok, Cell8 x, r'))"
| "read_like bo (Cell16 _) r =
     andThen (mr_readUint16 bo 0 r) (\<lambda>(ok, x, r'). Inr (ok, Cell16 x, r'))"
| "read_like bo (Cell32 _) r =
     andThen (mr_readUint32 bo 0 r) (\<lambda>(ok, x, r'). Inr (ok, Cell32 x, r'))"
| "read_like bo (Cell64 _) r =
     andThen (mr_readUint64 bo 0 r) (\<lambda>(ok, x, r'). Inr (ok, Cell64 x, r'))"

fun write_cells :: "byte_order \<Rightarrow> cell list \<Rightarrow> MemWriter \<Rightarrow> (bool \<times> MemWriter) res" where
  "write_cells bo [] w = Inr (True, w)"
| "write_cells bo (c # cs) w = andThen (write_cell bo c w) (\<lambda>(ok, w').
     if ok then write_cells bo cs w' else Inr (False, w'))"

fun read_cells ::
    "byte_order \<Rightarrow> cell list \<Rightarrow> MemReader \<Rightarrow> (bool \<times> cell list \<times> MemReader) res" where
  "read_cells bo [] r = Inr (True, [], r)"
| "read_cells bo (c # cs) r = andThen (read_like bo c r) (\<lambda>(ok, x, r').
     if ok then andThen (read_cells bo cs r') (\<lambda>(ok', xs, r''). Inr (ok', x # xs, r''))
     else Inr (False, [], r'))"

definition cells_bytes :: "byte_order \<Rightarrow> cell list \<Rightarrow> bytes" where
  "cells_bytes bo cs = concat (map (cell_bytes bo) cs)"

section \<open>Writing and reading\<close>

definition mw_ok :: "MemWriter \<Rightarrow> bool" where
  "mw_ok w \<longleftrightarrow> length (w_data w) = unat (w_size w) \<and> w_pos w \<le> w_size w \<and>
     unat (w_size w) < 2 ^ 63"

definition mw_left :: "MemWriter \<Rightarrow> nat" where
  "mw_left w = length (w_data w) - unat (w_pos w)"

text \<open>The block after a write: the bytes at the cursor are replaced.\<close>

definition mw_written :: "bytes \<Rightarrow> MemWriter \<Rightarrow> MemWriter" where
  "mw_written bs w = w\<lparr>
     w_data := take (unat (w_pos w)) (w_data w) @ bs
               @ drop (unat (w_pos w) + length bs) (w_data w),
     w_pos := of_nat (unat (w_pos w) + length bs)\<rparr>"

lemma writeData_result:
  assumes "mw_ok w" "length bs = unat n" "unat n < 2 ^ 63"
  shows "mw_writeData bs n w =
    Inr (if unat n \<le> mw_left w then (True, mw_written bs w) else (False, w))"
  using assms
  by (auto simp: mw_writeData_def mw_ok_def word_le_nat_alt word_less_nat_alt unat_add64
      vec_range_def vec_put_def mw_left_def mw_written_def)

lemma length_cell_bytes: "length (cell_bytes bo c) \<in> {1, 2, 4, 8}"
  by (cases c) simp_all

lemma write_cell_result:
  assumes "mw_ok w"
  shows "write_cell bo c w =
    Inr (if length (cell_bytes bo c) \<le> mw_left w then (True, mw_written (cell_bytes bo c) w)
         else (False, w))"
  by (cases c) (simp_all add: mw_writeUint8_def mw_writeUint16_def mw_writeUint32_def
      mw_writeUint64_def writeData_result [OF assms])

lemma unat_of_nat64: "k < 2 ^ 63 \<Longrightarrow> unat (of_nat k :: u64) = k"
  by (simp add: unat_of_nat)

lemma mw_written_ok:
  assumes "mw_ok w" "length bs \<le> mw_left w"
  shows "unat (w_pos (mw_written bs w)) = unat (w_pos w) + length bs"
    and "mw_ok (mw_written bs w)"
    and "mw_left (mw_written bs w) = mw_left w - length bs"
    and "mw_written bs' (mw_written bs w) = mw_written (bs @ bs') w"
proof -
  have le: "unat (w_pos w) + length bs \<le> unat (w_size w)" "unat (w_size w) < 2 ^ 63"
      "length (w_data w) = unat (w_size w)"
    using assms by (auto simp: mw_ok_def mw_left_def word_le_nat_alt)
  then show pos: "unat (w_pos (mw_written bs w)) = unat (w_pos w) + length bs"
    by (simp add: mw_written_def unat_add64 unat_of_nat)
  have "length (w_data (mw_written bs w)) = unat (w_size w)"
    using le by (simp add: mw_written_def)
  then show "mw_ok (mw_written bs w)" "mw_left (mw_written bs w) = mw_left w - length bs"
    using le pos
    by (simp_all add: mw_ok_def mw_left_def word_le_nat_alt)
      (simp_all add: mw_written_def)
  show "mw_written bs' (mw_written bs w) = mw_written (bs @ bs') w"
    unfolding mw_written_def [of bs' "mw_written bs w"] pos using le
    by (simp add: mw_written_def add_ac)
qed

lemma write_cells_result:
  assumes "mw_ok w" "write_cells bo cs w = Inr (True, w')"
  shows "w' = mw_written (cells_bytes bo cs) w \<and> length (cells_bytes bo cs) \<le> mw_left w"
  using assms
proof (induction cs arbitrary: w)
  case Nil
  then show ?case
    by (simp add: cells_bytes_def mw_written_def)
next
  case (Cons c cs)
  let ?b = "cell_bytes bo c"
  have fits: "length ?b \<le> mw_left w" and rest: "write_cells bo cs (mw_written ?b w) = Inr (True, w')"
    using Cons.prems by (auto simp: write_cell_result split: if_splits)
  note written = mw_written_ok [OF Cons.prems(1) fits]
  from Cons.IH [OF written(2) rest] fits show ?case
    by (auto simp: written(3,4) cells_bytes_def)
qed

text \<open>Reading a value back where its bytes lie.\<close>

lemma read_like_at:
  assumes "mr_ok r" "mr_rest r = cell_bytes bo c @ rest"
  shows "read_like bo c r = Inr (True, c, mr_advanced (length (cell_bytes bo c)) r)"
  using assms(2) by (cases c)
    (simp_all add: readUint_rest(1) [OF assms(1)] readUint_rest(2) [OF assms(1)]
      readUint_rest(3) [OF assms(1)] readUint_rest(4) [OF assms(1)])

lemma read_cells_at:
  assumes "mr_ok r" "mr_rest r = cells_bytes bo cs @ rest"
  shows "read_cells bo cs r = Inr (True, cs, mr_advanced (length (cells_bytes bo cs)) r)"
  using assms
proof (induction cs arbitrary: r)
  case (Cons c cs)
  have at: "mr_rest r = cell_bytes bo c @ cells_bytes bo cs @ rest"
    using Cons.prems(2) by (simp add: cells_bytes_def)
  from Cons.IH [OF mr_advanced_ok [OF Cons.prems(1) at]] read_like_at [OF Cons.prems(1) at]
  show ?case
    by (simp add: cells_bytes_def)
qed (simp add: cells_bytes_def)

section \<open>Property\<close>

text \<open>
  C32: what a \<open>MemWriter\<close> writes, a \<open>MemReader\<close> reads. If writing a sequence of integers
  succeeds, no byte before the cursor and none behind what was written changes, and a reader
  placed at the old cursor reads the same integers back, whatever the byte order of the host.
\<close>

theorem writer_reader_round_trip:
  assumes "mw_ok w" "write_cells bo cs w = Inr (True, w')"
  shows "take (unat (w_pos w)) (w_data w') = take (unat (w_pos w)) (w_data w) \<and>
    drop (unat (w_pos w')) (w_data w') = drop (unat (w_pos w')) (w_data w) \<and>
    (\<exists>r'. read_cells bo cs \<lparr>r_data = w_data w', r_size = w_size w', r_pos = w_pos w\<rparr> =
      Inr (True, cs, r'))"
proof -
  let ?b = "cells_bytes bo cs"
  have w': "w' = mw_written ?b w" and fits: "length ?b \<le> mw_left w"
    using write_cells_result [OF assms] by simp_all
  note written = mw_written_ok [OF assms(1) fits]
  have le: "unat (w_pos w) + length ?b \<le> length (w_data w)"
    using fits assms(1) by (auto simp: mw_left_def mw_ok_def word_le_nat_alt)
  have "mr_ok \<lparr>r_data = w_data w', r_size = w_size w', r_pos = w_pos w\<rparr>"
    using written(2) assms(1) unfolding w'
    by (simp add: mr_ok_def mw_ok_def) (simp add: mw_written_def)
  moreover have "mr_rest \<lparr>r_data = w_data w', r_size = w_size w', r_pos = w_pos w\<rparr>
      = ?b @ drop (unat (w_pos w) + length ?b) (w_data w)"
    using le unfolding w' by (simp add: mr_rest_def mw_written_def)
  ultimately have "\<exists>r'. read_cells bo cs
      \<lparr>r_data = w_data w', r_size = w_size w', r_pos = w_pos w\<rparr> = Inr (True, cs, r')"
    using read_cells_at by blast
  moreover have "take (unat (w_pos w)) (w_data w') = take (unat (w_pos w)) (w_data w)"
    using le unfolding w' by (simp add: mw_written_def)
  moreover have "drop (unat (w_pos w')) (w_data w') = drop (unat (w_pos w')) (w_data w)"
    using le written(1) unfolding w' by simp (simp add: mw_written_def)
  ultimately show ?thesis
    by blast
qed

definition demo_cells :: "cell list" where
  "demo_cells = [Cell16 0x1234, Cell8 7]"

lemma writer_reader_round_trip_witness:
  "\<exists>w' r'. write_cells LittleEndian demo_cells (mw_new [9, 9, 9, 9] 4) = Inr (True, w') \<and>
     w_data w' = [0x34, 0x12, 7, 9] \<and>
     read_cells LittleEndian demo_cells
       \<lparr>r_data = w_data w', r_size = w_size w', r_pos = 0\<rparr> = Inr (True, demo_cells, r')"
proof -
  let ?w = "mw_new [9, 9, 9, 9] 4"
  have ok: "mw_ok ?w"
    by (simp add: mw_ok_def mw_new_def)
  obtain w' where w': "write_cells LittleEndian demo_cells ?w = Inr (True, w')"
      "w_data w' = [0x34, 0x12, 7, 9]"
    by (simp add: demo_cells_def mw_new_def mw_writeUint16_def mw_writeUint8_def mw_writeData_def
        store16_def hi16_def lo16_def vec_range_def vec_put_def)
  then show ?thesis
    using writer_reader_round_trip [OF ok w'(1)] by (auto simp: mw_new_def)
qed

end
