(* ===== verification/Optional.thy ===== *)
theory Optional
  imports Prelude "HOL-Library.Option_ord"
begin

text \<open>
  \<open>libratel/Optional.h\<close>: an optional value kept in a union next to a flag. The model keeps
  both: reading or destroying the union when it holds no object is a fault, and so is a thrown
  \<open>optional_exception\<close>. Copies keep the value; what a moved-from object holds is the
  parameter \<open>mv\<close>, and a conversion from another type is the parameter \<open>conv\<close>.
\<close>

section \<open>Storage\<close>

datatype 'a storage = EmptyByte | Stored 'a

record 'a Optional =
  mStored :: "'a storage"
  mEngaged :: bool

definition opt_empty :: "'a Optional" where
  "opt_empty = \<lparr>mStored = EmptyByte, mEngaged = False\<rparr>"

definition opt_of :: "'a \<Rightarrow> 'a Optional" where
  "opt_of t = \<lparr>mStored = Stored t, mEngaged = True\<rparr>"

definition isEngaged :: "'a Optional \<Rightarrow> bool" where
  "isEngaged o1 = mEngaged o1"

definition opt_get :: "'a Optional \<Rightarrow> 'a res" where
  "opt_get o1 = (case mStored o1 of EmptyByte \<Rightarrow> Inl Uninitialised | Stored t \<Rightarrow> Inr t)"

text \<open>An assignment through the reference that \<open>get__\<close> returns.\<close>

definition opt_put :: "'a \<Rightarrow> 'a Optional \<Rightarrow> 'a Optional res" where
  "opt_put t o1 =
     (case mStored o1 of EmptyByte \<Rightarrow> Inl Uninitialised
                       | Stored _ \<Rightarrow> Inr (o1\<lparr>mStored := Stored t\<rparr>))"

definition opt_construct :: "'a \<Rightarrow> 'a Optional \<Rightarrow> 'a Optional" where
  "opt_construct t o1 = o1\<lparr>mStored := Stored t, mEngaged := True\<rparr>"

definition opt_destruct :: "'a Optional \<Rightarrow> 'a Optional res" where
  "opt_destruct o1 =
     (case mStored o1 of EmptyByte \<Rightarrow> Inl Uninitialised
                       | Stored _ \<Rightarrow> Inr (o1\<lparr>mStored := EmptyByte, mEngaged := False\<rparr>))"

definition opt_reset :: "'a Optional \<Rightarrow> 'a Optional res" where
  "opt_reset o1 = (if mEngaged o1 then opt_destruct o1 else Inr o1)"

text \<open>The destructor leaves the flag alone.\<close>

definition opt_delete :: "'a Optional \<Rightarrow> 'a Optional res" where
  "opt_delete o1 =
     (if mEngaged o1
      then (case mStored o1 of EmptyByte \<Rightarrow> Inl Uninitialised
                             | Stored _ \<Rightarrow> Inr (o1\<lparr>mStored := EmptyByte\<rparr>))
      else Inr o1)"

section \<open>Copies and moves\<close>

definition opt_copy :: "'a Optional \<Rightarrow> 'a Optional res" where
  "opt_copy other =
     (if mEngaged other
      then andThen (opt_get other) (\<lambda>t. Inr (opt_construct t opt_empty))
      else Inr opt_empty)"

text \<open>A move returns the new object and what is left of the other.\<close>

definition opt_move :: "('a \<Rightarrow> 'a) \<Rightarrow> 'a Optional \<Rightarrow> ('a Optional \<times> 'a Optional) res" where
  "opt_move mv other =
     (if mEngaged other
      then andThen (opt_get other) (\<lambda>t.
           andThen (opt_put (mv t) other) (\<lambda>other'.
           Inr (opt_construct t opt_empty, other')))
      else Inr (opt_empty, other))"

definition opt_copy_assign :: "'a Optional \<Rightarrow> 'a Optional \<Rightarrow> 'a Optional res" where
  "opt_copy_assign other this =
     (if mEngaged this \<and> mEngaged other then andThen (opt_get other) (\<lambda>t. opt_put t this)
      else if mEngaged other then andThen (opt_get other) (\<lambda>t. Inr (opt_construct t this))
      else opt_reset this)"

definition opt_move_assign ::
    "('a \<Rightarrow> 'a) \<Rightarrow> 'a Optional \<Rightarrow> 'a Optional \<Rightarrow> ('a Optional \<times> 'a Optional) res" where
  "opt_move_assign mv other this =
     (if mEngaged this \<and> mEngaged other
      then andThen (opt_get other) (\<lambda>t.
           andThen (opt_put (mv t) other) (\<lambda>other'.
           andThen (opt_put t this) (\<lambda>this'. Inr (this', other'))))
      else if mEngaged other
      then andThen (opt_get other) (\<lambda>t.
           andThen (opt_put (mv t) other) (\<lambda>other'.
           Inr (opt_construct t this, other')))
      else andThen (opt_reset this) (\<lambda>this'. Inr (this', other)))"

section \<open>The public operations\<close>

definition opt_from_value :: "('u \<Rightarrow> 'a) \<Rightarrow> 'u \<Rightarrow> 'a Optional" where
  "opt_from_value conv u = opt_of (conv u)"

text \<open>From an optional of another type: a temporary is built and moved into the base.\<close>

definition opt_from_copy ::
    "('a \<Rightarrow> 'a) \<Rightarrow> ('u \<Rightarrow> 'a) \<Rightarrow> 'u Optional \<Rightarrow> 'a Optional res" where
  "opt_from_copy mv conv t =
     andThen (if isEngaged t then andThen (opt_get t) (\<lambda>u. Inr (opt_from_value conv u))
              else Inr opt_empty) (\<lambda>tmp.
     andThen (opt_move mv tmp) (\<lambda>(this, tmp').
     andThen (opt_delete tmp') (\<lambda>_. Inr this)))"

definition opt_from_move ::
    "('a \<Rightarrow> 'a) \<Rightarrow> ('u \<Rightarrow> 'u) \<Rightarrow> ('u \<Rightarrow> 'a) \<Rightarrow> 'u Optional \<Rightarrow> ('a Optional \<times> 'u Optional) res"
  where
  "opt_from_move mv mvu conv t =
     andThen (if isEngaged t
              then andThen (opt_get t) (\<lambda>u.
                   andThen (opt_put (mvu u) t) (\<lambda>t'. Inr (opt_from_value conv u, t')))
              else Inr (opt_empty, t)) (\<lambda>(tmp, t').
     andThen (opt_move mv tmp) (\<lambda>(this, tmp').
     andThen (opt_delete tmp') (\<lambda>_. Inr (this, t'))))"

definition opt_assign_null :: "'a Optional \<Rightarrow> 'a Optional res" where
  "opt_assign_null this = opt_reset this"

text \<open>\<open>operator =(U &&)\<close> checks the types and returns: the argument is not used.\<close>

definition opt_assign_value :: "'u \<Rightarrow> 'a Optional \<Rightarrow> 'a Optional res" where
  "opt_assign_value u this = Inr this"

definition opt_assign_move ::
    "('u \<Rightarrow> 'u) \<Rightarrow> ('u \<Rightarrow> 'a) \<Rightarrow> 'u Optional \<Rightarrow> 'a Optional \<Rightarrow> ('a Optional \<times> 'u Optional) res"
  where
  "opt_assign_move mvu conv t this =
     (if isEngaged t
      then andThen (opt_get t) (\<lambda>u.
           andThen (opt_put (mvu u) t) (\<lambda>t'.
           andThen (if isEngaged this then opt_put (conv u) this
                    else Inr (opt_construct (conv u) this)) (\<lambda>this'.
           Inr (this', t'))))
      else andThen (opt_reset this) (\<lambda>this'. Inr (this', t)))"

definition opt_emplace :: "'a \<Rightarrow> 'a Optional \<Rightarrow> 'a Optional res" where
  "opt_emplace t this = andThen (opt_reset this) (\<lambda>this'. Inr (opt_construct t this'))"

definition opt_swap ::
    "('a \<Rightarrow> 'a) \<Rightarrow> 'a Optional \<Rightarrow> 'a Optional \<Rightarrow> ('a Optional \<times> 'a Optional) res" where
  "opt_swap mv this other =
     (if isEngaged this \<and> isEngaged other
      then andThen (opt_get this) (\<lambda>t. andThen (opt_get other) (\<lambda>t'.
           andThen (opt_put t' this) (\<lambda>this'. andThen (opt_put t other) (\<lambda>other'.
           Inr (this', other')))))
      else if isEngaged this
      then andThen (opt_get this) (\<lambda>t. andThen (opt_put (mv t) this) (\<lambda>this'.
           andThen (opt_destruct this') (\<lambda>this''. Inr (this'', opt_construct t other))))
      else if isEngaged other
      then andThen (opt_get other) (\<lambda>t. andThen (opt_put (mv t) other) (\<lambda>other'.
           andThen (opt_destruct other') (\<lambda>other''. Inr (opt_construct t this, other''))))
      else Inr (this, other))"

definition opt_deref :: "'a Optional \<Rightarrow> 'a res" where
  "opt_deref o1 = opt_get o1"

text \<open>\<open>operator ->\<close>: the value at the address it returns.\<close>

definition opt_arrow :: "'a Optional \<Rightarrow> 'a res" where
  "opt_arrow o1 = opt_get o1"

definition opt_bool :: "'a Optional \<Rightarrow> bool" where
  "opt_bool o1 = isEngaged o1"

definition opt_value :: "'a Optional \<Rightarrow> 'a res" where
  "opt_value o1 = (if \<not> opt_bool o1 then Inl LogicError else opt_deref o1)"

definition opt_value_or :: "('u \<Rightarrow> 'a) \<Rightarrow> 'u \<Rightarrow> 'a Optional \<Rightarrow> 'a res" where
  "opt_value_or conv u o1 = (if isEngaged o1 then opt_get o1 else Inr (conv u))"

definition opt_move_value_or ::
    "('a \<Rightarrow> 'a) \<Rightarrow> ('u \<Rightarrow> 'a) \<Rightarrow> 'u \<Rightarrow> 'a Optional \<Rightarrow> ('a \<times> 'a Optional) res" where
  "opt_move_value_or mv conv u o1 =
     (if isEngaged o1
      then andThen (opt_get o1) (\<lambda>t. andThen (opt_put (mv t) o1) (\<lambda>o1'. Inr (t, o1')))
      else Inr (conv u, o1))"

text \<open>\<open>make_optional\<close> with one argument or with none.\<close>

definition make_optional :: "('u \<Rightarrow> 'a) \<Rightarrow> 'u option \<Rightarrow> 'a Optional" where
  "make_optional conv arg =
     (case arg of None \<Rightarrow> opt_empty | Some u \<Rightarrow> opt_from_value conv u)"

section \<open>Comparisons\<close>

text \<open>\<open>!\<close>, \<open>&&\<close> and \<open>||\<close> on operands that may fault, evaluated left to right.\<close>

definition notR :: "bool res \<Rightarrow> bool res" where
  "notR m = andThen m (\<lambda>b. Inr (\<not> b))"

definition andR :: "bool res \<Rightarrow> bool res \<Rightarrow> bool res" where
  "andR m n = andThen m (\<lambda>b. if b then n else Inr False)"

definition orR :: "bool res \<Rightarrow> bool res \<Rightarrow> bool res" where
  "orR m n = andThen m (\<lambda>b. if b then Inr True else n)"

definition engaged :: "'a Optional \<Rightarrow> bool res" where
  "engaged o1 = Inr (opt_bool o1)"

text \<open>A comparison of the values of two operands.\<close>

definition cmp :: "('a \<Rightarrow> 'a \<Rightarrow> bool) \<Rightarrow> 'a res \<Rightarrow> 'a res \<Rightarrow> bool res" where
  "cmp f m n = andThen m (\<lambda>x. andThen n (\<lambda>y. Inr (f x y)))"

text \<open>Two optionals.\<close>

definition opt_eq :: "'a Optional \<Rightarrow> 'a Optional \<Rightarrow> bool res" where
  "opt_eq l r = andR (Inr (opt_bool l = opt_bool r))
                     (orR (notR (engaged l)) (cmp (=) (opt_deref l) (opt_deref r)))"

definition opt_ne :: "'a Optional \<Rightarrow> 'a Optional \<Rightarrow> bool res" where
  "opt_ne l r = notR (opt_eq l r)"

definition opt_lt :: "'a::linorder Optional \<Rightarrow> 'a Optional \<Rightarrow> bool res" where
  "opt_lt l r = andR (engaged r) (orR (notR (engaged l)) (cmp (<) (opt_deref l) (opt_deref r)))"

definition opt_gt :: "'a::linorder Optional \<Rightarrow> 'a Optional \<Rightarrow> bool res" where
  "opt_gt l r = opt_lt r l"

definition opt_le :: "'a::linorder Optional \<Rightarrow> 'a Optional \<Rightarrow> bool res" where
  "opt_le l r = notR (opt_lt r l)"

definition opt_ge :: "'a::linorder Optional \<Rightarrow> 'a Optional \<Rightarrow> bool res" where
  "opt_ge l r = notR (opt_lt l r)"

text \<open>An optional and a value.\<close>

definition opt_eq_val :: "'a Optional \<Rightarrow> 'a \<Rightarrow> bool res" where
  "opt_eq_val l r = andR (engaged l) (cmp (=) (opt_deref l) (Inr r))"

definition val_eq_opt :: "'a \<Rightarrow> 'a Optional \<Rightarrow> bool res" where
  "val_eq_opt l r = andR (engaged r) (cmp (=) (Inr l) (opt_deref r))"

definition opt_ne_val :: "'a Optional \<Rightarrow> 'a \<Rightarrow> bool res" where
  "opt_ne_val l r = notR (val_eq_opt r l)"

definition val_ne_opt :: "'a \<Rightarrow> 'a Optional \<Rightarrow> bool res" where
  "val_ne_opt l r = orR (notR (engaged r)) (notR (cmp (=) (Inr l) (opt_deref r)))"

definition opt_lt_val :: "'a::linorder Optional \<Rightarrow> 'a \<Rightarrow> bool res" where
  "opt_lt_val l r = andR (engaged l) (cmp (<) (opt_deref l) (Inr r))"

definition val_lt_opt :: "'a::linorder \<Rightarrow> 'a Optional \<Rightarrow> bool res" where
  "val_lt_opt l r = andR (engaged r) (cmp (<) (Inr l) (opt_deref r))"

definition opt_gt_val :: "'a::linorder Optional \<Rightarrow> 'a \<Rightarrow> bool res" where
  "opt_gt_val l r = andR (engaged l) (cmp (<) (Inr r) (opt_deref l))"

definition val_gt_opt :: "'a::linorder \<Rightarrow> 'a Optional \<Rightarrow> bool res" where
  "val_gt_opt l r = orR (notR (engaged r)) (cmp (<) (opt_deref r) (Inr l))"

definition opt_le_val :: "'a::linorder Optional \<Rightarrow> 'a \<Rightarrow> bool res" where
  "opt_le_val l r = andR (engaged l) (notR (opt_lt_val l r))"

definition val_le_opt :: "'a::linorder \<Rightarrow> 'a Optional \<Rightarrow> bool res" where
  "val_le_opt l r = andR (engaged r) (notR (cmp (<) (opt_deref r) (Inr l)))"

definition opt_ge_val :: "'a::linorder Optional \<Rightarrow> 'a \<Rightarrow> bool res" where
  "opt_ge_val l r = andR (engaged l) (notR (cmp (<) (opt_deref l) (Inr r)))"

definition val_ge_opt :: "'a::linorder \<Rightarrow> 'a Optional \<Rightarrow> bool res" where
  "val_ge_opt l r = orR (notR (engaged r)) (notR (cmp (<) (Inr l) (opt_deref r)))"

text \<open>An optional and \<open>nullOpt\<close>.\<close>

definition opt_eq_null :: "'a Optional \<Rightarrow> bool" where
  "opt_eq_null l = (\<not> opt_bool l)"

definition null_eq_opt :: "'a Optional \<Rightarrow> bool" where
  "null_eq_opt r = (\<not> opt_bool r)"

definition opt_ne_null :: "'a Optional \<Rightarrow> bool" where
  "opt_ne_null l = opt_bool l"

definition null_ne_opt :: "'a Optional \<Rightarrow> bool" where
  "null_ne_opt r = opt_bool r"

definition opt_lt_null :: "'a Optional \<Rightarrow> bool" where
  "opt_lt_null l = False"

definition null_lt_opt :: "'a Optional \<Rightarrow> bool" where
  "null_lt_opt r = opt_bool r"

definition opt_gt_null :: "'a Optional \<Rightarrow> bool" where
  "opt_gt_null l = opt_bool l"

definition null_gt_opt :: "'a Optional \<Rightarrow> bool" where
  "null_gt_opt r = False"

definition opt_le_null :: "'a Optional \<Rightarrow> bool" where
  "opt_le_null l = (\<not> opt_bool l)"

definition null_le_opt :: "'a Optional \<Rightarrow> bool" where
  "null_le_opt r = True"

definition opt_ge_null :: "'a Optional \<Rightarrow> bool" where
  "opt_ge_null l = True"

definition null_ge_opt :: "'a Optional \<Rightarrow> bool" where
  "null_ge_opt r = (\<not> opt_bool r)"

section \<open>What an optional stands for\<close>

definition opt_ok :: "'a Optional \<Rightarrow> bool" where
  "opt_ok o1 \<longleftrightarrow> (mEngaged o1 \<longleftrightarrow> mStored o1 \<noteq> EmptyByte)"

definition opt_abs :: "'a Optional \<Rightarrow> 'a option" where
  "opt_abs o1 = (case mStored o1 of EmptyByte \<Rightarrow> None | Stored t \<Rightarrow> Some t)"

definition yields :: "'a Optional res \<Rightarrow> 'a option \<Rightarrow> bool" where
  "yields m v \<longleftrightarrow> (case m of Inl _ \<Rightarrow> False | Inr o1 \<Rightarrow> opt_ok o1 \<and> opt_abs o1 = v)"

definition yields2 ::
    "('a Optional \<times> 'b Optional) res \<Rightarrow> 'a option \<Rightarrow> 'b option \<Rightarrow> bool" where
  "yields2 m v v' \<longleftrightarrow>
     (case m of Inl _ \<Rightarrow> False
              | Inr (o1, o2) \<Rightarrow> opt_ok o1 \<and> opt_abs o1 = v \<and> opt_ok o2 \<and> opt_abs o2 = v')"

text \<open>An object that respects the invariant is one of two.\<close>

lemma opt_ok_cases:
  assumes "opt_ok o1"
  obtains (Empty) "o1 = opt_empty" | (Value) t where "o1 = opt_of t"
  using assms by (cases o1; cases "mStored o1") (auto simp: opt_ok_def opt_empty_def opt_of_def)

lemma opt_basic [simp]:
  "opt_ok opt_empty" "opt_ok (opt_of t)"
  "opt_abs opt_empty = None" "opt_abs (opt_of t) = Some t"
  "\<not> mEngaged opt_empty" "mEngaged (opt_of t)"
  "opt_get (opt_of t) = Inr t"
  "opt_put t' (opt_of t) = Inr (opt_of t')"
  "opt_construct t o1 = opt_of t"
  "opt_destruct (opt_of t) = Inr opt_empty"
  "opt_reset opt_empty = Inr opt_empty" "opt_reset (opt_of t) = Inr opt_empty"
  "opt_delete opt_empty = Inr opt_empty" "opt_get opt_empty = Inl Uninitialised"
  by (simp_all add: opt_ok_def opt_abs_def opt_empty_def opt_of_def opt_get_def opt_put_def
      opt_construct_def opt_destruct_def opt_reset_def opt_delete_def)

lemma opt_delete_of: "opt_delete (opt_of t) = Inr (opt_of t\<lparr>mStored := EmptyByte\<rparr>)"
  by (simp add: opt_delete_def opt_of_def)

lemma opt_bool_abs: "opt_ok o1 \<Longrightarrow> opt_bool o1 \<longleftrightarrow> opt_abs o1 \<noteq> None"
  by (erule opt_ok_cases) (simp_all add: opt_bool_def isEngaged_def)

lemma yields_simps [simp]:
  "yields (Inr o1) v \<longleftrightarrow> opt_ok o1 \<and> opt_abs o1 = v"
  "yields2 (Inr (o1, o2)) v v' \<longleftrightarrow> opt_ok o1 \<and> opt_abs o1 = v \<and> opt_ok o2 \<and> opt_abs o2 = v'"
  by (simp_all add: yields_def yields2_def)

lemmas opt_defs = isEngaged_def opt_copy_def opt_move_def opt_copy_assign_def opt_move_assign_def
  opt_from_value_def opt_from_copy_def opt_from_move_def opt_assign_null_def opt_assign_move_def
  opt_emplace_def opt_swap_def opt_deref_def opt_bool_def opt_value_def opt_value_or_def
  opt_move_value_or_def opt_delete_of opt_arrow_def opt_assign_value_def

lemma copies_refine:
  assumes "opt_ok o1"
  shows "yields (opt_copy o1) (opt_abs o1)"
    and "yields2 (opt_move mv o1) (opt_abs o1) (map_option mv (opt_abs o1))"
    and "yields (opt_from_copy mv' conv o1) (map_option conv (opt_abs o1))"
    and "yields2 (opt_from_move mv' mv conv o1)
           (map_option conv (opt_abs o1)) (map_option mv (opt_abs o1))"
  by (rule opt_ok_cases [OF assms]; simp add: opt_defs)+

lemma assignments_refine:
  assumes "opt_ok o1" "opt_ok o2"
  shows "yields (opt_copy_assign o2 o1) (opt_abs o2)"
    and "yields2 (opt_move_assign mv o2 o1) (opt_abs o2) (map_option mv (opt_abs o2))"
    and "yields2 (opt_swap mv o1 o2) (opt_abs o2) (opt_abs o1)"
  by (rule opt_ok_cases [OF assms(1)]; rule opt_ok_cases [OF assms(2)]; simp add: opt_defs)+

lemma assign_converted_refines:
  assumes "opt_ok o1" "opt_ok o3"
  shows "yields2 (opt_assign_move mv conv o3 o1) (map_option conv (opt_abs o3)) (map_option mv (opt_abs o3))"
  by (rule opt_ok_cases [OF assms(1)]; rule opt_ok_cases [OF assms(2)]; simp add: opt_defs)

lemma accesses_refine:
  assumes "opt_ok o1"
  shows "yields (opt_assign_null o1) None" "yields (opt_emplace t o1) (Some t)"
    and "opt_value o1 = (case opt_abs o1 of None \<Rightarrow> Inl LogicError | Some t \<Rightarrow> Inr t)"
    and "opt_value_or conv u o1 = Inr (case opt_abs o1 of None \<Rightarrow> conv u | Some t \<Rightarrow> t)"
    and "opt_deref o1 = (case opt_abs o1 of None \<Rightarrow> Inl Uninitialised | Some t \<Rightarrow> Inr t)"
    and "opt_arrow o1 = (case opt_abs o1 of None \<Rightarrow> Inl Uninitialised | Some t \<Rightarrow> Inr t)"
    and "opt_bool o1 \<longleftrightarrow> opt_abs o1 \<noteq> None"
    and "yields (opt_assign_value v o1) (opt_abs o1)"
  by (rule opt_ok_cases [OF assms]; simp add: opt_defs)+

text \<open>Comparisons against the order of \<open>option\<close>, in which \<open>None\<close> is least.\<close>

lemmas cmp_defs = notR_def andR_def orR_def engaged_def cmp_def opt_bool_def isEngaged_def
  opt_deref_def opt_eq_def opt_ne_def opt_lt_def opt_gt_def opt_le_def opt_ge_def
  opt_eq_val_def val_eq_opt_def opt_ne_val_def val_ne_opt_def opt_lt_val_def val_lt_opt_def
  opt_gt_val_def val_gt_opt_def opt_le_val_def val_le_opt_def opt_ge_val_def val_ge_opt_def

lemma eq_refines:
  assumes "opt_ok l" "opt_ok r"
  shows "opt_eq l r = Inr (opt_abs l = opt_abs r)" "opt_ne l r = Inr (opt_abs l \<noteq> opt_abs r)"
  by (rule opt_ok_cases [OF assms(1)]; rule opt_ok_cases [OF assms(2)]; simp add: cmp_defs)+

lemma order_refines:
  assumes "opt_ok l" "opt_ok r"
  shows "opt_lt l r = Inr (opt_abs l < opt_abs r)" "opt_le l r = Inr (opt_abs l \<le> opt_abs r)"
    "opt_gt l r = Inr (opt_abs l > opt_abs r)" "opt_ge l r = Inr (opt_abs l \<ge> opt_abs r)"
  by (rule opt_ok_cases [OF assms(1)]; rule opt_ok_cases [OF assms(2)];
      simp add: cmp_defs not_less)+

lemma value_on_the_left:
  assumes "opt_ok r"
  shows "val_eq_opt x r = Inr (Some x = opt_abs r)" "val_ne_opt x r = Inr (Some x \<noteq> opt_abs r)"
    "val_lt_opt x r = Inr (Some x < opt_abs r)" "val_le_opt x r = Inr (Some x \<le> opt_abs r)"
    "val_gt_opt x r = Inr (Some x > opt_abs r)" "val_ge_opt x r = Inr (Some x \<ge> opt_abs r)"
  by (rule opt_ok_cases [OF assms]; simp add: cmp_defs not_less)+

lemma value_on_the_right:
  assumes "opt_ok l"
  shows "opt_eq_val l x = Inr (opt_abs l = Some x)" "opt_ne_val l x = Inr (opt_abs l \<noteq> Some x)"
    "opt_gt_val l x = Inr (opt_abs l > Some x)" "opt_ge_val l x = Inr (opt_abs l \<ge> Some x)"
    "opt_lt_val l x = Inr (opt_abs l \<noteq> None \<and> opt_abs l < Some x)"
    "opt_le_val l x = Inr (opt_abs l \<ge> Some x)"
  by (rule opt_ok_cases [OF assms]; auto simp: cmp_defs not_less)+

lemma null_refines:
  assumes "opt_ok l"
  shows "opt_eq_null l = (opt_abs l = None)" "null_eq_opt l = (None = opt_abs l)"
    "opt_ne_null l = (opt_abs l \<noteq> None)" "null_ne_opt l = (None \<noteq> opt_abs l)"
    "opt_lt_null l = (opt_abs l < None)" "null_lt_opt l = (None < opt_abs l)"
    "opt_gt_null l = (opt_abs l > None)" "null_gt_opt l = (None > opt_abs l)"
    "opt_le_null l = (opt_abs l \<le> None)" "null_le_opt l = (None \<le> opt_abs l)"
    "opt_ge_null l = (opt_abs l \<ge> None)" "null_ge_opt l = (None \<ge> opt_abs l)"
  by (rule opt_ok_cases [OF assms];
      simp add: opt_eq_null_def null_eq_opt_def opt_ne_null_def null_ne_opt_def opt_lt_null_def
        null_lt_opt_def opt_gt_null_def null_gt_opt_def opt_le_null_def null_le_opt_def
        opt_ge_null_def null_ge_opt_def opt_bool_def isEngaged_def)+

section \<open>Properties\<close>

text \<open>
  C34: an \<open>Optional\<close> behaves as a value of \<open>option\<close>, with two exceptions. For objects that respect the invariant:
  copies and moves, also from an optional of another type, the assignments from an optional of the same type, from a moved one of
  another type and from \<open>nullOpt\<close>, \<open>emplace\<close> and \<open>swap\<close> never touch a value that is not
  there, keep the invariant and act on the abstract values as they should; the conversion to \<open>bool\<close> tells whether there is a
  value, \<open>value\<close> throws exactly on an empty object and \<open>value_or\<close> gives the default there.
  The exceptions: \<open>*\<close> and \<open>->\<close> read the absent value of an empty object, and the assignment of a value changes nothing.
\<close>

theorem optional_refines_option:
  assumes "opt_ok o1" "opt_ok o2" "opt_ok o3"
  shows "yields (opt_copy o1) (opt_abs o1) \<and>
    yields2 (opt_move mv o1) (opt_abs o1) (map_option mv (opt_abs o1)) \<and>
    yields (opt_from_copy mv' conv o1) (map_option conv (opt_abs o1)) \<and>
    yields2 (opt_from_move mv' mv conv o1)
      (map_option conv (opt_abs o1)) (map_option mv (opt_abs o1)) \<and>
    yields (opt_copy_assign o2 o1) (opt_abs o2) \<and>
    yields2 (opt_move_assign mv o2 o1) (opt_abs o2) (map_option mv (opt_abs o2)) \<and>
    yields2 (opt_assign_move mv3 conv3 o3 o1) (map_option conv3 (opt_abs o3)) (map_option mv3 (opt_abs o3)) \<and>
    yields2 (opt_swap mv o1 o2) (opt_abs o2) (opt_abs o1) \<and>
    yields (opt_assign_null o1) None \<and> yields (opt_emplace t o1) (Some t) \<and>
    (opt_bool o1 \<longleftrightarrow> opt_abs o1 \<noteq> None) \<and>
    opt_value o1 = (case opt_abs o1 of None \<Rightarrow> Inl LogicError | Some x \<Rightarrow> Inr x) \<and>
    opt_value_or conv' u o1 = Inr (case opt_abs o1 of None \<Rightarrow> conv' u | Some x \<Rightarrow> x) \<and>
    opt_deref o1 = (case opt_abs o1 of None \<Rightarrow> Inl Uninitialised | Some x \<Rightarrow> Inr x) \<and>
    opt_arrow o1 = (case opt_abs o1 of None \<Rightarrow> Inl Uninitialised | Some x \<Rightarrow> Inr x) \<and>
    yields (opt_assign_value v o1) (opt_abs o1)"
  by (intro conjI copies_refine assignments_refine assign_converted_refines accesses_refine assms)

lemma optional_refines_option_witness:
  "yields2 (opt_swap (\<lambda>_. 0) (opt_of (1 :: int)) opt_empty) None (Some 1) \<and>
   yields2 (opt_assign_move id int (opt_of (3 :: nat)) (opt_of 1)) (Some 3) (Some 3) \<and>
   yields (opt_assign_value (5 :: nat) (opt_of (1 :: int))) (Some 1)"
  using optional_refines_option
    [of "opt_of (1 :: int)" "opt_empty :: int Optional" "opt_of (3 :: nat)" "\<lambda>_. 0" "id :: int \<Rightarrow> int" "id" id int 5
        "id :: int \<Rightarrow> int" 0 "5 :: nat"]
  by simp

text \<open>
  The comparisons of two optionals, of an optional with \<open>nullOpt\<close> and of a value with an
  optional are those of the order in which the empty optional is below every value; none of
  them reads an absent value.
\<close>

theorem optional_order:
  fixes l r :: "'a::linorder Optional"
  assumes "opt_ok l" "opt_ok r"
  shows "opt_eq l r = Inr (opt_abs l = opt_abs r) \<and> opt_ne l r = Inr (opt_abs l \<noteq> opt_abs r) \<and>
    opt_lt l r = Inr (opt_abs l < opt_abs r) \<and> opt_le l r = Inr (opt_abs l \<le> opt_abs r) \<and>
    opt_gt l r = Inr (opt_abs l > opt_abs r) \<and> opt_ge l r = Inr (opt_abs l \<ge> opt_abs r) \<and>
    null_lt_opt r = (None < opt_abs r) \<and> opt_le_null l = (opt_abs l \<le> None) \<and>
    val_lt_opt x r = Inr (Some x < opt_abs r) \<and> val_le_opt x r = Inr (Some x \<le> opt_abs r) \<and>
    val_gt_opt x r = Inr (Some x > opt_abs r) \<and> val_ge_opt x r = Inr (Some x \<ge> opt_abs r)"
  by (intro conjI eq_refines order_refines null_refines value_on_the_left assms)

lemma optional_order_witness:
  "opt_lt (opt_empty :: int Optional) (opt_of 3) = Inr True \<and>
   val_ge_opt 2 (opt_of (3 :: int)) = Inr False"
  using optional_order [of "opt_empty :: int Optional" "opt_of 3" 2] by simp

text \<open>
  With the value on the right two comparisons leave that order: \<open><\<close> is false on an empty
  optional, and \<open><=\<close> answers \<open>>=\<close>, so that it holds of a greater value and never of a
  smaller one.
\<close>

theorem optional_le_value_is_ge:
  fixes l :: "'a::linorder Optional"
  assumes "opt_ok l"
  shows "opt_lt_val l x = Inr (opt_abs l \<noteq> None \<and> opt_abs l < Some x) \<and>
    opt_le_val l x = opt_ge_val l x \<and> opt_le_val l x = Inr (opt_abs l \<ge> Some x) \<and>
    opt_gt_val l x = Inr (opt_abs l > Some x) \<and> opt_eq_val l x = Inr (opt_abs l = Some x)"
  by (simp add: value_on_the_right [OF assms])

lemma optional_le_value_is_ge_witness:
  "opt_le_val (opt_of (5 :: int)) 3 = Inr True \<and> opt_le_val (opt_of (3 :: int)) 5 = Inr False"
  using optional_le_value_is_ge [of "opt_of (5 :: int)" 3, THEN conjunct2, THEN conjunct2]
    optional_le_value_is_ge [of "opt_of (3 :: int)" 5, THEN conjunct2, THEN conjunct2] by simp

section \<open>Traits\<close>

text \<open>
  The traits that select overloads. \<open>and__\<close> (here \<open>and_traits\<close>) takes the \<open>value\<close>s of its arguments.
  A type is described as far as the traits look at it; \<open>DetailOptional\<close> is the class template that
  is declared inside the namespace \<open>detail\<close>, right before \<open>isOptional\<close>, and \<open>GlobalOptional\<close> the
  one that the header defines.
\<close>

fun and_traits :: "bool list \<Rightarrow> bool" where
  "and_traits [] = True"
| "and_traits [t1] = t1"
| "and_traits (t1 # t2 # ts) = (if t1 then and_traits (t2 # ts) else t1)"

definition not_trait :: "bool \<Rightarrow> bool" where
  "not_trait t = (\<not> t)"

datatype ctype =
    Named nat
  | Reference ctype
  | CvQualified ctype
  | GlobalOptional ctype
  | DetailOptional ctype

fun remove_reference :: "ctype \<Rightarrow> ctype" where
  "remove_reference (Reference t) = t"
| "remove_reference t = t"

fun remove_cv :: "ctype \<Rightarrow> ctype" where
  "remove_cv (CvQualified t) = t"
| "remove_cv t = t"

fun isOptionalImpl :: "ctype \<Rightarrow> bool" where
  "isOptionalImpl (DetailOptional t) = True"
| "isOptionalImpl t = False"

definition isOptional :: "ctype \<Rightarrow> bool" where
  "isOptional t = isOptionalImpl (remove_cv (remove_reference t))"

text \<open>The condition of \<open>operator =(U &&)\<close>; \<open>nullOptT\<close> is the type of \<open>nullOpt\<close>.\<close>

definition value_assignment_enabled :: "ctype \<Rightarrow> ctype \<Rightarrow> bool" where
  "value_assignment_enabled nullOptT u = and_traits [not_trait (u = nullOptT), not_trait (isOptional u)]"

lemma and_traits_all: "and_traits ts \<longleftrightarrow> (\<forall>t \<in> set ts. t)"
  by (induction ts rule: and_traits.induct) auto

text \<open>
  The trait recognises no optional of the program, so that the assignment of a value is also a
  candidate for every optional, and the better one for a non-constant lvalue.
\<close>

lemma isOptional_never:
  "\<not> isOptional (GlobalOptional t)" "\<not> isOptional (Reference (GlobalOptional t))"
  "\<not> isOptional (Reference (CvQualified (GlobalOptional t)))"
  by (simp_all add: isOptional_def)

lemma value_assignment_takes_optionals:
  "Reference (GlobalOptional t) \<noteq> nullOptT \<Longrightarrow>
     value_assignment_enabled nullOptT (Reference (GlobalOptional t))"
  by (simp add: value_assignment_enabled_def not_trait_def isOptional_never)

end
