(* ===== verification/Serialization.thy ===== *)
theory Serialization
  imports MemWriter Optional
begin

text \<open>
  \<open>libratel/Serialization\<close>: reading values from a buffer. A function takes the value the
  reference parameter had and returns the result, the value it has after the call, and the
  reader. \<open>junk\<close> stands for what an uninitialised local variable holds.
\<close>

section \<open>The functions of the namespace Serialize\<close>

type_synonym 'a deser = "'a \<Rightarrow> MemReader \<Rightarrow> (bool \<times> 'a \<times> MemReader) res"

definition ser_read_bool :: "byte \<Rightarrow> bool deser" where
  "ser_read_bool junk old r =
     andThen (mr_readUint8 junk r) (\<lambda>(ok, tmp, r'). Inr (ok, tmp \<noteq> 0, r'))"

definition ser_read_u8 :: "byte deser" where
  "ser_read_u8 old r = mr_readUint8 old r"

definition ser_read_u16 :: "byte_order \<Rightarrow> u16 deser" where
  "ser_read_u16 bo old r = mr_readUint16 bo old r"

definition ser_read_u32 :: "byte_order \<Rightarrow> u32 deser" where
  "ser_read_u32 bo old r = mr_readUint32 bo old r"

definition ser_read_string :: "byte_order \<Rightarrow> u16 \<Rightarrow> bytes deser" where
  "ser_read_string bo junk old r =
     andThen (ser_read_u16 bo junk r) (\<lambda>(ok, sz, r').
     if \<not> ok then Inr (False, old, r')
     else let str = vec_resize (unat sz) old
          in andThen (mr_readData (ucast sz) r') (\<lambda>(got, r'').
             Inr (case got of None \<Rightarrow> (False, str, r'') | Some bs \<Rightarrow> (True, bs, r''))))"

text \<open>\<open>read(MemReader &, Optional<T> &)\<close>: \<open>res\<close> holds the flag first, then the result.\<close>

definition ser_read_optional :: "'a deser \<Rightarrow> byte \<Rightarrow> 'a \<Rightarrow> 'a Optional deser" where
  "ser_read_optional rd junk t old r =
     andThen (ser_read_bool junk False r) (\<lambda>(ok, res, r').
     if \<not> ok then Inr (False, old, r')
     else if res
     then andThen (rd t r') (\<lambda>(res', t', r'').
          andThen (opt_emplace t' old) (\<lambda>new. Inr (res', new, r'')))
     else Inr (res, old, r'))"

fun read_each :: "'a deser \<Rightarrow> 'a list deser" where
  "read_each rd [] r = Inr (True, [], r)"
| "read_each rd (x # xs) r = andThen (rd x r) (\<lambda>(ok, x', r').
     if \<not> ok then Inr (False, x' # xs, r')
     else andThen (read_each rd xs r') (\<lambda>(ok', xs', r''). Inr (ok', x' # xs', r'')))"

definition ser_read_vector :: "byte_order \<Rightarrow> u16 \<Rightarrow> 'a \<Rightarrow> 'a deser \<Rightarrow> 'a list deser" where
  "ser_read_vector bo junk t rd old r =
     andThen (ser_read_u16 bo junk r) (\<lambda>(ok, sz, r').
     if \<not> ok then Inr (False, old, r')
     else read_each rd (take (unat sz) old @ replicate (unat sz - length old) t) r')"

section \<open>SerializeBuffer\<close>

record SerializeBuffer =
  sb_reader :: MemReader
  sb_writer :: MemWriter

definition sb_new_const :: "bytes \<Rightarrow> u64 \<Rightarrow> SerializeBuffer" where
  "sb_new_const bs n = \<lparr>sb_reader = mr_new bs n, sb_writer = mw_new [] 0\<rparr>"

definition sb_new :: "bytes \<Rightarrow> u64 \<Rightarrow> SerializeBuffer" where
  "sb_new bs n = \<lparr>sb_reader = mr_new bs n, sb_writer = mw_new bs n\<rparr>"

definition sb_read :: "'a deser \<Rightarrow> 'a \<Rightarrow> SerializeBuffer \<Rightarrow> (bool \<times> 'a \<times> SerializeBuffer) res"
  where
  "sb_read rd old sb = andThen (rd old (sb_reader sb)) (\<lambda>(ok, x, r).
     Inr (ok, x, sb\<lparr>sb_reader := r\<rparr>))"

section \<open>The contract of a reading function\<close>

text \<open>
  What the templates need of the \<open>read\<close> they call: where the encoding of a valid value lies at
  the cursor, that value is read and the cursor moves behind it, whatever the parameter held.
\<close>

locale deserializer =
  fixes rd :: "'a deser"
    and enc :: "'a \<Rightarrow> bytes"
    and valid :: "'a \<Rightarrow> bool"
  assumes reads: "valid x \<Longrightarrow> mr_ok r \<Longrightarrow> mr_rest r = enc x @ rest \<Longrightarrow>
    rd old r = Inr (True, x, mr_advanced (length (enc x)) r)"
begin

lemma read_each_at:
  "list_all valid xs \<Longrightarrow> mr_ok r \<Longrightarrow> mr_rest r = concat (map enc xs) @ rest \<Longrightarrow>
   length olds = length xs \<Longrightarrow>
   read_each rd olds r = Inr (True, xs, mr_advanced (length (concat (map enc xs))) r)"
proof (induction xs arbitrary: olds r)
  case (Cons x xs)
  then obtain o1 olds' where olds: "olds = o1 # olds'" "length olds' = length xs"
    by (cases olds) simp_all
  have at: "mr_rest r = enc x @ concat (map enc xs) @ rest"
    using Cons.prems(3) by simp
  note behind = mr_advanced_ok [OF Cons.prems(2) at]
  from Cons.IH [OF _ behind olds(2)] Cons.prems(1) reads [OF _ Cons.prems(2) at] show ?case
    by (simp add: olds(1))
qed simp

lemma read_vector_at:
  assumes "list_all valid xs" "length xs < 65536" "mr_ok r"
    and "mr_rest r = store16 bo (of_nat (length xs)) @ concat (map enc xs) @ rest"
  shows "ser_read_vector bo junk t rd old r =
    Inr (True, xs, mr_advanced (2 + length (concat (map enc xs))) r)"
proof -
  let ?n = "of_nat (length xs) :: u16"
  have n: "unat ?n = length xs"
    using assms(2) by (simp add: unat_of_nat)
  have "ser_read_u16 bo junk r = Inr (True, ?n, mr_advanced 2 r)"
    using readUint_rest(2) [OF assms(3,4)] by (simp add: ser_read_u16_def)
  moreover have "mr_ok (mr_advanced 2 r)" "mr_rest (mr_advanced 2 r) = concat (map enc xs) @ rest"
    using mr_advanced_ok [OF assms(3,4)] by simp_all
  ultimately show ?thesis
    using read_each_at [OF assms(1), of "mr_advanced 2 r" rest
        "take (length xs) old @ replicate (length xs - length old) t"]
    by (simp add: ser_read_vector_def n)
qed

lemma read_optional_at:
  assumes "valid x" "flag \<noteq> 0" "mr_ok r" "mr_rest r = flag # enc x @ rest" "opt_ok old"
  shows "ser_read_optional rd junk t old r =
    Inr (True, opt_of x, mr_advanced (1 + length (enc x)) r)"
proof -
  have "mr_ok (mr_advanced 1 r)" "mr_rest (mr_advanced 1 r) = enc x @ rest"
    using mr_advanced_ok [OF assms(3), of "[flag]"] assms(4) by simp_all
  then have "rd t (mr_advanced 1 r) = Inr (True, x, mr_advanced (1 + length (enc x)) r)"
    using reads [OF assms(1)] by simp
  moreover have "opt_emplace x old = Inr (opt_of x)"
    by (rule opt_ok_cases [OF assms(5)]) (simp_all add: opt_emplace_def)
  ultimately show ?thesis
    using readUint_rest(1) [OF assms(3,4)] assms(2)
    by (simp add: ser_read_optional_def ser_read_bool_def)
qed

end

section \<open>The reading functions meet it\<close>

definition enc_string :: "byte_order \<Rightarrow> bytes \<Rightarrow> bytes" where
  "enc_string bo s = store16 bo (of_nat (length s)) @ s"

lemma read_string_at:
  assumes "length s < 65536" "mr_ok r" "mr_rest r = enc_string bo s @ rest"
  shows "ser_read_string bo junk old r = Inr (True, s, mr_advanced (length (enc_string bo s)) r)"
proof -
  let ?n = "of_nat (length s) :: u16"
  have n: "unat ?n = length s"
    using assms(1) by (simp add: unat_of_nat)
  have at: "mr_rest r = store16 bo ?n @ s @ rest"
    using assms(3) by (simp add: enc_string_def)
  have "ser_read_u16 bo junk r = Inr (True, ?n, mr_advanced 2 r)"
    using readUint_rest(2) [OF assms(2) at] by (simp add: ser_read_u16_def)
  moreover have "mr_ok (mr_advanced 2 r)" "mr_rest (mr_advanced 2 r) = s @ rest"
    using mr_advanced_ok [OF assms(2) at] by simp_all
  then have "mr_readData (ucast ?n) (mr_advanced 2 r)
      = Inr (Some s, mr_advanced (length s) (mr_advanced 2 r))"
    by (rule readData_rest) (use assms(1) in \<open>simp add: n unsigned_ucast_eq take_bit_nat_eq_self\<close>)
  ultimately show ?thesis
    by (simp add: ser_read_string_def Let_def enc_string_def)
qed

interpretation bool_io: deserializer "ser_read_bool junk" "\<lambda>b. [of_bool b]" "\<lambda>_. True"
  by unfold_locales (simp add: ser_read_bool_def readUint_rest(1))

interpretation u8_io: deserializer ser_read_u8 "\<lambda>b. [b]" "\<lambda>_. True"
  by unfold_locales (simp add: ser_read_u8_def readUint_rest(1))

interpretation u16_io: deserializer "ser_read_u16 bo" "store16 bo" "\<lambda>_. True"
  by unfold_locales (simp add: ser_read_u16_def readUint_rest(2))

interpretation u32_io: deserializer "ser_read_u32 bo" "store32 bo" "\<lambda>_. True"
  by unfold_locales (simp add: ser_read_u32_def readUint_rest(3))

interpretation string_io:
  deserializer "ser_read_string bo junk" "enc_string bo" "\<lambda>s. length s < 65536"
  by unfold_locales (rule read_string_at)

lemma read_optional_absent:
  assumes "mr_ok r" "mr_rest r = 0 # rest"
  shows "ser_read_optional rd junk t old r = Inr (False, old, mr_advanced 1 r)"
  using readUint_rest(1) [OF assms] by (simp add: ser_read_optional_def ser_read_bool_def)

section \<open>Property\<close>

text \<open>
  C33: the readers of composite values invert their encodings. Where a vector of strings lies at
  the cursor, as a 16-bit count and then a 16-bit length and the characters of each string,
  that vector is read, whatever it held before; where a non-zero byte and a string lie, an
  optional string is read. But an absent optional, a well-formed zero byte, is answered with
  \<open>false\<close>, the result of a failure, and leaves the old value, although the cursor has moved.
\<close>

theorem serialized_values:
  assumes "mr_ok r" "opt_ok old"
  shows "(list_all (\<lambda>s. length s < 65536) xs \<longrightarrow> length xs < 65536 \<longrightarrow>
      mr_rest r = store16 bo (of_nat (length xs)) @ concat (map (enc_string bo) xs) @ rest \<longrightarrow>
      ser_read_vector bo j t (ser_read_string bo j) olds r =
        Inr (True, xs, mr_advanced (2 + length (concat (map (enc_string bo) xs))) r)) \<and>
    (length s < 65536 \<longrightarrow> flag \<noteq> 0 \<longrightarrow> mr_rest r = flag # enc_string bo s @ rest \<longrightarrow>
      ser_read_optional (ser_read_string bo j) jb t old r =
        Inr (True, opt_of s, mr_advanced (1 + length (enc_string bo s)) r)) \<and>
    (mr_rest r = 0 # rest \<longrightarrow>
      ser_read_optional (ser_read_string bo j) jb t old r = Inr (False, old, mr_advanced 1 r))"
proof (intro conjI impI)
  assume "list_all (\<lambda>s. length s < 65536) xs" "length xs < 65536"
    "mr_rest r = store16 bo (of_nat (length xs)) @ concat (map (enc_string bo) xs) @ rest"
  then show "ser_read_vector bo j t (ser_read_string bo j) olds r =
      Inr (True, xs, mr_advanced (2 + length (concat (map (enc_string bo) xs))) r)"
    by (intro string_io.read_vector_at assms(1))
next
  assume "length s < 65536" "flag \<noteq> 0" "mr_rest r = flag # enc_string bo s @ rest"
  then show "ser_read_optional (ser_read_string bo j) jb t old r =
      Inr (True, opt_of s, mr_advanced (1 + length (enc_string bo s)) r)"
    by (intro string_io.read_optional_at assms)
next
  assume "mr_rest r = 0 # rest"
  then show "ser_read_optional (ser_read_string bo j) jb t old r = Inr (False, old, mr_advanced 1 r)"
    by (rule read_optional_absent [OF assms(1)])
qed

definition demo_reader :: "bytes \<Rightarrow> MemReader" where
  "demo_reader bs = mr_new bs (of_nat (length bs))"

lemma serialized_values_witness:
  "ser_read_vector BigEndian 0 [] (ser_read_string BigEndian 0) [] (demo_reader [0, 1, 0, 2, 104, 105])
     = Inr (True, [[104, 105]], mr_advanced 6 (demo_reader [0, 1, 0, 2, 104, 105])) \<and>
   ser_read_optional (ser_read_string BigEndian 0) 0 [] opt_empty (demo_reader [0])
     = Inr (False, opt_empty, mr_advanced 1 (demo_reader [0]))"
proof -
  have ok: "mr_ok (demo_reader [0, 1, 0, 2, 104, 105])" "mr_ok (demo_reader [0])"
    by (simp_all add: demo_reader_def mr_ok_def mr_new_def)
  have rest: "mr_rest (demo_reader [0]) = 0 # []"
      "mr_rest (demo_reader [0, 1, 0, 2, 104, 105])
        = store16 BigEndian (of_nat (length [[104, 105 :: byte]]))
          @ concat (map (enc_string BigEndian) [[104, 105]]) @ []"
    by (simp_all add: demo_reader_def mr_rest_def mr_new_def enc_string_def store16_def
        hi16_def lo16_def)
  show ?thesis
    using serialized_values [OF ok(1) opt_basic(1), of "[[104, 105]]" BigEndian "[]" 0 "[]" "[]"]
      serialized_values [OF ok(2) opt_basic(1), of "[]" BigEndian "[]" 0 "[]" "[]"] rest
    by (simp add: enc_string_def)
qed

end
