(* ===== verification/EventSocket.thy ===== *)
theory EventSocket
  imports EventSocketConnected
begin

unbundle bit_operations_syntax

text \<open>
  \<open>src/Event/EventSocket.cpp\<close>: the connection class for an accepted socket that is connected
  from the start. The server does not build it (it builds \<open>EventSocketConnected\<close>), so it is
  modelled on its own: one object, the calls it makes to libevent, and a user whose two methods
  are parameters that may do anything to the connection through its interface.
\<close>

section \<open>The object\<close>

record 'u EventSocket =
  skb_user :: "'u option"
  skb_connected :: bool
  skb_calls :: "ext_call list"

type_synonym 'u receiver = "'u \<Rightarrow> bytes \<Rightarrow> 'u EventSocket cmd"
type_synonym 'u closer = "'u \<Rightarrow> 'u EventSocket cmd"

definition skb_emit :: "ext_call \<Rightarrow> 'u EventSocket cmd" where
  "skb_emit x k = Inr (k\<lparr>skb_calls := skb_calls k @ [x]\<rparr>)"

text \<open>\<open>bev\<close>: \<open>bufferevent_socket_new\<close> does not return null.\<close>

definition skb_new :: "bool \<Rightarrow> 'u EventSocket res" where
  "skb_new bev =
     andThen (skb_emit (XNewBev 0) \<lparr>skb_user = None, skb_connected = True, skb_calls = []\<rparr>) (\<lambda>k.
     if bev then Inr k else Inl NullDeref)"

definition skb_setUser :: "'u option \<Rightarrow> 'u EventSocket cmd" where
  "skb_setUser u k = Inr (k\<lparr>skb_user := u\<rparr>)"

definition skb_connect :: "'u EventSocket \<Rightarrow> bool" where
  "skb_connect k = False"

definition skb_send :: "(bytes \<Rightarrow> bool) \<Rightarrow> bytes \<Rightarrow> 'u EventSocket \<Rightarrow> (bool \<times> 'u EventSocket) res"
  where
  "skb_send add_ok buf k =
     (if \<not> add_ok buf then Inr (False, k)
      else andThen (skb_emit (XQueue 0 buf) k) (\<lambda>k. Inr (True, k)))"

definition skb_closeConnection :: "'u EventSocket cmd" where
  "skb_closeConnection k =
     (if \<not> skb_connected k then Inr k
      else seqs [skb_emit (XDisable 0), skb_emit (XCloseSocket 0)] (k\<lparr>skb_connected := False\<rparr>))"

definition skb_isConnected :: "'u EventSocket \<Rightarrow> bool res" where
  "skb_isConnected k = Inr (skb_connected k)"

definition skb_getLocalAddress :: "'u EventSocket \<Rightarrow> SocksAddress option" where
  "skb_getLocalAddress k = None"

section \<open>Callbacks\<close>

definition skb_onRead ::
    "'u receiver \<Rightarrow> bytes option \<Rightarrow> nat \<Rightarrow> 'u EventSocket cmd" where
  "skb_onRead onReceive input copied k =
     (case input of
        None \<Rightarrow> Inr k
      | Some buf \<Rightarrow>
          if copied \<noteq> length buf then Inr k
          else case skb_user k of None \<Rightarrow> Inr k | Some u \<Rightarrow> onReceive u buf k)"

definition skb_onWrite :: "'u EventSocket cmd" where
  "skb_onWrite k = Inr k"

definition skb_closed :: "'u closer \<Rightarrow> 'u EventSocket cmd" where
  "skb_closed onClosed =
     seqs [skb_closeConnection,
           \<lambda>k. case skb_user k of None \<Rightarrow> Inr k | Some u \<Rightarrow> onClosed u k]"

definition skb_onEvent :: "'u closer \<Rightarrow> u16 \<Rightarrow> 'u EventSocket cmd" where
  "skb_onEvent onClosed events =
     seqs [whenC (events AND 0x10 \<noteq> 0) (skb_closed onClosed),
           whenC (events AND 0x20 \<noteq> 0) (skb_closed onClosed)]"

datatype skb_event = SkbReadable "bytes option" nat | SkbWritable | SkbEvent u16

fun skb_handle :: "'u receiver \<Rightarrow> 'u closer \<Rightarrow> skb_event \<Rightarrow> 'u EventSocket cmd" where
  "skb_handle onReceive onClosed (SkbReadable input copied) = skb_onRead onReceive input copied"
| "skb_handle onReceive onClosed SkbWritable = skb_onWrite"
| "skb_handle onReceive onClosed (SkbEvent events) = skb_onEvent onClosed events"

section \<open>It is a connection\<close>

lemma skb_close_result:
  "skb_closeConnection k =
     Inr (if skb_connected k
          then k\<lparr>skb_connected := False, skb_calls := skb_calls k @ [XDisable 0, XCloseSocket 0]\<rparr>
          else k)"
  by (simp add: skb_closeConnection_def skb_emit_def)

interpretation skb: socks_connection "\<lambda>_. True" skb_isConnected skb_closeConnection
  by unfold_locales (simp_all add: skb_isConnected_def skb_close_result)

section \<open>Closing once\<close>

definition closings :: "ext_call list \<Rightarrow> nat" where
  "closings cs = length (filter (\<lambda>x. x = XCloseSocket 0) cs)"

text \<open>The descriptor has been closed once if the connection is down, and never if it is up.\<close>

definition skb_inv :: "'u EventSocket \<Rightarrow> bool" where
  "skb_inv k \<longleftrightarrow> closings (skb_calls k) = (if skb_connected k then 0 else 1)"

text \<open>
  What a user can do to a connection: send, set the user, close. \<open>obeys\<close> holds of a method that
  keeps what those three keep.
\<close>

definition tame :: "'u EventSocket cmd \<Rightarrow> bool" where
  "tame c \<longleftrightarrow> (\<forall>k k'. c k = Inr k' \<longrightarrow> skb_inv k \<longrightarrow>
     skb_inv k' \<and> (skb_connected k' \<longrightarrow> skb_connected k))"

lemma tame_interface:
  "tame skb_closeConnection" "tame (skb_setUser u)" "tame skip" "tame skb_onWrite"
  "tame (\<lambda>k. andThen (skb_send add_ok buf k) (\<lambda>(ok, k). Inr k))"
  by (auto simp: tame_def skb_inv_def closings_def skb_close_result skb_setUser_def skb_onWrite_def
      skb_send_def skb_emit_def split: if_splits)

lemma tameD: "tame c \<Longrightarrow> c k = Inr k' \<Longrightarrow> skb_inv k \<Longrightarrow>
    skb_inv k' \<and> (skb_connected k' \<longrightarrow> skb_connected k)"
  by (simp add: tame_def)

lemma tame_seqs: "list_all tame cs \<Longrightarrow> tame (seqs cs)"
proof (induction cs)
  case (Cons c cs)
  show ?case
    unfolding tame_def
  proof (intro allI impI)
    fix k k' :: "'a EventSocket"
    assume "seqs (c # cs) k = Inr k'" and inv: "skb_inv k"
    then obtain k1 where k1: "c k = Inr k1" "seqs cs k1 = Inr k'"
      by (auto simp: andThen_eq_Inr_iff)
    have "skb_inv k1 \<and> (skb_connected k1 \<longrightarrow> skb_connected k)"
      using Cons.prems tameD [where c = c, OF _ k1(1) inv] by simp
    moreover from this have "skb_inv k' \<and> (skb_connected k' \<longrightarrow> skb_connected k1)"
      using Cons tameD [where c = "seqs cs", OF _ k1(2)] by simp
    ultimately show "skb_inv k' \<and> (skb_connected k' \<longrightarrow> skb_connected k)"
      by blast
  qed
qed (simp add: tame_def)

lemma tame_user: "(\<And>u. tame (f u)) \<Longrightarrow>
    tame (\<lambda>k. case skb_user k of None \<Rightarrow> Inr k | Some u \<Rightarrow> f u k)"
  by (auto simp: tame_def split: option.splits)

lemma tame_closed: "(\<And>u. tame (onClosed u)) \<Longrightarrow> tame (skb_closed onClosed)"
  unfolding skb_closed_def by (rule tame_seqs) (simp add: tame_interface tame_user)

lemma tame_onEvent: "(\<And>u. tame (onClosed u)) \<Longrightarrow> tame (skb_onEvent onClosed events)"
  unfolding skb_onEvent_def
  by (rule tame_seqs) (simp add: tame_closed whenC_def tame_interface(3))

lemma tame_handle:
  assumes "\<And>u buf. tame (onReceive u buf)" "\<And>u. tame (onClosed u)"
  shows "tame (skb_handle onReceive onClosed ev)"
proof (cases ev)
  case (SkbReadable input copied)
  have "tame (skb_onRead onReceive input copied)"
    using assms(1)
    by (auto simp: tame_def skb_onRead_def split: option.splits if_splits)
  with SkbReadable show ?thesis by simp
qed (simp_all add: assms(2) tame_onEvent tame_interface)

text \<open>The two flags that end a connection.\<close>

definition ends :: "skb_event \<Rightarrow> bool" where
  "ends ev = (case ev of SkbEvent events \<Rightarrow> events AND 0x10 \<noteq> 0 \<or> events AND 0x20 \<noteq> 0 | _ \<Rightarrow> False)"

lemma closed_disconnects:
  assumes "\<And>u. tame (onClosed u)" "skb_closed onClosed k = Inr k'" "skb_inv k"
  shows "skb_inv k' \<and> \<not> skb_connected k'"
proof -
  obtain k1 where k1: "skb_closeConnection k = Inr k1"
      "(case skb_user k1 of None \<Rightarrow> Inr k1 | Some u \<Rightarrow> onClosed u k1) = Inr k'"
    using assms(2) by (auto simp: skb_closed_def andThen_eq_Inr_iff)
  have "skb_inv k1 \<and> \<not> skb_connected k1"
    using tameD [OF tame_interface(1) k1(1) assms(3)] skb.close_total [of k] k1(1)
    by (simp add: skb_isConnected_def)
  with tameD [OF tame_user [of onClosed, OF assms(1)] k1(2)] show ?thesis
    by blast
qed

lemma ending_disconnects:
  assumes "\<And>u. tame (onClosed u)" "skb_onEvent onClosed events k = Inr k'" "skb_inv k"
    and "ends (SkbEvent events)"
  shows "skb_inv k' \<and> \<not> skb_connected k'"
proof -
  obtain k1 where k1: "whenC (events AND 0x10 \<noteq> 0) (skb_closed onClosed) k = Inr k1"
      "whenC (events AND 0x20 \<noteq> 0) (skb_closed onClosed) k1 = Inr k'"
    using assms(2) by (auto simp: skb_onEvent_def andThen_eq_Inr_iff)
  show ?thesis
    using k1 assms(3,4) closed_disconnects [OF assms(1), where k = k and k' = k1]
      closed_disconnects [OF assms(1), where k = k1 and k' = k']
    by (auto simp: whenC_def ends_def split: if_splits)
qed

lemma run_closes:
  assumes "\<And>u buf. tame (onReceive u buf)" "\<And>u. tame (onClosed u)"
  shows "seqs (map (skb_handle onReceive onClosed) evs) k = Inr k' \<Longrightarrow> skb_inv k \<Longrightarrow>
    skb_inv k' \<and> (skb_connected k' \<longrightarrow> skb_connected k \<and> \<not> list_ex ends evs)"
proof (induction evs arbitrary: k)
  case (Cons ev evs)
  obtain k1 where k1: "skb_handle onReceive onClosed ev k = Inr k1"
      "seqs (map (skb_handle onReceive onClosed) evs) k1 = Inr k'"
    using Cons.prems(1) by (auto simp: andThen_eq_Inr_iff)
  have "skb_inv k1 \<and> (skb_connected k1 \<longrightarrow> skb_connected k)"
    using tameD [OF tame_handle [OF assms] k1(1) Cons.prems(2)] .
  moreover have "ends ev \<Longrightarrow> \<not> skb_connected k1"
    using k1(1) ending_disconnects [OF assms(2) _ Cons.prems(2)]
    by (cases ev) (auto simp: ends_def)
  ultimately show ?case
    using Cons.IH [OF k1(2)] by auto
qed simp

section \<open>Property\<close>

text \<open>
  An \<open>EventSocket\<close> closes its descriptor once. For every sequence of callbacks, with a user
  whose methods act on the connection through its interface only, \<open>evutil_closesocket\<close> has been
  called at most once, exactly once if and only if the connection is down, and the connection is
  down as soon as one event carried the end-of-file or the error flag.
\<close>

theorem socket_closes_once:
  assumes "\<And>u buf. tame (onReceive u buf)" "\<And>u. tame (onClosed u)"
    and "skb_new True = Inr k0"
    and "seqs (map (skb_handle onReceive onClosed) evs) k0 = Inr k"
  shows "closings (skb_calls k) \<le> 1 \<and>
    (closings (skb_calls k) = 1 \<longleftrightarrow> \<not> skb_connected k) \<and>
    (list_ex ends evs \<longrightarrow> closings (skb_calls k) = 1)"
proof -
  have "skb_inv k0"
    using assms(3) by (auto simp: skb_new_def skb_emit_def skb_inv_def closings_def)
  from run_closes [OF assms(1,2,4) this] show ?thesis
    by (auto simp: skb_inv_def split: if_splits)
qed

lemma socket_closes_once_witness:
  "\<exists>k0 k. skb_new True = Inr (k0 :: unit EventSocket) \<and>
     seqs (map (skb_handle (\<lambda>_ _. skip) (\<lambda>_. skb_closeConnection))
       [SkbEvent 0x10, SkbEvent 0x30]) k0 = Inr k \<and> closings (skb_calls k) = 1"
proof -
  let ?evs = "[SkbEvent 0x10, SkbEvent 0x30]"
  define k0 :: "unit EventSocket"
    where "k0 = \<lparr>skb_user = None, skb_connected = True, skb_calls = [XNewBev 0]\<rparr>"
  have k0: "skb_new True = Inr k0"
    by (simp add: skb_new_def skb_emit_def k0_def)
  obtain k where k: "seqs (map (skb_handle (\<lambda>_ _. skip) (\<lambda>_. skb_closeConnection)) ?evs) k0 = Inr k"
    by (simp add: skb_onEvent_def skb_closed_def skb_close_result k0_def)
  have "list_ex ends ?evs"
    by (simp add: ends_def)
  then show ?thesis
    using socket_closes_once [OF tame_interface(3) tame_interface(1) k0 k] k0 k by blast
qed

end
