(* ===== verification/SignalConnections.thy ===== *)
theory SignalConnections
  imports Prelude
begin

text \<open>
  \<open>libratel/NQSignals/Private\<close>: which slots are connected to which signal. A signal and a slot are
  each a member function of an object, given by the address of the object and the value of the
  member pointer. The storage finds them by a 32-bit hash only. \<open>std::hash\<close> is a parameter, since
  its values are up to the implementation; all that matters below is which pairs collide.
\<close>

section \<open>Hashes and callbacks\<close>

record hasher =
  hash_object :: "nat \<Rightarrow> u64"    \<comment> \<open>\<open>std::hash<T *>\<close>\<close>
  hash_member :: "nat \<Rightarrow> u64"    \<comment> \<open>\<open>std::hash<std::string_view>\<close> of the bytes of a member pointer\<close>
  hash_free :: "nat \<Rightarrow> u64"      \<comment> \<open>\<open>std::hash<void *>\<close> of a function pointer\<close>

definition makeHash :: "hasher \<Rightarrow> nat \<Rightarrow> nat \<Rightarrow> u32" where
  "makeHash H ptr func =
     (let hash = ucast (hash_member H func) :: u32
      in ucast ((ucast hash :: u64) + hash_object H ptr))"

definition makeHashFree :: "hasher \<Rightarrow> nat \<Rightarrow> u32" where
  "makeHashFree H func = ucast (hash_free H func)"

record Callback =
  cb_object :: nat
  cb_method :: nat
  cb_hash :: u32

definition newCallback :: "hasher \<Rightarrow> nat \<Rightarrow> nat \<Rightarrow> Callback" where
  "newCallback H ptr func = \<lparr>cb_object = ptr, cb_method = func, cb_hash = makeHash H ptr func\<rparr>"

definition getHash :: "Callback \<Rightarrow> u32" where
  "getHash cb = cb_hash cb"

definition eqCallback :: "Callback \<Rightarrow> Callback \<Rightarrow> bool" where
  "eqCallback lhs rhs \<longleftrightarrow> getHash lhs = getHash rhs"

section \<open>The storage\<close>

record SignalPipe =
  sp_object :: nat
  sp_callback :: Callback

type_synonym signal_map = "u32 \<rightharpoonup> SignalPipe list"

definition newPipe :: "hasher \<Rightarrow> nat \<Rightarrow> nat \<Rightarrow> SignalPipe" where
  "newPipe H t f = \<lparr>sp_object = t, sp_callback = newCallback H t f\<rparr>"

text \<open>\<open>std::find_if\<close> with the hash of a slot, and what the code does to the element it finds.\<close>

fun set_first :: "u32 \<Rightarrow> Callback \<Rightarrow> SignalPipe list \<Rightarrow> SignalPipe list" where
  "set_first h cb [] = []"
| "set_first h cb (p # conn) =
     (if getHash (sp_callback p) = h then p\<lparr>sp_callback := cb\<rparr> # conn
      else p # set_first h cb conn)"

fun erase_first :: "u32 \<Rightarrow> SignalPipe list \<Rightarrow> SignalPipe list" where
  "erase_first h [] = []"
| "erase_first h (p # conn) =
     (if getHash (sp_callback p) = h then conn else p # erase_first h conn)"

definition found :: "u32 \<Rightarrow> SignalPipe list \<Rightarrow> bool" where
  "found h conn \<longleftrightarrow> list_ex (\<lambda>p. getHash (sp_callback p) = h) conn"

definition sig_connect ::
    "hasher \<Rightarrow> nat \<Rightarrow> nat \<Rightarrow> nat \<Rightarrow> nat \<Rightarrow> signal_map \<Rightarrow> bool \<times> signal_map" where
  "sig_connect H t1 f1 t2 f2 m =
     (case m (makeHash H t1 f1) of
        None \<Rightarrow> (True, m(makeHash H t1 f1 \<mapsto> [newPipe H t2 f2]))
      | Some conn \<Rightarrow>
          let h = makeHash H t2 f2
          in if found h conn
             then (True, m(makeHash H t1 f1 \<mapsto> set_first h (newCallback H t2 f2) conn))
             else (True, m(makeHash H t1 f1 \<mapsto> conn @ [newPipe H t2 f2])))"

definition sig_disconnect ::
    "hasher \<Rightarrow> nat \<Rightarrow> nat \<Rightarrow> nat \<Rightarrow> nat \<Rightarrow> signal_map \<Rightarrow> bool \<times> signal_map" where
  "sig_disconnect H t1 f1 t2 f2 m =
     (case m (makeHash H t1 f1) of
        None \<Rightarrow> (False, m)
      | Some conn \<Rightarrow>
          let h = makeHash H t2 f2
          in if \<not> found h conn then (False, m)
             else let conn' = erase_first h conn
                  in (True, m(makeHash H t1 f1 := (if conn' = [] then None else Some conn'))))"

definition disconnectByHash :: "u32 \<Rightarrow> nat \<Rightarrow> signal_map \<Rightarrow> bool \<times> signal_map" where
  "disconnectByHash h ptr m =
     (case m h of
        None \<Rightarrow> (False, m)
      | Some conn \<Rightarrow> (True, m(h \<mapsto> filter (\<lambda>p. sp_object p \<noteq> ptr) conn)))"

definition hasConnection :: "u32 \<Rightarrow> signal_map \<Rightarrow> bool" where
  "hasConnection h m \<longleftrightarrow> m h \<noteq> None"

definition getConnection :: "u32 \<Rightarrow> signal_map \<Rightarrow> SignalPipe list res" where
  "getConnection h m = (case m h of None \<Rightarrow> Inl RuntimeError | Some conn \<Rightarrow> Inr conn)"

section \<open>Subscriptions\<close>

text \<open>
  What the storage is meant to keep: for each signal the slots connected to it, in the order of
  their connection, each at most once.
\<close>

type_synonym member_ref = "nat \<times> nat"
type_synonym subscriptions = "member_ref \<rightharpoonup> member_ref list"

definition spec_connect :: "member_ref \<Rightarrow> member_ref \<Rightarrow> subscriptions \<Rightarrow> subscriptions" where
  "spec_connect s r a =
     (case a s of None \<Rightarrow> a(s \<mapsto> [r]) | Some rs \<Rightarrow> if r \<in> set rs then a else a(s \<mapsto> rs @ [r]))"

definition spec_disconnect ::
    "member_ref \<Rightarrow> member_ref \<Rightarrow> subscriptions \<Rightarrow> bool \<times> subscriptions" where
  "spec_disconnect s r a =
     (case a s of
        None \<Rightarrow> (False, a)
      | Some rs \<Rightarrow>
          if r \<notin> set rs then (False, a)
          else (True, a(s := (if remove1 r rs = [] then None else Some (remove1 r rs)))))"

text \<open>
  \<open>D\<close> are the members that a program uses as signals or slots, \<open>collision_free\<close> says that their
  hashes differ, \<open>slot_of\<close> and \<open>slots\<close> read the storage.
\<close>

definition member_hash :: "hasher \<Rightarrow> member_ref \<Rightarrow> u32" where
  "member_hash H s = makeHash H (fst s) (snd s)"

definition collision_free :: "hasher \<Rightarrow> member_ref set \<Rightarrow> bool" where
  "collision_free H D \<longleftrightarrow> inj_on (member_hash H) D"

definition slot_of :: "SignalPipe \<Rightarrow> member_ref" where
  "slot_of p = (cb_object (sp_callback p), cb_method (sp_callback p))"

definition slots :: "hasher \<Rightarrow> member_ref set \<Rightarrow> signal_map \<Rightarrow> subscriptions" where
  "slots H D m = (\<lambda>s. if s \<in> D then map_option (map slot_of) (m (member_hash H s)) else None)"

text \<open>A pipe built by the code for a slot of \<open>D\<close>.\<close>

definition pipe_ok :: "hasher \<Rightarrow> member_ref set \<Rightarrow> SignalPipe \<Rightarrow> bool" where
  "pipe_ok H D p \<longleftrightarrow> slot_of p \<in> D \<and> p = newPipe H (fst (slot_of p)) (snd (slot_of p))"

definition storage_ok :: "hasher \<Rightarrow> member_ref set \<Rightarrow> signal_map \<Rightarrow> bool" where
  "storage_ok H D m \<longleftrightarrow> (\<forall>h conn. m h = Some conn \<longrightarrow> list_all (pipe_ok H D) conn)"

lemma slot_newPipe [simp]:
  "slot_of (newPipe H t f) = (t, f)" "sp_object (newPipe H t f) = t"
  "getHash (sp_callback (newPipe H t f)) = makeHash H t f"
  "(newPipe H t f)\<lparr>sp_callback := newCallback H t f\<rparr> = newPipe H t f"
  by (simp_all add: slot_of_def newPipe_def newCallback_def getHash_def)

lemma pipe_ok_new: "(t, f) \<in> D \<Longrightarrow> pipe_ok H D (newPipe H t f)"
  by (simp add: pipe_ok_def)

text \<open>In a good list the hash finds the slot itself, and nothing else.\<close>

lemma hash_finds_slot:
  assumes "collision_free H D" "pipe_ok H D p" "r \<in> D"
  shows "getHash (sp_callback p) = member_hash H r \<longleftrightarrow> slot_of p = r"
proof -
  have "getHash (sp_callback p) = member_hash H (slot_of p)"
    using assms(2) slot_newPipe(3) [of H "fst (slot_of p)" "snd (slot_of p)"]
    by (simp add: pipe_ok_def member_hash_def)
  moreover have "slot_of p \<in> D"
    using assms(2) by (simp add: pipe_ok_def)
  ultimately show ?thesis
    using assms(1,3) by (auto simp: collision_free_def inj_on_def)
qed

lemma found_iff:
  assumes "collision_free H D" "list_all (pipe_ok H D) conn" "r \<in> D"
  shows "found (member_hash H r) conn \<longleftrightarrow> r \<in> slot_of ` set conn"
  using assms(2) hash_finds_slot [OF assms(1) _ assms(3)]
  by (induction conn) (auto simp: found_def)

lemma pipe_ok_update:
  "pipe_ok H D p \<Longrightarrow> slot_of p = r \<Longrightarrow> p\<lparr>sp_callback := newCallback H (fst r) (snd r)\<rparr> = p"
  by (metis pipe_ok_def slot_newPipe(4))

lemma set_first_same:
  assumes "collision_free H D" "list_all (pipe_ok H D) conn" "r \<in> D"
  shows "set_first (member_hash H r) (newCallback H (fst r) (snd r)) conn = conn"
  using assms(2)
proof (induction conn)
  case (Cons p conn)
  then show ?case
    using hash_finds_slot [OF assms(1) _ assms(3), of p] pipe_ok_update [of H D p r] by simp
qed simp

lemma erase_first_slots:
  assumes "collision_free H D" "list_all (pipe_ok H D) conn" "r \<in> D"
  shows "map slot_of (erase_first (member_hash H r) conn) = remove1 r (map slot_of conn) \<and>
    list_all (pipe_ok H D) (erase_first (member_hash H r) conn)"
  using assms(2) hash_finds_slot [OF assms(1) _ assms(3)]
  by (induction conn) auto

section \<open>The storage keeps subscriptions\<close>

text \<open>An update of the entry of one signal is an update of its subscriptions only.\<close>

lemma slots_update:
  assumes "collision_free H D" "s \<in> D"
  shows "slots H D (m(member_hash H s := c)) = (slots H D m)(s := map_option (map slot_of) c)"
  using assms by (auto simp: slots_def collision_free_def inj_on_def fun_eq_iff)

lemma storage_ok_update:
  "storage_ok H D m \<Longrightarrow> (\<And>conn. c = Some conn \<Longrightarrow> list_all (pipe_ok H D) conn) \<Longrightarrow>
     storage_ok H D (m(h := c))"
  by (auto simp: storage_ok_def)

lemma connect_refines:
  assumes "collision_free H D" "storage_ok H D m" "(t1, f1) \<in> D" "(t2, f2) \<in> D"
  shows "fst (sig_connect H t1 f1 t2 f2 m) \<and> storage_ok H D (snd (sig_connect H t1 f1 t2 f2 m)) \<and>
    slots H D (snd (sig_connect H t1 f1 t2 f2 m))
      = spec_connect (t1, f1) (t2, f2) (slots H D m)"
proof (cases "m (makeHash H t1 f1)")
  case None
  then have "slots H D m (t1, f1) = None"
    by (simp add: slots_def member_hash_def)
  moreover have "storage_ok H D (m(makeHash H t1 f1 \<mapsto> [newPipe H t2 f2]))"
    using pipe_ok_new [OF assms(4), of H] by (intro storage_ok_update assms(2)) auto
  ultimately show ?thesis
    using None slots_update [OF assms(1,3), of m]
    by (simp add: sig_connect_def spec_connect_def member_hash_def)
next
  case (Some conn)
  then have conn: "list_all (pipe_ok H D) conn"
    using assms(2) by (simp add: storage_ok_def)
  note found = found_iff [OF assms(1) conn assms(4), unfolded member_hash_def fst_conv snd_conv]
  note same = set_first_same [OF assms(1) conn assms(4), unfolded member_hash_def fst_conv snd_conv]
  have old: "slots H D m (t1, f1) = Some (map slot_of conn)"
    using Some assms(3) by (simp add: slots_def member_hash_def)
  have again: "m(makeHash H t1 f1 \<mapsto> conn) = m"
    using Some by auto
  show ?thesis
    using slots_update [OF assms(1,3), of m] pipe_ok_new [OF assms(4), of H] conn assms(2)
    by (auto simp: sig_connect_def Some Let_def found same again spec_connect_def old
        member_hash_def intro!: storage_ok_update)
qed

lemma disconnect_refines:
  assumes "collision_free H D" "storage_ok H D m" "(t1, f1) \<in> D" "(t2, f2) \<in> D"
  shows "fst (sig_disconnect H t1 f1 t2 f2 m)
      = fst (spec_disconnect (t1, f1) (t2, f2) (slots H D m)) \<and>
    storage_ok H D (snd (sig_disconnect H t1 f1 t2 f2 m)) \<and>
    slots H D (snd (sig_disconnect H t1 f1 t2 f2 m))
      = snd (spec_disconnect (t1, f1) (t2, f2) (slots H D m))"
proof (cases "m (makeHash H t1 f1)")
  case None
  then show ?thesis
    using assms(2,3) by (simp add: sig_disconnect_def spec_disconnect_def slots_def member_hash_def)
next
  case (Some conn)
  then have conn: "list_all (pipe_ok H D) conn"
    using assms(2) by (simp add: storage_ok_def)
  let ?e = "erase_first (makeHash H t2 f2) conn"
  note found = found_iff [OF assms(1) conn assms(4), unfolded member_hash_def fst_conv snd_conv]
  have e: "map slot_of ?e = remove1 (t2, f2) (map slot_of conn)" "list_all (pipe_ok H D) ?e"
    using erase_first_slots [OF assms(1) conn assms(4)] by (simp_all add: member_hash_def)
  then have empty: "remove1 (t2, f2) (map slot_of conn) = [] \<longleftrightarrow> ?e = []"
    by (metis map_is_Nil_conv)
  have old: "slots H D m (t1, f1) = Some (map slot_of conn)"
    using Some assms(3) by (simp add: slots_def member_hash_def)
  show ?thesis
    using slots_update [OF assms(1,3), of m] e assms(2)
    by (auto simp: sig_disconnect_def Some Let_def found spec_disconnect_def old empty
        member_hash_def intro!: storage_ok_update)
qed

text \<open>Each slot is connected once, whatever the program connects and disconnects.\<close>

definition subscribed_once :: "subscriptions \<Rightarrow> bool" where
  "subscribed_once a \<longleftrightarrow> (\<forall>s rs. a s = Some rs \<longrightarrow> distinct rs \<and> rs \<noteq> [])"

lemma spec_connect_once: "subscribed_once a \<Longrightarrow> subscribed_once (spec_connect s r a)"
  by (auto simp: subscribed_once_def spec_connect_def split: option.splits)

lemma spec_disconnect_once: "subscribed_once a \<Longrightarrow> subscribed_once (snd (spec_disconnect s r a))"
  by (auto simp: subscribed_once_def spec_disconnect_def split: option.splits)

section \<open>Property\<close>

datatype signal_op = Connect member_ref member_ref | Disconnect member_ref member_ref

fun do_op :: "hasher \<Rightarrow> signal_op \<Rightarrow> signal_map \<Rightarrow> bool \<times> signal_map" where
  "do_op H (Connect s r) m = sig_connect H (fst s) (snd s) (fst r) (snd r) m"
| "do_op H (Disconnect s r) m = sig_disconnect H (fst s) (snd s) (fst r) (snd r) m"

fun spec_op :: "signal_op \<Rightarrow> subscriptions \<Rightarrow> bool \<times> subscriptions" where
  "spec_op (Connect s r) a = (True, spec_connect s r a)"
| "spec_op (Disconnect s r) a = spec_disconnect s r a"

fun members :: "signal_op \<Rightarrow> member_ref set" where
  "members (Connect s r) = {s, r}"
| "members (Disconnect s r) = {s, r}"

fun run_ops :: "('op \<Rightarrow> 'm \<Rightarrow> bool \<times> 'm) \<Rightarrow> 'op list \<Rightarrow> 'm \<Rightarrow> bool list \<times> 'm" where
  "run_ops f [] m = ([], m)"
| "run_ops f (op # ops) m =
     (let (b, m') = f op m; (bs, m'') = run_ops f ops m' in (b # bs, m''))"

lemma do_op_refines:
  assumes "collision_free H D" "storage_ok H D m" "members op \<subseteq> D"
  shows "fst (do_op H op m) = fst (spec_op op (slots H D m)) \<and>
    storage_ok H D (snd (do_op H op m)) \<and>
    slots H D (snd (do_op H op m)) = snd (spec_op op (slots H D m))"
  using connect_refines [OF assms(1,2)] disconnect_refines [OF assms(1,2)] assms(3)
  by (cases op) auto

lemma spec_op_once: "subscribed_once a \<Longrightarrow> subscribed_once (snd (spec_op op a))"
  by (cases op) (simp_all add: spec_connect_once spec_disconnect_once)

lemma run_refines:
  "collision_free H D \<Longrightarrow> storage_ok H D m \<Longrightarrow> \<forall>op \<in> set ops. members op \<subseteq> D \<Longrightarrow>
   subscribed_once (slots H D m) \<Longrightarrow>
   fst (run_ops (do_op H) ops m) = fst (run_ops spec_op ops (slots H D m)) \<and>
   slots H D (snd (run_ops (do_op H) ops m)) = snd (run_ops spec_op ops (slots H D m)) \<and>
   subscribed_once (slots H D (snd (run_ops (do_op H) ops m)))"
proof (induction ops arbitrary: m)
  case (Cons op ops)
  note one = do_op_refines [OF Cons.prems(1,2), of op]
  have "subscribed_once (slots H D (snd (do_op H op m)))"
    using one spec_op_once [OF Cons.prems(4), of op] Cons.prems(3) by simp
  with Cons.IH [OF Cons.prems(1), of "snd (do_op H op m)"] one Cons.prems(3) show ?case
    by (simp add: Let_def split: prod.splits) (metis fst_conv snd_conv)
qed simp

text \<open>
  C27: as long as the members a program uses have different hashes, the signal storage keeps
  exactly the subscriptions: every sequence of \<open>connect\<close> and \<open>disconnect\<close> gives the results and
  leaves the slots that the specification says, for each signal in the order of their
  connection, each slot once, and no signal affects another.
\<close>

theorem storage_keeps_subscriptions:
  assumes "collision_free H D" "\<forall>op \<in> set ops. members op \<subseteq> D"
  shows "fst (run_ops (do_op H) ops Map.empty) = fst (run_ops spec_op ops Map.empty) \<and>
    slots H D (snd (run_ops (do_op H) ops Map.empty)) = snd (run_ops spec_op ops Map.empty) \<and>
    subscribed_once (slots H D (snd (run_ops (do_op H) ops Map.empty)))"
proof -
  have "slots H D Map.empty = Map.empty"
    by (auto simp: slots_def)
  moreover have "storage_ok H D Map.empty" "subscribed_once Map.empty"
    by (simp_all add: storage_ok_def subscribed_once_def)
  ultimately show ?thesis
    using run_refines [OF assms(1) _ assms(2), of Map.empty] by metis
qed

text \<open>A hash like that of common implementations: the address itself.\<close>

definition demo_hasher :: hasher where
  "demo_hasher = \<lparr>hash_object = of_nat, hash_member = (\<lambda>f. of_nat (256 * f)), hash_free = of_nat\<rparr>"

lemma storage_keeps_subscriptions_witness:
  "run_ops (do_op demo_hasher) [Connect (1, 1) (2, 2), Disconnect (1, 1) (1, 1)] Map.empty
     = ([True, False], snd (run_ops (do_op demo_hasher)
         [Connect (1, 1) (2, 2), Disconnect (1, 1) (1, 1)] Map.empty)) \<and>
   slots demo_hasher {(1, 1), (2, 2)} (snd (run_ops (do_op demo_hasher)
       [Connect (1, 1) (2, 2), Disconnect (1, 1) (1, 1)] Map.empty)) (1, 1) = Some [(2, 2)]"
proof -
  let ?ops = "[Connect (1, 1) (2, 2), Disconnect (1, 1) (1, 1)]"
  have "collision_free demo_hasher {(1, 1), (2, 2)}"
    by (simp add: collision_free_def member_hash_def makeHash_def demo_hasher_def Let_def)
  then have "fst (run_ops (do_op demo_hasher) ?ops Map.empty) = fst (run_ops spec_op ?ops Map.empty) \<and>
      slots demo_hasher {(1, 1), (2, 2)} (snd (run_ops (do_op demo_hasher) ?ops Map.empty))
        = snd (run_ops spec_op ?ops Map.empty)"
    using storage_keeps_subscriptions [of demo_hasher "{(1, 1), (2, 2)}" ?ops] by simp
  then show ?thesis
    by (simp add: spec_connect_def spec_disconnect_def prod_eq_iff del: run_ops.simps(2))
      (simp add: spec_connect_def spec_disconnect_def Let_def)
qed

text \<open>Without that assumption two members that collide share their slots.\<close>

lemma colliding_signals_share_slots:
  "hasConnection (makeHash demo_hasher 257 1) (snd (sig_connect demo_hasher 1 2 f r Map.empty))"
  by (simp add: sig_connect_def hasConnection_def makeHash_def demo_hasher_def Let_def)

end
