(* ===== verification/ConcurrentQueue.thy ===== *)
theory ConcurrentQueue
  imports Prelude
begin

text \<open>
  \<open>libratel/ConcurrentQueue.h\<close>: a queue shared by threads. The first section is what each
  operation does to the \<open>deque\<close> while it holds the mutex. The second is the protocol of the
  mutex and the condition variable: the steps threads take, one lock-protected section at a
  time, with the threads that sleep in \<open>wait\<close>, those that have been woken but do not have the
  mutex yet, and the \<open>notify_one\<close> calls that pushing threads still owe, which they make after
  they have released the mutex.
\<close>

section \<open>Operations\<close>

definition cq_push :: "'a \<Rightarrow> 'a list \<Rightarrow> 'a list" where
  "cq_push val q = q @ [val]"

definition cq_tryPop :: "'a \<Rightarrow> 'a list \<Rightarrow> bool \<times> 'a \<times> 'a list" where
  "cq_tryPop old q = (case q of [] \<Rightarrow> (False, old, q) | x # xs \<Rightarrow> (True, x, xs))"

text \<open>One turn of the loop of \<open>pop\<close>: \<open>None\<close> when the thread has to wait.\<close>

definition cq_pop :: "'a list \<Rightarrow> ('a \<times> 'a list) option" where
  "cq_pop q = (case q of [] \<Rightarrow> None | x # xs \<Rightarrow> Some (x, xs))"

definition cq_empty :: "'a list \<Rightarrow> bool" where
  "cq_empty q = (q = [])"

definition cq_size :: "'a list \<Rightarrow> nat" where
  "cq_size q = length q"

section \<open>Threads\<close>

record 'a cq_state =
  cq_queue :: "'a list"
  cq_waiting :: nat       \<comment> \<open>threads asleep in \<open>_cv.wait\<close>\<close>
  cq_woken :: nat         \<comment> \<open>threads that will test \<open>_queue.empty()\<close> again\<close>
  cq_owed :: nat          \<comment> \<open>\<open>notify_one\<close> calls still to come\<close>
  cq_pushed :: "'a list"  \<comment> \<open>all values pushed so far\<close>
  cq_popped :: "'a list"  \<comment> \<open>all values popped so far\<close>

definition cq_new :: "'a cq_state" where
  "cq_new = \<lparr>cq_queue = [], cq_waiting = 0, cq_woken = 0, cq_owed = 0,
             cq_pushed = [], cq_popped = []\<rparr>"

definition cq_take :: "'a \<Rightarrow> 'a list \<Rightarrow> 'a cq_state \<Rightarrow> 'a cq_state" where
  "cq_take x q s = s\<lparr>cq_queue := q, cq_popped := cq_popped s @ [x]\<rparr>"

inductive cq_step :: "'a cq_state \<Rightarrow> 'a cq_state \<Rightarrow> bool" where
  push: "cq_step s (s\<lparr>cq_queue := cq_push val (cq_queue s), cq_owed := cq_owed s + 1,
           cq_pushed := cq_pushed s @ [val]\<rparr>)"
| notify: "0 < cq_owed s \<Longrightarrow> 0 < cq_waiting s \<Longrightarrow>
    cq_step s (s\<lparr>cq_waiting := cq_waiting s - 1, cq_woken := cq_woken s + 1,
                cq_owed := cq_owed s - 1\<rparr>)"
| notify_nobody: "0 < cq_owed s \<Longrightarrow> cq_waiting s = 0 \<Longrightarrow> cq_step s (s\<lparr>cq_owed := cq_owed s - 1\<rparr>)"
| try_pop: "cq_tryPop old (cq_queue s) = (True, x, q) \<Longrightarrow> cq_step s (cq_take x q s)"
| pop: "cq_pop (cq_queue s) = Some (x, q) \<Longrightarrow> cq_step s (cq_take x q s)"
| pop_wait: "cq_pop (cq_queue s) = None \<Longrightarrow> cq_step s (s\<lparr>cq_waiting := cq_waiting s + 1\<rparr>)"
| woken_pop: "0 < cq_woken s \<Longrightarrow> cq_pop (cq_queue s) = Some (x, q) \<Longrightarrow>
    cq_step s (cq_take x q (s\<lparr>cq_woken := cq_woken s - 1\<rparr>))"
| woken_wait: "0 < cq_woken s \<Longrightarrow> cq_pop (cq_queue s) = None \<Longrightarrow>
    cq_step s (s\<lparr>cq_waiting := cq_waiting s + 1, cq_woken := cq_woken s - 1\<rparr>)"
| spurious: "0 < cq_waiting s \<Longrightarrow>
    cq_step s (s\<lparr>cq_waiting := cq_waiting s - 1, cq_woken := cq_woken s + 1\<rparr>)"

inductive cq_reachable :: "'a cq_state \<Rightarrow> bool" where
  new: "cq_reachable cq_new"
| step: "cq_reachable s \<Longrightarrow> cq_step s s' \<Longrightarrow> cq_reachable s'"

definition cq_inv :: "'a cq_state \<Rightarrow> bool" where
  "cq_inv s \<longleftrightarrow> cq_pushed s = cq_popped s @ cq_queue s \<and>
     (0 < cq_waiting s \<longrightarrow> length (cq_queue s) \<le> cq_woken s + cq_owed s)"

lemma cq_pops:
  "cq_tryPop old q = (True, x, q') \<longleftrightarrow> q = x # q'"
  "cq_pop q = Some (x, q') \<longleftrightarrow> q = x # q'"
  "cq_pop q = None \<longleftrightarrow> q = []"
  by (auto simp: cq_tryPop_def cq_pop_def split: list.splits)

lemma cq_step_inv: "cq_step s s' \<Longrightarrow> cq_inv s \<Longrightarrow> cq_inv s'"
  by (induction rule: cq_step.induct) (auto simp: cq_inv_def cq_pops cq_take_def cq_push_def)

lemma cq_reachable_inv: "cq_reachable s \<Longrightarrow> cq_inv s"
proof (induction rule: cq_reachable.induct)
  case new
  then show ?case by (simp add: cq_inv_def cq_new_def)
next
  case (step s s')
  then show ?case by (blast intro: cq_step_inv)
qed

section \<open>Property\<close>

text \<open>
  C26: the queue loses nothing. For every interleaving of threads that push and pop, values come
  out in the order they went in, none twice and none lost, and no wake-up is lost although
  \<open>push\<close> notifies after it has released the mutex: while a thread sleeps in \<open>pop\<close>, every value
  in the queue has a woken thread or a notification still to come for it, so that once nobody
  has anything left to do, a sleeping thread means an empty queue.
\<close>

theorem queue_loses_nothing:
  assumes "cq_reachable s"
  shows "cq_pushed s = cq_popped s @ cq_queue s \<and>
    (0 < cq_waiting s \<longrightarrow> cq_size (cq_queue s) \<le> cq_woken s + cq_owed s) \<and>
    (0 < cq_waiting s \<longrightarrow> cq_woken s = 0 \<longrightarrow> cq_owed s = 0 \<longrightarrow> cq_empty (cq_queue s))"
  using cq_reachable_inv [OF assms] by (auto simp: cq_inv_def cq_size_def cq_empty_def)

definition demo_queue :: "nat cq_state" where
  "demo_queue = \<lparr>cq_queue = [7], cq_waiting = 1, cq_woken = 0, cq_owed = 1,
                 cq_pushed = [7], cq_popped = []\<rparr>"

text \<open>A thread that waits, and a value that has just been pushed.\<close>

lemma queue_loses_nothing_witness:
  "cq_reachable demo_queue \<and> cq_size (cq_queue demo_queue) \<le> cq_woken demo_queue + cq_owed demo_queue"
proof -
  let ?w = "(cq_new :: nat cq_state)\<lparr>cq_waiting := 1\<rparr>"
  have "cq_step cq_new ?w"
    using cq_step.pop_wait [of "cq_new :: nat cq_state"] by (simp add: cq_pops) (simp add: cq_new_def)
  then have "cq_reachable ?w"
    by (rule cq_reachable.step [OF cq_reachable.new])
  moreover have "cq_step ?w demo_queue"
    using cq_step.push [of ?w 7] by (simp add: cq_new_def demo_queue_def cq_push_def)
  ultimately have r: "cq_reachable demo_queue"
    by (rule cq_reachable.step)
  show ?thesis
    using queue_loses_nothing [OF r] r by (simp add: demo_queue_def)
qed

end
