(* ===== verification/CallTypes.thy ===== *)
theory CallTypes
  imports Main
begin

text \<open>
  The types behind \<open>Callback\<close> of \<open>libratel/NQSignals/Private/SignalCallback.h\<close>. It forgets the type
  of the function it keeps and is called through a function pointer whose type is made from the
  arguments of the call. This theory has the types of such calls, which theory \<open>NQSignals\<close> checks its calls with,
  where a call through another type than that of the function is an error.
\<close>

section \<open>Types and expressions\<close>

text \<open>
  \<open>T\<close>, \<open>T &\<close> and \<open>T &&\<close> for an object type \<open>T\<close>, which is a number here; a type with \<open>const\<close> counts as an
  object type of its own. \<open>rref\<close> adds \<open>&&\<close>, with the collapsing of references.
\<close>

datatype cpp_type =
    Val (base: nat)
  | LRef (base: nat)
  | RRef (base: nat)

fun rref :: "cpp_type \<Rightarrow> cpp_type" where
  "rref (Val t) = RRef t"
| "rref (LRef t) = LRef t"
| "rref (RRef t) = RRef t"

datatype expression = LValue nat | XValue nat

text \<open>What a parameter \<open>Args &&\<close> deduces from its argument, and \<open>std::forward<A>\<close> of such a parameter.\<close>

fun deduced :: "expression \<Rightarrow> cpp_type" where
  "deduced (LValue t) = LRef t"
| "deduced (XValue t) = Val t"

fun forwarded :: "cpp_type \<Rightarrow> expression" where
  "forwarded (LRef t) = LValue t"
| "forwarded (Val t) = XValue t"
| "forwarded (RRef t) = XValue t"

text \<open>Whether a parameter of a type can be initialised: by a moved copy, or by binding a reference.\<close>

fun binds :: "cpp_type \<Rightarrow> expression \<Rightarrow> bool" where
  "binds (LRef t) e = (e = LValue t)"
| "binds (RRef t) e = (e = XValue t)"
| "binds (Val t) e = (e = XValue t \<or> e = LValue t)"

section \<open>\<open>Callback\<close>\<close>

text \<open>
  \<open>std::any\<close> holds a \<open>CallbackFuncStorage<R, Args...>\<close>, and \<open>_cb\<close> the address of
  \<open>callbackTemplate<R, Args...>\<close>.
\<close>

record callback_types =
  ct_funcStorage :: "(nat \<times> cpp_type list) option"
  ct_cb :: "(nat \<times> cpp_type list) option"

datatype call_error = NullPointer | WrongFunctionType | BadAnyCast

definition callback_default :: callback_types where
  "callback_default = \<lparr>ct_funcStorage = None, ct_cb = None\<rparr>"

definition callback_new :: "nat \<Rightarrow> cpp_type list \<Rightarrow> callback_types" where
  "callback_new R Args = \<lparr>ct_funcStorage = Some (R, Args), ct_cb = Some (R, Args)\<rparr>"

text \<open>
  \<open>CallbackFuncStorage::operator ()\<close>, \<open>std::function<R (Args...)>\<close> and the lambda of \<open>makeWrapper\<close> each
  forward what they get: these are the arguments of the function itself.
\<close>

definition funcStorage_call :: "cpp_type list \<Rightarrow> expression list" where
  "funcStorage_call Args = map forwarded Args"

definition callbackTemplate ::
    "nat \<times> cpp_type list \<Rightarrow> (nat \<times> cpp_type list) option \<Rightarrow> call_error + expression list" where
  "callbackTemplate key f = (if f = Some key then Inr (funcStorage_call (snd key)) else Inl BadAnyCast)"

text \<open>
  \<open>operator ()\<close>: the pointer is cast to \<open>void (*) (std::any &, Args && ...)\<close> with the types deduced from
  the actual arguments.
\<close>

definition callback_call :: "callback_types \<Rightarrow> expression list \<Rightarrow> call_error + expression list" where
  "callback_call cb args =
     (case ct_cb cb of
        None \<Rightarrow> Inl NullPointer
      | Some key \<Rightarrow>
          if map rref (snd key) = map (\<lambda>e. rref (deduced e)) args
          then callbackTemplate key (ct_funcStorage cb)
          else Inl WrongFunctionType)"

section \<open>Signals\<close>

definition voidT :: nat where "voidT = 0"
definition weakT :: nat where "weakT = 1"   \<comment> \<open>\<open>std::weak_ptr<Callback>\<close>\<close>
definition hashT :: nat where "hashT = 2"   \<comment> \<open>\<open>uint32_t\<close>\<close>

text \<open>
  \<open>SignalStorage::call\<close>: \<open>std::apply\<close> passes the elements of the moved tuple, of types \<open>Args\<close>.
\<close>

definition storage_call :: "callback_types \<Rightarrow> cpp_type list \<Rightarrow> call_error + expression list" where
  "storage_call cb Args = callback_call cb (map forwarded Args)"

text \<open>
  \<open>emitAll\<close> for a signal with the parameters \<open>Args\<close>: the tuple, and the callback, which is bound to
  \<open>onSignalEmmited\<close> with the types of the whole tuple as its template arguments. That
  template has two parameters in front of \<open>Args && ...\<close> already.
\<close>

definition signal_tuple :: "cpp_type list \<Rightarrow> cpp_type list" where
  "signal_tuple Args = Val weakT # Val hashT # Args"

definition onSignalEmmited_params :: "cpp_type list \<Rightarrow> cpp_type list" where
  "onSignalEmmited_params Args = Val weakT # Val hashT # map rref Args"

definition emit_callback :: "cpp_type list \<Rightarrow> callback_types" where
  "emit_callback Args = callback_new voidT (onSignalEmmited_params (signal_tuple Args))"

text \<open>
  The arguments \<open>onSignalEmmited<Args...>\<close> passes to a slot: moved if there is one slot only, and by name
  otherwise. \<open>connect\<close> takes slots with the parameters of the signal only.
\<close>

definition slot_args :: "nat \<Rightarrow> cpp_type list \<Rightarrow> expression list" where
  "slot_args n Args = (if n = 1 then map (\<lambda>a. XValue (base a)) Args else map (\<lambda>a. LValue (base a)) Args)"

definition slot_call :: "nat \<Rightarrow> nat \<Rightarrow> cpp_type list \<Rightarrow> call_error + expression list" where
  "slot_call n R Args = callback_call (callback_new R Args) (slot_args n Args)"

section \<open>Calls\<close>

text \<open>The type of the call fits one argument of the function: an lvalue for \<open>T &\<close>, anything else otherwise.\<close>

definition fits :: "cpp_type \<Rightarrow> expression \<Rightarrow> bool" where
  "fits a e \<longleftrightarrow> e = forwarded a"

lemma rref_deduced [simp]: "rref a = rref (deduced e) \<longleftrightarrow> fits a e"
  by (cases a; cases e) (auto simp: fits_def)

lemma rref_twice [simp]: "rref (rref a) = rref a" "forwarded (rref a) = forwarded a"
  by (cases a; simp)+

lemma binds_forwarded: "binds a (forwarded a)"
  by (cases a) simp_all

lemma map_fits: "map rref as = map (\<lambda>e. rref (deduced e)) es \<longleftrightarrow> list_all2 fits as es"
  by (auto simp: list_eq_iff_nth_eq list_all2_conv_all_nth)

lemma fits_forwarded: "list_all2 fits as es \<longleftrightarrow> es = map forwarded as"
  by (auto simp: list_eq_iff_nth_eq list_all2_conv_all_nth fits_def)

text \<open>
  A callback is called through the type of its function exactly when the arguments are what the
  function is declared for; the cast of the storage never fails.
\<close>

lemma callback_call_new:
  "callback_call (callback_new R as) es =
     (if es = map forwarded as then Inr (map forwarded as) else Inl WrongFunctionType)"
  by (simp add: callback_call_def callback_new_def callbackTemplate_def funcStorage_call_def map_fits fits_forwarded)

lemma callback_call_default: "callback_call callback_default es = Inl NullPointer"
  by (simp add: callback_call_def callback_default_def)

lemma slot_args_forwarded:
  "slot_args n as = map forwarded as \<longleftrightarrow> list_all (\<lambda>a. is_LRef a \<longleftrightarrow> n \<noteq> 1) as"
proof (induction as)
  case (Cons a as)
  then show ?case
    by (cases a) (auto simp: slot_args_def)
qed (simp add: slot_args_def)

text \<open>Bound to the types of the signal only, the callback would be called as it is declared.\<close>

lemma emission_as_meant:
  "storage_call (callback_new voidT (onSignalEmmited_params as)) (signal_tuple as) =
     Inr (map forwarded (onSignalEmmited_params as))"
  by (simp add: storage_call_def callback_call_new signal_tuple_def onSignalEmmited_params_def)

section \<open>Property\<close>



end
