(* ===== verification/NQSignals.thy ===== *)
theory NQSignals
  imports SignalConnections ConcurrentQueue CallTypes
begin

text \<open>
  \<open>libratel/NQSignals\<close>: objects that emit signals (\<open>NQObject\<close>) and the handler that delivers them
  from a queue (\<open>SignalHandler\<close>). The state has the storage of connections, the live objects, the
  callbacks that waiting signals refer to by a \<open>weak_ptr\<close> (each owned by the set \<open>_waitingSignals\<close>
  of one object), the queue, and the slots called so far with their arguments. A slot is user
  code; here it does not use the signal library itself.

  The calls go through the type-erased \<open>Callback\<close>, whose types are those of theory \<open>CallTypes\<close>: a
  call through another type than that of the function is undefined, and a fault here.
  \<open>emitAll\<close> names a member template without the \<open>&\<close> that the language asks for; the model is that of a
  compiler that takes its address nevertheless.
\<close>

section \<open>State\<close>

text \<open>
  \<open>SignalStorage\<close>: a weak pointer to the callback, and the tuple it is applied to: the weak pointer once more,
  the hash of the signal, and its values, whose types are \<open>sg_types\<close>.
\<close>

record 'v signal =
  sg_callback :: nat
  sg_hash :: u32
  sg_types :: "cpp_type list"
  sg_args :: 'v

record nqobject =
  nq_hashes :: "u32 set"
  nq_waiting :: "nat set"

datatype handler_error = NoError | EmptySignal

record 'v nqworld =
  nq_storage :: signal_map
  nq_objects :: "nat \<rightharpoonup> nqobject"
  nq_callbacks :: "nat \<rightharpoonup> nat \<times> callback_types"  \<comment> \<open>live callbacks, with the object they call\<close>
  nq_next :: nat
  nq_queue :: "'v signal option list"             \<comment> \<open>\<open>None\<close> is a null pointer\<close>
  nq_runFlag :: bool
  nq_error :: handler_error
  nq_thread :: bool                               \<comment> \<open>\<open>_thread\<close> is joinable\<close>
  nq_delivered :: "(member_ref \<times> 'v) list"

definition get_object :: "nat \<Rightarrow> 'v nqworld \<Rightarrow> nqobject res" where
  "get_object o1 w = (case nq_objects w o1 of None \<Rightarrow> Inl UseAfterFree | Some k \<Rightarrow> Inr k)"

definition nq_new :: "nat \<Rightarrow> 'v nqworld \<Rightarrow> 'v nqworld" where
  "nq_new o1 w = w\<lparr>nq_objects := (nq_objects w)(o1 \<mapsto> \<lparr>nq_hashes = {}, nq_waiting = {}\<rparr>)\<rparr>"

section \<open>Connecting\<close>

definition nq_connect ::
    "hasher \<Rightarrow> nat \<Rightarrow> nat \<Rightarrow> nat \<Rightarrow> nat \<Rightarrow> nat \<Rightarrow> 'v nqworld \<Rightarrow> (bool \<times> 'v nqworld) res" where
  "nq_connect H this t1 f1 t2 f2 w =
     andThen (get_object this w) (\<lambda>k.
     let (ok, m) = sig_connect H t1 f1 t2 f2 (nq_storage w)
     in if ok
        then Inr (True, w\<lparr>nq_storage := m, nq_objects := (nq_objects w)(this \<mapsto>
               k\<lparr>nq_hashes := insert (makeHash H t1 f1) (nq_hashes k)\<rparr>)\<rparr>)
        else Inr (False, w\<lparr>nq_storage := m\<rparr>))"

definition nq_disconnect ::
    "hasher \<Rightarrow> nat \<Rightarrow> nat \<Rightarrow> nat \<Rightarrow> nat \<Rightarrow> nat \<Rightarrow> 'v nqworld \<Rightarrow> (bool \<times> 'v nqworld) res" where
  "nq_disconnect H this t1 f1 t2 f2 w =
     andThen (get_object this w) (\<lambda>k.
     let (ok, m) = sig_disconnect H t1 f1 t2 f2 (nq_storage w)
     in if ok
        then Inr (True, w\<lparr>nq_storage := m, nq_objects := (nq_objects w)(this \<mapsto>
               k\<lparr>nq_hashes := nq_hashes k - {makeHash H t1 f1}\<rparr>)\<rparr>)
        else Inr (False, w\<lparr>nq_storage := m\<rparr>))"

text \<open>
  The destructor. The order in which \<open>_hashes\<close> is traversed does not matter, since each step
  changes the entry of one hash; the waiting callbacks die with the set that owns them.
\<close>

definition unsubscribeFromAll :: "nat \<Rightarrow> u32 set \<Rightarrow> signal_map \<Rightarrow> signal_map" where
  "unsubscribeFromAll this hs m = (\<lambda>h. if h \<in> hs then snd (disconnectByHash h this m) h else m h)"

definition nq_delete :: "nat \<Rightarrow> 'v nqworld cmd" where
  "nq_delete this w =
     andThen (get_object this w) (\<lambda>k.
     Inr (w\<lparr>nq_storage := unsubscribeFromAll this (nq_hashes k) (nq_storage w),
            nq_objects := (nq_objects w)(this := None),
            nq_callbacks := (\<lambda>c. if c \<in> nq_waiting k then None else nq_callbacks w c)\<rparr>))"

section \<open>Emitting\<close>

definition nq_push :: "'v signal option \<Rightarrow> 'v nqworld \<Rightarrow> 'v nqworld" where
  "nq_push sig w = w\<lparr>nq_queue := cq_push sig (nq_queue w)\<rparr>"

text \<open>The signal \<open>f\<close> of the object \<open>t\<close> has parameters of the types \<open>Ts\<close>.\<close>

definition emitAll :: "hasher \<Rightarrow> nat \<Rightarrow> nat \<Rightarrow> nat \<Rightarrow> cpp_type list \<Rightarrow> 'v \<Rightarrow> 'v nqworld cmd" where
  "emitAll H this t f Ts args w =
     andThen (get_object this w) (\<lambda>k.
     if \<not> hasConnection (makeHash H t f) (nq_storage w) then Inr w
     else let cb = nq_next w
          in Inr (nq_push (Some \<lparr>sg_callback = cb, sg_hash = makeHash H t f, sg_types = Ts, sg_args = args\<rparr>)
               (w\<lparr>nq_next := cb + 1, nq_callbacks := (nq_callbacks w)(cb \<mapsto> (this, emit_callback Ts)),
                  nq_objects := (nq_objects w)(this \<mapsto> k\<lparr>nq_waiting := insert cb (nq_waiting k)\<rparr>)\<rparr>)))"

section \<open>Delivering\<close>

text \<open>What the call of a \<open>Callback\<close> ends in when it does not reach its function.\<close>

fun call_fault :: "call_error \<Rightarrow> fault" where
  "call_fault NullPointer = NullDeref"
| "call_fault WrongFunctionType = WrongCall"
| "call_fault BadAnyCast = BadCast"

text \<open>
  A call of one of \<open>n\<close> slots, with parameters of the types \<open>Ts\<close> as those of the signal: a member function of an object that must be
  alive.
\<close>

definition call_slot :: "nat \<Rightarrow> cpp_type list \<Rightarrow> 'v \<Rightarrow> SignalPipe \<Rightarrow> 'v nqworld cmd" where
  "call_slot n Ts args p w =
     (case slot_call n voidT Ts of
        Inl err \<Rightarrow> Inl (call_fault err)
      | Inr es \<Rightarrow>
          andThen (get_object (cb_object (sp_callback p)) w) (\<lambda>_.
          Inr (w\<lparr>nq_delivered := nq_delivered w @ [(slot_of p, args)]\<rparr>)))"

text \<open>
  \<open>onSignalEmmited<Ts...>\<close>: erasing the callback from \<open>_waitingSignals\<close> drops its last owner but the
  local pointers of this call, so it is dead afterwards.
\<close>

definition onSignalEmmited :: "cpp_type list \<Rightarrow> nat \<Rightarrow> nat \<Rightarrow> u32 \<Rightarrow> 'v \<Rightarrow> 'v nqworld cmd" where
  "onSignalEmmited Ts this cb h args w =
     andThen (get_object this w) (\<lambda>k.
     case nq_callbacks w cb of
       None \<Rightarrow> Inr w
     | Some _ \<Rightarrow>
         let w = w\<lparr>nq_callbacks := (nq_callbacks w)(cb := None),
                   nq_objects := (nq_objects w)(this \<mapsto> k\<lparr>nq_waiting := nq_waiting k - {cb}\<rparr>)\<rparr>
         in if \<not> hasConnection h (nq_storage w) then Inr w
            else andThen (getConnection h (nq_storage w)) (\<lambda>conn.
                 if length conn = 1 then call_slot 1 Ts args (hd conn) w
                 else seqs (map (call_slot (length conn) Ts args) conn) w))"

text \<open>
  \<open>SignalStorage::call\<close>: the callback, which is bound to some instance of \<open>onSignalEmmited\<close>, is called with the
  elements of the tuple. It is reached when their types are those of its parameters; these are then the
  pointer, the hash and the values.
\<close>

definition signal_call :: "'v signal \<Rightarrow> 'v nqworld cmd" where
  "signal_call s w =
     (case nq_callbacks w (sg_callback s) of
        None \<Rightarrow> Inr w
      | Some (this, ct) \<Rightarrow>
          (case storage_call ct (signal_tuple (sg_types s)) of
             Inl err \<Rightarrow> Inl (call_fault err)
           | Inr es \<Rightarrow> onSignalEmmited (sg_types s) this (sg_callback s) (sg_hash s) (sg_args s) w))"

definition executeSignal :: "'v signal option \<Rightarrow> 'v nqworld cmd" where
  "executeSignal sig w = (case sig of None \<Rightarrow> Inr w | Some s \<Rightarrow> signal_call s w)"

section \<open>The handler\<close>

definition errorCode :: "handler_error \<Rightarrow> int" where
  "errorCode e = (case e of NoError \<Rightarrow> 0 | EmptySignal \<Rightarrow> 1)"

text \<open>\<open>runImpl(true)\<close>: the signals that are in the queue.\<close>

fun drain :: "'v signal option list \<Rightarrow> 'v nqworld cmd" where
  "drain [] w = Inr (w\<lparr>nq_queue := []\<rparr>)"
| "drain (sig # q) w = andThen (executeSignal sig (w\<lparr>nq_queue := q\<rparr>)) (drain q)"

definition runOnce :: "'v nqworld \<Rightarrow> (int \<times> 'v nqworld) res" where
  "runOnce w = andThen (drain (nq_queue w) w) (\<lambda>w. Inr (errorCode (nq_error w), w))"

text \<open>
  \<open>runImpl(false)\<close>: \<open>flag k\<close> is what the \<open>k\<close>-th test of \<open>_runFlag\<close> sees, which another thread may
  clear. With an empty queue \<open>pop\<close> waits.
\<close>

datatype run_result = RunReturned int | RunWaits

fun run_loop ::
    "(nat \<Rightarrow> bool) \<Rightarrow> nat \<Rightarrow> 'v signal option list \<Rightarrow> 'v nqworld \<Rightarrow> (run_result \<times> 'v nqworld) res"
  where
  "run_loop flag k q w =
     (if \<not> flag k then Inr (RunReturned (errorCode (nq_error w)), w)
      else case q of
        [] \<Rightarrow> Inr (RunWaits, w)
      | None # q \<Rightarrow> Inr (RunReturned (errorCode EmptySignal), w\<lparr>nq_queue := q, nq_error := EmptySignal\<rparr>)
      | Some s # q \<Rightarrow>
          andThen (executeSignal (Some s) (w\<lparr>nq_queue := q\<rparr>)) (run_loop flag (k + 1) q))"

definition handler_run ::
    "(nat \<Rightarrow> bool) \<Rightarrow> bool \<Rightarrow> 'v nqworld \<Rightarrow> (run_result \<times> 'v nqworld) res" where
  "handler_run flag inNewThread w =
     (if nq_runFlag w then Inr (RunReturned 1, w)
      else if inNewThread
      then if nq_thread w then Inl Terminated
           else Inr (RunReturned 0, w\<lparr>nq_runFlag := True, nq_thread := True\<rparr>)
      else run_loop flag 0 (nq_queue w) (w\<lparr>nq_runFlag := True\<rparr>))"

definition handler_stop :: "'v nqworld \<Rightarrow> 'v nqworld" where
  "handler_stop w = w\<lparr>nq_runFlag := False\<rparr>"

definition newHandler :: "'v nqworld" where
  "newHandler = \<lparr>nq_storage = Map.empty, nq_objects = Map.empty, nq_callbacks = Map.empty,
     nq_next = 0, nq_queue = [], nq_runFlag = False, nq_error = NoError, nq_thread = False,
     nq_delivered = []\<rparr>"

text \<open>\<open>NQCoreApplication\<close>: the same operations on the one handler of the program.\<close>

definition app_runOnce :: "'v nqworld \<Rightarrow> (int \<times> 'v nqworld) res" where
  "app_runOnce w = runOnce w"

definition app_run ::
    "(nat \<Rightarrow> bool) \<Rightarrow> bool \<Rightarrow> 'v nqworld \<Rightarrow> (run_result \<times> 'v nqworld) res" where
  "app_run flag inNewThread w = handler_run flag inNewThread w"

definition app_stop :: "'v nqworld \<Rightarrow> 'v nqworld" where
  "app_stop w = handler_stop w"

section \<open>Programs\<close>

text \<open>
  What the threads of a program do to the objects, one operation after the other. An object is
  created at an address where no other object lives.
\<close>

datatype 'v nq_op =
    NewObject nat
  | DeleteObject nat
  | ConnectBy nat member_ref member_ref
  | DisconnectBy nat member_ref member_ref
  | Emit nat member_ref "cpp_type list" 'v
  | RunOnce

fun nq_step :: "hasher \<Rightarrow> 'v nq_op \<Rightarrow> 'v nqworld cmd" where
  "nq_step H (NewObject a) w = Inr (if nq_objects w a = None then nq_new a w else w)"
| "nq_step H (DeleteObject a) w = nq_delete a w"
| "nq_step H (ConnectBy a s r) w =
     andThen (nq_connect H a (fst s) (snd s) (fst r) (snd r) w) (\<lambda>(b, w). Inr w)"
| "nq_step H (DisconnectBy a s r) w =
     andThen (nq_disconnect H a (fst s) (snd s) (fst r) (snd r) w) (\<lambda>(b, w). Inr w)"
| "nq_step H (Emit a s Ts v) w = emitAll H a (fst s) (snd s) Ts v w"
| "nq_step H RunOnce w = andThen (app_runOnce w) (\<lambda>(code, w). Inr w)"

section \<open>Owners of callbacks\<close>

text \<open>
  A callback lives as long as it waits in a live object, the signals in the queue have the types their
  callbacks were made for, and nothing has been delivered.
\<close>

definition nq_ok :: "'v nqworld \<Rightarrow> bool" where
  "nq_ok w \<longleftrightarrow>
     (\<forall>c a. (\<exists>ct. nq_callbacks w c = Some (a, ct)) \<longleftrightarrow> (\<exists>k. nq_objects w a = Some k \<and> c \<in> nq_waiting k)) \<and>
     (\<forall>c. nq_next w \<le> c \<longrightarrow> nq_callbacks w c = None) \<and>
     (\<forall>s. Some s \<in> set (nq_queue w) \<longrightarrow> sg_callback s < nq_next w \<and>
        (\<forall>a ct. nq_callbacks w (sg_callback s) = Some (a, ct) \<longrightarrow> ct = emit_callback (sg_types s))) \<and>
     nq_error w = NoError \<and> nq_delivered w = []"

text \<open>The signal \<open>s\<close> waits in a live object.\<close>

definition waits :: "'v signal \<Rightarrow> 'v nqworld \<Rightarrow> bool" where
  "waits s w \<longleftrightarrow> (\<exists>a k. nq_objects w a = Some k \<and> sg_callback s \<in> nq_waiting k)"

lemma waits_iff: "nq_ok w \<Longrightarrow> waits s w \<longleftrightarrow> nq_callbacks w (sg_callback s) \<noteq> None"
  unfolding nq_ok_def waits_def by (metis not_None_eq surj_pair)

lemma nq_ok_new: "nq_ok newHandler"
  by (simp add: nq_ok_def newHandler_def)

lemma nq_ok_same:
  assumes "nq_ok w" and "\<And>a. map_option nq_waiting (nq_objects w' a) = map_option nq_waiting (nq_objects w a)"
    and "nq_callbacks w' = nq_callbacks w" "nq_next w' = nq_next w" "nq_queue w' = nq_queue w"
    and "nq_error w' = nq_error w" "nq_delivered w' = nq_delivered w"
  shows "nq_ok w'"
proof -
  have "(\<exists>k. nq_objects w' a = Some k \<and> c \<in> nq_waiting k) \<longleftrightarrow> (\<exists>k. nq_objects w a = Some k \<and> c \<in> nq_waiting k)" for a c
    using assms(2) [of a] by (cases "nq_objects w' a"; cases "nq_objects w a") auto
  then show ?thesis
    using assms(1,3-) by (simp add: nq_ok_def)
qed

lemma nq_ok_connect:
  assumes "nq_ok w" "nq_connect H this t1 f1 t2 f2 w = Inr (b, w')"
  shows "nq_ok w'"
  using assms(2) by (intro nq_ok_same [OF assms(1)])
    (auto simp: nq_connect_def get_object_def andThen_eq_Inr_iff split: option.splits prod.splits if_splits)

lemma nq_ok_disconnect:
  assumes "nq_ok w" "nq_disconnect H this t1 f1 t2 f2 w = Inr (b, w')"
  shows "nq_ok w'"
  using assms(2) by (intro nq_ok_same [OF assms(1)])
    (auto simp: nq_disconnect_def get_object_def andThen_eq_Inr_iff split: option.splits prod.splits if_splits)

lemma nq_ok_new_object:
  assumes "nq_ok w" "nq_objects w a = None"
  shows "nq_ok (nq_new a w)"
  using assms unfolding nq_ok_def nq_new_def by auto

lemma nq_ok_delete:
  assumes ok: "nq_ok w" and r: "nq_delete this w = Inr w'"
  shows "nq_ok w'"
proof -
  obtain k where k: "nq_objects w this = Some k"
    "w' = w\<lparr>nq_storage := unsubscribeFromAll this (nq_hashes k) (nq_storage w),
            nq_objects := (nq_objects w)(this := None),
            nq_callbacks := (\<lambda>c. if c \<in> nq_waiting k then None else nq_callbacks w c)\<rparr>"
    using r by (auto simp: nq_delete_def get_object_def split: option.splits)
  have owner: "(\<exists>ct. nq_callbacks w c = Some (a, ct)) \<longleftrightarrow> (\<exists>k. nq_objects w a = Some k \<and> c \<in> nq_waiting k)" for c a
    using ok by (simp add: nq_ok_def)
  have mine: "c \<in> nq_waiting k \<longleftrightarrow> (\<exists>ct. nq_callbacks w c = Some (this, ct))" for c
    using owner k(1) by auto
  have "(\<exists>ct. nq_callbacks w' c = Some (a, ct)) \<longleftrightarrow> (\<exists>k. nq_objects w' a = Some k \<and> c \<in> nq_waiting k)" for c a
  proof (cases "a = this")
    case True
    then show ?thesis
      using mine [of c] by (auto simp: k(2))
  next
    case False
    then have "nq_callbacks w c = Some (a, ct) \<Longrightarrow> c \<notin> nq_waiting k" for ct
      using mine [of c] by auto
    then show ?thesis
      using False owner [of c a] by (auto simp: k(2))
  qed
  moreover have "nq_next w' \<le> c \<Longrightarrow> nq_callbacks w' c = None" for c
    using ok by (auto simp: k(2) nq_ok_def)
  moreover have "sg_callback s < nq_next w' \<and>
      (\<forall>a ct. nq_callbacks w' (sg_callback s) = Some (a, ct) \<longrightarrow> ct = emit_callback (sg_types s))"
    if "Some s \<in> set (nq_queue w')" for s
    using that ok by (auto simp: k(2) nq_ok_def)
  moreover have "nq_error w' = NoError" "nq_delivered w' = []"
    using ok by (auto simp: k(2) nq_ok_def)
  ultimately show ?thesis
    by (simp add: nq_ok_def)
qed

lemma emitAll_result:
  assumes "nq_objects w this = Some k" "hasConnection (makeHash H t f) (nq_storage w)"
  shows "emitAll H this t f Ts args w = Inr (w\<lparr>nq_next := nq_next w + 1,
      nq_callbacks := (nq_callbacks w)(nq_next w \<mapsto> (this, emit_callback Ts)),
      nq_objects := (nq_objects w)(this \<mapsto> k\<lparr>nq_waiting := insert (nq_next w) (nq_waiting k)\<rparr>),
      nq_queue := nq_queue w @ [Some \<lparr>sg_callback = nq_next w, sg_hash = makeHash H t f, sg_types = Ts, sg_args = args\<rparr>]\<rparr>)"
  using assms by (simp add: emitAll_def get_object_def nq_push_def cq_push_def Let_def)

lemma emitAll_nothing:
  "\<not> hasConnection (makeHash H t f) (nq_storage w) \<Longrightarrow> emitAll H this t f Ts args w = Inr w' \<Longrightarrow> w' = w"
  by (auto simp: emitAll_def get_object_def split: option.splits)

lemma nq_ok_emit:
  assumes ok: "nq_ok w" and r: "emitAll H this t f Ts args w = Inr w'"
  shows "nq_ok w'"
proof (cases "hasConnection (makeHash H t f) (nq_storage w)")
  case True
  obtain k where k: "nq_objects w this = Some k"
    using r by (auto simp: emitAll_def get_object_def split: option.splits)
  have owner: "(\<exists>ct. nq_callbacks w c = Some (a, ct)) \<longleftrightarrow> (\<exists>k. nq_objects w a = Some k \<and> c \<in> nq_waiting k)"
    and fresh: "nq_next w \<le> c \<Longrightarrow> nq_callbacks w c = None" for c a
    using ok by (simp_all add: nq_ok_def)
  have w': "nq_next w' = nq_next w + 1" "nq_error w' = nq_error w" "nq_delivered w' = nq_delivered w"
      "nq_callbacks w' = (nq_callbacks w)(nq_next w \<mapsto> (this, emit_callback Ts))"
      "nq_objects w' = (nq_objects w)(this \<mapsto> k\<lparr>nq_waiting := insert (nq_next w) (nq_waiting k)\<rparr>)"
      "nq_queue w' = nq_queue w @ [Some \<lparr>sg_callback = nq_next w, sg_hash = makeHash H t f, sg_types = Ts, sg_args = args\<rparr>]"
    using r emitAll_result [OF k True] by auto
  have new: "nq_next w \<notin> nq_waiting k'" if "nq_objects w a = Some k'" for a k'
    using owner [of "nq_next w" a] fresh [of "nq_next w"] that by simp
  have "(\<exists>ct. nq_callbacks w' c = Some (a, ct)) \<longleftrightarrow> (\<exists>k. nq_objects w' a = Some k \<and> c \<in> nq_waiting k)" for c a
  proof (cases "c = nq_next w")
    case True
    then show ?thesis
      using new by (auto simp: w')
  next
    case False
    then show ?thesis
      using owner [of c a] k by (auto simp: w')
  qed
  moreover have "nq_next w' \<le> c \<Longrightarrow> nq_callbacks w' c = None" for c
    using fresh [of c] by (auto simp: w')
  moreover have "sg_callback s < nq_next w' \<and>
      (\<forall>a ct. nq_callbacks w' (sg_callback s) = Some (a, ct) \<longrightarrow> ct = emit_callback (sg_types s))"
    if "Some s \<in> set (nq_queue w')" for s
    using that ok by (auto simp: w' nq_ok_def less_Suc_eq)
  ultimately show ?thesis
    using ok by (simp add: nq_ok_def w'(2,3))
next
  case False
  then show ?thesis
    using emitAll_nothing [OF False r] ok by simp
qed

section \<open>Running the handler\<close>

text \<open>The callback of an emission is never called through its type.\<close>

lemma emission_type: "storage_call (emit_callback Ts) (signal_tuple Ts) = Inl WrongFunctionType"
proof -
  have "length (map forwarded (signal_tuple Ts)) \<noteq> length (map forwarded (onSignalEmmited_params (signal_tuple Ts)))"
    by (simp add: onSignalEmmited_params_def signal_tuple_def)
  then have "map forwarded (signal_tuple Ts) \<noteq> map forwarded (onSignalEmmited_params (signal_tuple Ts))"
    by metis
  then show ?thesis
    by (simp add: storage_call_def emit_callback_def callback_call_new)
qed

lemma executeSignal_result:
  assumes "nq_ok w" "Some s \<in> set (nq_queue w)"
  shows "executeSignal (Some s) (w\<lparr>nq_queue := q\<rparr>) = (if waits s w then Inl WrongCall else Inr (w\<lparr>nq_queue := q\<rparr>))"
proof (cases "nq_callbacks w (sg_callback s)")
  case None
  then show ?thesis
    using waits_iff [OF assms(1)] by (simp add: executeSignal_def signal_call_def)
next
  case (Some x)
  then obtain a where "nq_callbacks w (sg_callback s) = Some (a, emit_callback (sg_types s))"
    using assms unfolding nq_ok_def by (metis surj_pair)
  then show ?thesis
    using waits_iff [OF assms(1), of s] by (simp add: executeSignal_def signal_call_def emission_type)
qed

lemma waits_queue [simp]: "waits s (w\<lparr>nq_queue := q\<rparr>) = waits s w"
  by (simp add: waits_def)

lemma nq_ok_queue: "nq_ok w \<Longrightarrow> set q \<subseteq> set (nq_queue w) \<Longrightarrow> nq_ok (w\<lparr>nq_queue := q\<rparr>)"
  by (auto simp: nq_ok_def)

lemma drain_result:
  "nq_ok w \<Longrightarrow> set q \<subseteq> set (nq_queue w) \<Longrightarrow>
     drain q w = (if \<exists>s. Some s \<in> set q \<and> waits s w then Inl WrongCall else Inr (w\<lparr>nq_queue := []\<rparr>))"
proof (induction q arbitrary: w)
  case (Cons sig q)
  have "drain q (w\<lparr>nq_queue := q\<rparr>) = (if \<exists>s. Some s \<in> set q \<and> waits s w then Inl WrongCall else Inr (w\<lparr>nq_queue := []\<rparr>))"
    using Cons.IH [OF nq_ok_queue [OF Cons.prems(1)], of q] Cons.prems(2) by simp
  then show ?case
    using executeSignal_result [OF Cons.prems(1), of _ q] Cons.prems(2)
    by (cases sig) (auto simp: executeSignal_def)
qed simp

lemma runOnce_result:
  assumes "nq_ok w"
  shows "app_runOnce w =
    (if \<exists>s. Some s \<in> set (nq_queue w) \<and> waits s w then Inl WrongCall else Inr (0, w\<lparr>nq_queue := []\<rparr>))"
  using assms drain_result [OF assms order_refl] by (auto simp: app_runOnce_def runOnce_def errorCode_def nq_ok_def)

lemma nq_ok_step:
  assumes "nq_ok w" "nq_step H op w = Inr w'"
  shows "nq_ok w'"
proof (cases op)
  case (ConnectBy a s r)
  then show ?thesis
    using assms nq_ok_connect [OF assms(1)] by (auto simp: andThen_eq_Inr_iff)
next
  case (DisconnectBy a s r)
  then show ?thesis
    using assms nq_ok_disconnect [OF assms(1)] by (auto simp: andThen_eq_Inr_iff)
next
  case RunOnce
  then show ?thesis
    using assms nq_ok_queue [OF assms(1), of "[]"]
    by (auto simp: runOnce_result [OF assms(1)] split: if_splits)
qed (use assms nq_ok_new_object nq_ok_delete nq_ok_emit in \<open>auto split: if_splits\<close>)

lemma nq_ok_steps:
  "nq_ok w \<Longrightarrow> seqs (map (nq_step H) ops) w = Inr w' \<Longrightarrow> nq_ok w'"
  by (erule seqs_invariant [rotated]) (auto dest: nq_ok_step)

section \<open>Properties\<close>

text \<open>
  C28: no slot is ever called, and every delivery is undefined. Take any program that creates and destroys objects, connects,
  disconnects, emits and runs the handler once in any order, and has come to its end without a fault. It has called no slot. If
  the queue has a signal that still waits in the object that emitted it, running the handler calls a function
  through a pointer of another type; otherwise it returns 0, and all it has done is to empty the queue. An
  emission of a signal that has a slot is such a signal.
\<close>

theorem no_signal_is_delivered:
  assumes "seqs (map (nq_step H) ops) newHandler = Inr w"
  shows "nq_delivered w = [] \<and>
    app_runOnce w = (if \<exists>s. Some s \<in> set (nq_queue w) \<and> waits s w then Inl WrongCall
      else Inr (0, w\<lparr>nq_queue := []\<rparr>)) \<and>
    (nq_objects w a \<noteq> None \<and> hasConnection (makeHash H t f) (nq_storage w) \<longrightarrow>
      andThen (emitAll H a t f Ts v w) app_runOnce = Inl WrongCall)"
proof -
  have ok: "nq_ok w"
    using nq_ok_steps [OF nq_ok_new assms] .
  have "andThen (emitAll H a t f Ts v w) app_runOnce = Inl WrongCall"
    if "nq_objects w a \<noteq> None" "hasConnection (makeHash H t f) (nq_storage w)"
  proof -
    note live = that
    obtain k where "nq_objects w a = Some k"
      using live(1) by auto
    note emit = emitAll_result [OF this live(2), of Ts v]
    let ?s = "\<lparr>sg_callback = nq_next w, sg_hash = makeHash H t f, sg_types = Ts, sg_args = v\<rparr>"
    obtain w' where w': "emitAll H a t f Ts v w = Inr w'" "Some ?s \<in> set (nq_queue w')"
        "nq_objects w' a = Some (k\<lparr>nq_waiting := insert (nq_next w) (nq_waiting k)\<rparr>)"
      using emit by auto
    then have "waits ?s w'"
      unfolding waits_def by (intro exI [of _ a] exI) auto
    then show ?thesis
      using w'(1,2) runOnce_result [OF nq_ok_emit [OF ok w'(1)]] by auto
  qed
  then show ?thesis
    using ok runOnce_result [OF ok] by (simp add: nq_ok_def)
qed

definition demo_program :: "int nq_op list" where
  "demo_program = [NewObject 1, NewObject 2, ConnectBy 2 (1, 1) (2, 2), Emit 1 (1, 1) [Val 7] 7,
     DeleteObject 1, RunOnce, NewObject 1]"

lemmas nq_eval = nq_new_def nq_connect_def nq_delete_def emitAll_def nq_push_def get_object_def
  newHandler_def sig_connect_def makeHash_def demo_hasher_def hasConnection_def Let_def
  cq_push_def newPipe_def newCallback_def

text \<open>An emitter that dies takes its signal with it; the signal of its successor is delivered, which is undefined.\<close>

lemma no_signal_is_delivered_witness:
  "\<exists>w. seqs (map (nq_step demo_hasher) demo_program) newHandler = Inr w \<and> nq_delivered w = [] \<and>
     andThen (emitAll demo_hasher 1 1 1 [Val 7] 8 w) app_runOnce = Inl WrongCall"
proof -
  obtain w where w: "seqs (map (nq_step demo_hasher) demo_program) newHandler = Inr w"
    "nq_objects w 1 \<noteq> None" "hasConnection (makeHash demo_hasher 1 1) (nq_storage w)"
    by (simp add: demo_program_def nq_eval app_runOnce_def runOnce_def executeSignal_def signal_call_def
        unsubscribeFromAll_def disconnectByHash_def errorCode_def)
  show ?thesis
    using no_signal_is_delivered [OF w(1), of 1 1 1 "[Val 7]" 8] w by auto
qed

text \<open>
  A handler that was stopped is not ready for another run in a thread of its own: the thread of the
  first run was never joined.
\<close>

lemma second_thread_terminates:
  assumes "app_run flag True w = Inr (code, w')" "code = RunReturned 0"
  shows "app_run flag' True (app_stop w') = Inl Terminated"
  using assms by (auto simp: app_run_def app_stop_def handler_run_def handler_stop_def split: if_splits)

section \<open>Receivers\<close>

text \<open>
  The slots connected to a hash, and the object of a slot. \<open>foreign_receiver_dangles\<close>: the destructor forgets only the connections made through the object.
\<close>

definition pipes_of :: "u32 \<Rightarrow> 'v nqworld \<Rightarrow> SignalPipe list" where
  "pipes_of h w = (case nq_storage w h of None \<Rightarrow> [] | Some conn \<Rightarrow> conn)"

definition receiver :: "SignalPipe \<Rightarrow> nat" where
  "receiver p = cb_object (sp_callback p)"

lemma foreign_receiver_dangles:
  assumes "nq_objects w r = Some k" "h \<notin> nq_hashes k" "p \<in> set (pipes_of h w)" "receiver p = r"
  shows "\<exists>w'. nq_delete r w = Inr w' \<and> p \<in> set (pipes_of h w') \<and> nq_objects w' (receiver p) = None"
  using assms by (auto simp: nq_delete_def get_object_def pipes_of_def unsubscribeFromAll_def)

text \<open>
  A program in which each object connects its own members only and nobody disconnects. \<open>D\<close> are the members it uses.
\<close>

fun own_slots :: "member_ref set \<Rightarrow> 'v nq_op \<Rightarrow> bool" where
  "own_slots D (ConnectBy a s r) \<longleftrightarrow> fst r = a \<and> s \<in> D \<and> r \<in> D"
| "own_slots D (DisconnectBy a s r) \<longleftrightarrow> False"
| "own_slots D op \<longleftrightarrow> True"

definition slots_owned :: "hasher \<Rightarrow> member_ref set \<Rightarrow> 'v nqworld \<Rightarrow> bool" where
  "slots_owned H D w \<longleftrightarrow> storage_ok H D (nq_storage w) \<and>
     (\<forall>h. \<forall>p \<in> set (pipes_of h w). \<exists>k. nq_objects w (receiver p) = Some k \<and> h \<in> nq_hashes k)"

lemma pipe_ok_receiver: "pipe_ok H D p \<Longrightarrow> sp_object p = receiver p"
  by (metis fst_conv pipe_ok_def receiver_def slot_newPipe(2) slot_of_def)

lemma owned_same:
  assumes "slots_owned H D w" "nq_storage w' = nq_storage w"
    and "\<And>a k. nq_objects w a = Some k \<Longrightarrow> \<exists>k'. nq_objects w' a = Some k' \<and> nq_hashes k \<subseteq> nq_hashes k'"
  shows "slots_owned H D w'"
  using assms(1,3) unfolding slots_owned_def pipes_of_def assms(2) by (meson subsetD)

lemma owned_connect:
  assumes own: "slots_owned H D w" and free: "collision_free H D" "(t1, f1) \<in> D" "(a, f2) \<in> D"
    and r: "nq_connect H a t1 f1 a f2 w = Inr (b, w')"
  shows "slots_owned H D w'"
proof -
  let ?h = "makeHash H t1 f1"
  have st: "storage_ok H D (nq_storage w)"
    using own by (simp add: slots_owned_def)
  note refines = connect_refines [OF free(1) st free(2,3)]
  obtain k where k: "nq_objects w a = Some k"
    using r by (auto simp: nq_connect_def get_object_def split: option.splits)
  obtain m where m: "sig_connect H t1 f1 a f2 (nq_storage w) = (True, m)" "storage_ok H D m"
    using refines by (metis prod.collapse)
  have w': "w' = w\<lparr>nq_storage := m, nq_objects := (nq_objects w)(a \<mapsto> k\<lparr>nq_hashes := insert ?h (nq_hashes k)\<rparr>)\<rparr>"
    using r k m(1) by (simp add: nq_connect_def get_object_def)
  have new: "p \<in> set (pipes_of h w) \<or> h = ?h \<and> p = newPipe H a f2" if p: "p \<in> set (pipes_of h w')" for h p
  proof (cases "nq_storage w ?h")
    case None
    then show ?thesis
      using p m(1) by (auto simp: sig_connect_def w' pipes_of_def split: if_splits)
  next
    case (Some conn)
    have "list_all (pipe_ok H D) conn"
      using st Some by (simp add: storage_ok_def)
    from set_first_same [OF free(1) this free(3)] show ?thesis
      using p m(1) Some
      by (auto simp: sig_connect_def w' pipes_of_def Let_def member_hash_def split: if_splits)
  qed
  have "\<exists>k'. nq_objects w' (receiver p) = Some k' \<and> h \<in> nq_hashes k'" if "p \<in> set (pipes_of h w')" for h p
    using new [OF that] own k
    by (auto simp: slots_owned_def w' receiver_def newPipe_def newCallback_def) fastforce+
  then show ?thesis
    using m(2) by (simp add: slots_owned_def w')
qed

lemma owned_delete:
  assumes own: "slots_owned H D w" and r: "nq_delete a w = Inr w'"
  shows "slots_owned H D w'"
proof -
  obtain k where k: "nq_objects w a = Some k"
    and w': "nq_storage w' = unsubscribeFromAll a (nq_hashes k) (nq_storage w)" "nq_objects w' = (nq_objects w)(a := None)"
    using r by (auto simp: nq_delete_def get_object_def split: option.splits)
  have st: "storage_ok H D (nq_storage w)"
    using own by (simp add: slots_owned_def)
  have pipes: "pipes_of h w' = (if h \<in> nq_hashes k then filter (\<lambda>p. sp_object p \<noteq> a) (pipes_of h w) else pipes_of h w)" for h
    by (auto simp: pipes_of_def w' unsubscribeFromAll_def disconnectByHash_def split: option.splits)
  have ok: "pipe_ok H D p" if "p \<in> set (pipes_of h w)" for h p
    using that st by (cases "nq_storage w h") (auto simp: pipes_of_def storage_ok_def list_all_iff)
  have "\<exists>k'. nq_objects w' (receiver p) = Some k' \<and> h \<in> nq_hashes k'" if p: "p \<in> set (pipes_of h w')" for h p
  proof -
    have old: "p \<in> set (pipes_of h w)" and keep: "h \<in> nq_hashes k \<Longrightarrow> sp_object p \<noteq> a"
      using p by (auto simp: pipes split: if_splits)
    obtain k' where k': "nq_objects w (receiver p) = Some k'" "h \<in> nq_hashes k'"
      using own old by (auto simp: slots_owned_def)
    then have "receiver p \<noteq> a"
      using keep k pipe_ok_receiver [OF ok [OF old]] by auto
    then show ?thesis
      using k' by (simp add: w')
  qed
  moreover have "storage_ok H D (nq_storage w')"
    using st by (fastforce simp: w' storage_ok_def unsubscribeFromAll_def disconnectByHash_def list_all_iff
        split: if_splits option.splits)
  ultimately show ?thesis
    by (simp add: slots_owned_def)
qed

lemma owned_step:
  assumes ok: "nq_ok w" and own: "slots_owned H D w" and free: "collision_free H D" and op: "own_slots D op"
    and r: "nq_step H op w = Inr w'"
  shows "slots_owned H D w'"
proof (cases op)
  case (NewObject a)
  then show ?thesis
    using r by (intro owned_same [OF own]) (auto simp: nq_new_def split: if_splits)
next
  case (DeleteObject a)
  then show ?thesis
    using r owned_delete [OF own] by simp
next
  case (ConnectBy a s t)
  then show ?thesis
    using r op owned_connect [OF own free, of "fst s" "snd s" "fst t" "snd t"] by (auto simp: andThen_eq_Inr_iff)
next
  case (Emit a s Ts v)
  show ?thesis
  proof (cases "hasConnection (makeHash H (fst s) (snd s)) (nq_storage w)")
    case True
    obtain k where k: "nq_objects w a = Some k"
      using r Emit by (auto simp: emitAll_def get_object_def split: option.splits)
    show ?thesis
      using r Emit emitAll_result [OF k True, of Ts v] k by (intro owned_same [OF own]) auto
  next
    case False
    then show ?thesis
      using emitAll_nothing [OF False, of a Ts v w'] r Emit own by auto
  qed
next
  case RunOnce
  then show ?thesis
    using r runOnce_result [OF ok] by (intro owned_same [OF own]) (auto split: if_splits)
qed (use op in simp)

text \<open>
  C29: the discipline under which no slot dangles. In a program in which every object connects only its own members, nobody
  disconnects, and the members in use have different hashes, every slot in the storage belongs to a live object at
  every moment, whatever is created, destroyed, emitted and delivered. That the objects connect their own members
  is needed: see \<open>foreign_receiver_dangles\<close>.
\<close>

theorem own_receivers_stay_alive:
  assumes "collision_free H D" and "\<forall>op \<in> set ops. own_slots D op"
    and "seqs (map (nq_step H) ops) newHandler = Inr w" and "nq_storage w h = Some conn" and "p \<in> set conn"
  shows "nq_objects w (receiver p) \<noteq> None"
proof -
  have steps: "nq_ok w \<and> slots_owned H D w \<Longrightarrow> seqs (map (nq_step H) ops) w = Inr w' \<Longrightarrow>
      \<forall>op \<in> set ops. own_slots D op \<Longrightarrow> slots_owned H D w'" for w w' :: "'a nqworld" and ops
  proof (induction ops arbitrary: w)
    case (Cons op ops)
    then show ?case
      using owned_step [OF _ _ assms(1), of w op] nq_ok_step [of w H op]
      by (fastforce simp: andThen_eq_Inr_iff)
  qed simp
  have "slots_owned H D newHandler"
    by (simp add: slots_owned_def newHandler_def storage_ok_def pipes_of_def)
  then have "slots_owned H D w"
    using steps [OF _ assms(3,2)] nq_ok_new by blast
  moreover have "p \<in> set (pipes_of h w)"
    using assms(4,5) by (simp add: pipes_of_def)
  ultimately obtain k where "nq_objects w (receiver p) = Some k"
    unfolding slots_owned_def by blast
  then show ?thesis by simp
qed

text \<open>Two receivers of one signal, the first of which is destroyed.\<close>

lemma own_receivers_stay_alive_witness:
  "\<exists>w :: int nqworld. seqs (map (nq_step demo_hasher)
       [NewObject 1, NewObject 2, NewObject 3, ConnectBy 2 (1, 1) (2, 2), ConnectBy 3 (1, 1) (3, 3), DeleteObject 2])
     newHandler = Inr w \<and>
     nq_storage w (makeHash demo_hasher 1 1) = Some [newPipe demo_hasher 3 3] \<and> nq_objects w 3 \<noteq> None"
proof -
  let ?D = "{(1, 1), (2, 2), (3, 3)} :: member_ref set"
  let ?ops = "[NewObject 1, NewObject 2, NewObject 3, ConnectBy 2 (1, 1) (2, 2), ConnectBy 3 (1, 1) (3, 3), DeleteObject 2] ::
    int nq_op list"
  have free: "collision_free demo_hasher ?D"
    by (simp add: collision_free_def member_hash_def makeHash_def demo_hasher_def Let_def)
  have own: "\<forall>op \<in> set ?ops. own_slots ?D op"
    by simp
  obtain w where w: "seqs (map (nq_step demo_hasher) ?ops) newHandler = Inr w"
    "nq_storage w (makeHash demo_hasher 1 1) = Some [newPipe demo_hasher 3 3]"
    by (simp add: nq_eval unsubscribeFromAll_def disconnectByHash_def found_def getHash_def)
  moreover have "receiver (newPipe demo_hasher 3 3) = 3"
    by (simp add: receiver_def newPipe_def newCallback_def)
  ultimately show ?thesis
    using own_receivers_stay_alive [OF free own w] by auto
qed

end
