(* ===== verification/InetUtils.thy ===== *)
theory InetUtils
  imports Prelude
begin

text \<open>
  \<open>libratel/InetUtils\<close>: the conversions to network byte order and the pair of an address and a
  port, both as the system keeps them.
\<close>

section \<open>Addresses\<close>

definition htons :: "byte_order \<Rightarrow> u16 \<Rightarrow> u16" where
  "htons bo x = (case bo of LittleEndian \<Rightarrow> swap16 x | BigEndian \<Rightarrow> x)"

definition htonl :: "byte_order \<Rightarrow> u32 \<Rightarrow> u32" where
  "htonl bo x = (case bo of LittleEndian \<Rightarrow> swap32 x | BigEndian \<Rightarrow> x)"

lemma htons_layout: "store16 bo (htons bo x) = store16 BigEndian x"
  by (simp add: htons_def store16_def swap16_def split: byte_order.splits)

record IpAddressAndPort =
  ia_ip :: u32
  ia_port :: u16

definition convertToAddr :: "u32 \<Rightarrow> u16 \<Rightarrow> IpAddressAndPort" where
  "convertToAddr s_addr sin_port = \<lparr>ia_ip = s_addr, ia_port = sin_port\<rparr>"

end
