(* ===== verification/Sockets.thy ===== *)
theory Sockets
  imports InetUtils
begin

text \<open>
  \<open>libratel/TcpSocket.cpp\<close> and the class \<open>BaseSocket\<close> of \<open>libratel/TcpServer.cpp\<close>: thin classes
  over the socket calls of the operating system, in their POSIX variant. A world is the list of
  system calls made so far; what the system answers to the next call is a parameter, which may
  depend on all of that history.
\<close>

section \<open>System calls\<close>

type_synonym fd = int   \<comment> \<open>\<open>SOCKET\<close>\<close>

abbreviation (input) INVALID_SOCKET :: fd where
  "INVALID_SOCKET \<equiv> - 1"

text \<open>The value of Linux.\<close>

definition O_NONBLOCK :: u32 where
  "O_NONBLOCK = 2048"

datatype sock_type = SOCK_STREAM | SOCK_DGRAM

text \<open>A \<open>sockaddr_in\<close>; \<open>None\<close> is an address that nothing was stored in.\<close>

record sockaddr_in =
  sin_port :: u16
  sin_addr :: "u32 option"

datatype syscall =
    SysSocket sock_type nat          \<comment> \<open>with the protocol\<close>
  | SysShutdown fd                   \<comment> \<open>\<open>SHUT_RDWR\<close>\<close>
  | SysClose fd
  | SysGetFl fd                      \<comment> \<open>\<open>fcntl(fd, F_GETFL, 0)\<close>\<close>
  | SysSetFl fd u32                  \<comment> \<open>\<open>fcntl(fd, F_SETFL, flags)\<close>\<close>
  | SysConnect fd sockaddr_in
  | SysBind fd sockaddr_in
  | SysListen fd int
  | SysAccept fd
  | SysRecv fd int int
  | SysSend fd bytes int
  | SysRcvBuf fd                     \<comment> \<open>\<open>getsockopt(fd, SOL_SOCKET, SO_RCVBUF, ..)\<close>\<close>
  | SysSelect nat "fd set" "fd set" "fd set"

text \<open>
  Besides the returned value: \<open>errno\<close>, the bytes a \<open>recv\<close> stores, the address an \<open>accept\<close> stores,
  the value of an option, the three sets \<open>select\<close> leaves, \<open>inet_pton\<close>, which stores nothing
  for a text that is no address, and the byte order of the host.
\<close>

record os =
  sys_ret :: "syscall list \<Rightarrow> syscall \<Rightarrow> int"
  sys_errno :: "syscall list \<Rightarrow> int"
  sys_data :: "syscall list \<Rightarrow> fd \<Rightarrow> bytes"
  sys_peer :: "syscall list \<Rightarrow> fd \<Rightarrow> sockaddr_in"
  sys_option :: "syscall list \<Rightarrow> fd \<Rightarrow> int"
  sys_ready :: "syscall list \<Rightarrow> fd set \<times> fd set \<times> fd set"
  inet_pton :: "string \<Rightarrow> u32 option"
  os_order :: byte_order

definition sys :: "os \<Rightarrow> syscall \<Rightarrow> syscall list \<Rightarrow> int \<times> syscall list" where
  "sys OS c log = (sys_ret OS log c, log @ [c])"

lemma sys_simps [simp]: "fst (sys OS c log) = sys_ret OS log c" "snd (sys OS c log) = log @ [c]"
  by (simp_all add: sys_def)

section \<open>TcpSocket\<close>

text \<open>The default backlog, again the value of Linux.\<close>

definition somaxconn :: int where
  "somaxconn = 4096"

record TcpSocket =
  ts_sock :: fd

definition newTcpSocket :: "os \<Rightarrow> syscall list \<Rightarrow> (TcpSocket \<times> syscall list) res" where
  "newTcpSocket OS log =
     (let (s, log) = sys OS (SysSocket SOCK_STREAM 6) log
      in if s = INVALID_SOCKET then Inl RuntimeError else Inr (\<lparr>ts_sock = s\<rparr>, log))"

definition tcpSocketOf :: "fd \<Rightarrow> TcpSocket" where
  "tcpSocketOf s = \<lparr>ts_sock = s\<rparr>"

definition tcp_shutdown :: "os \<Rightarrow> TcpSocket \<Rightarrow> syscall list \<Rightarrow> syscall list" where
  "tcp_shutdown OS t log = snd (sys OS (SysShutdown (ts_sock t)) log)"

definition tcp_close :: "os \<Rightarrow> TcpSocket \<Rightarrow> syscall list \<Rightarrow> syscall list" where
  "tcp_close OS t log = snd (sys OS (SysClose (ts_sock t)) log)"

definition deleteTcpSocket :: "os \<Rightarrow> TcpSocket \<Rightarrow> syscall list \<Rightarrow> syscall list" where
  "deleteTcpSocket OS t log = tcp_close OS t (tcp_shutdown OS t log)"

text \<open>\<open>flags &= block ? (flags & ~O_NONBLOCK) : (flags | O_NONBLOCK)\<close>\<close>

definition new_flags :: "bool \<Rightarrow> u32 \<Rightarrow> u32" where
  "new_flags block flags =
     and flags (if block then and flags (not O_NONBLOCK) else or flags O_NONBLOCK)"

definition tcp_setNonBlock :: "os \<Rightarrow> TcpSocket \<Rightarrow> bool \<Rightarrow> syscall list \<Rightarrow> syscall list" where
  "tcp_setNonBlock OS t block log =
     (let (flags, log) = sys OS (SysGetFl (ts_sock t)) log
      in if flags = - 1 then log
         else snd (sys OS (SysSetFl (ts_sock t) (new_flags block (word_of_int flags))) log))"

definition convertStringToHost :: "os \<Rightarrow> string \<Rightarrow> u16 \<Rightarrow> sockaddr_in" where
  "convertStringToHost OS ip port = \<lparr>sin_port = port, sin_addr = inet_pton OS ip\<rparr>"

definition tcp_connect ::
    "os \<Rightarrow> TcpSocket \<Rightarrow> string \<Rightarrow> u16 \<Rightarrow> syscall list \<Rightarrow> bool \<times> syscall list" where
  "tcp_connect OS t ip port log =
     (let (r, log) = sys OS (SysConnect (ts_sock t) (convertStringToHost OS ip port)) log
      in (r = 0, log))"

definition tcp_bind :: "os \<Rightarrow> TcpSocket \<Rightarrow> u32 \<Rightarrow> u16 \<Rightarrow> syscall list \<Rightarrow> bool \<times> syscall list" where
  "tcp_bind OS t ip port log =
     (let (r, log) = sys OS (SysBind (ts_sock t) \<lparr>sin_port = port, sin_addr = Some ip\<rparr>) log
      in (r = 0, log))"

definition tcp_bindString ::
    "os \<Rightarrow> TcpSocket \<Rightarrow> string \<Rightarrow> u16 \<Rightarrow> syscall list \<Rightarrow> bool \<times> syscall list" where
  "tcp_bindString OS t ip port log =
     (let (r, log) = sys OS (SysBind (ts_sock t) (convertStringToHost OS ip port)) log
      in (r = 0, log))"

definition tcp_listen :: "os \<Rightarrow> TcpSocket \<Rightarrow> int \<Rightarrow> syscall list \<Rightarrow> bool \<times> syscall list" where
  "tcp_listen OS t backlog log =
     (let (r, log) = sys OS (SysListen (ts_sock t) backlog) log in (r = 0, log))"

text \<open>The result is a null pointer, or a new socket with the address of its peer.\<close>

definition tcp_acceptSock ::
    "os \<Rightarrow> TcpSocket \<Rightarrow> syscall list \<Rightarrow> (TcpSocket \<times> sockaddr_in) option \<times> syscall list" where
  "tcp_acceptSock OS t log =
     (let (s, log') = sys OS (SysAccept (ts_sock t)) log
      in (if s = INVALID_SOCKET then None else Some (tcpSocketOf s, sys_peer OS log (ts_sock t)), log'))"

definition tcp_recv :: "os \<Rightarrow> TcpSocket \<Rightarrow> int \<Rightarrow> syscall list \<Rightarrow> int \<times> bytes \<times> syscall list" where
  "tcp_recv OS t len log =
     (let (r, log') = sys OS (SysRecv (ts_sock t) len 0) log
      in (r, take (nat (min r len)) (sys_data OS log (ts_sock t)), log'))"

definition tcp_send :: "os \<Rightarrow> TcpSocket \<Rightarrow> bytes \<Rightarrow> syscall list \<Rightarrow> int \<times> syscall list" where
  "tcp_send OS t buf log = sys OS (SysSend (ts_sock t) buf 0) log"

definition tcp_getFileDescr :: "TcpSocket \<Rightarrow> fd" where
  "tcp_getFileDescr t = ts_sock t"

section \<open>BaseSocket\<close>

abbreviation (input) SocketType_Tcp :: int where "SocketType_Tcp \<equiv> 0"
abbreviation (input) SocketType_Udp :: int where "SocketType_Udp \<equiv> 1"
abbreviation (input) SocketType_TcpServer :: int where "SocketType_TcpServer \<equiv> 2"
abbreviation (input) SocketType_TcpConnected :: int where "SocketType_TcpConnected \<equiv> 3"

record BaseSocket =
  bs_type :: int
  bs_sock :: fd

text \<open>A failing \<open>socket\<close> is not noticed.\<close>

definition newBaseSocket :: "os \<Rightarrow> int \<Rightarrow> syscall list \<Rightarrow> (BaseSocket \<times> syscall list) res" where
  "newBaseSocket OS type log =
     (if type \<in> {SocketType_Tcp, SocketType_TcpServer, SocketType_TcpConnected}
      then let (s, log) = sys OS (SysSocket SOCK_STREAM 0) log
           in Inr (\<lparr>bs_type = type, bs_sock = s\<rparr>, log)
      else if type = SocketType_Udp
      then let (s, log) = sys OS (SysSocket SOCK_DGRAM 0) log
           in Inr (\<lparr>bs_type = type, bs_sock = s\<rparr>, log)
      else Inl RuntimeError)"

definition baseSocketOf :: "int \<Rightarrow> fd \<Rightarrow> BaseSocket" where
  "baseSocketOf type s = \<lparr>bs_type = type, bs_sock = s\<rparr>"

definition base_shutdown :: "os \<Rightarrow> BaseSocket \<Rightarrow> syscall list \<Rightarrow> syscall list" where
  "base_shutdown OS b log =
     (if bs_type b = SocketType_Tcp then log else snd (sys OS (SysShutdown (bs_sock b)) log))"

definition base_close :: "os \<Rightarrow> BaseSocket \<Rightarrow> syscall list \<Rightarrow> syscall list" where
  "base_close OS b log = snd (sys OS (SysClose (bs_sock b)) log)"

definition deleteBaseSocket :: "os \<Rightarrow> BaseSocket \<Rightarrow> syscall list \<Rightarrow> syscall list" where
  "deleteBaseSocket OS b log = base_close OS b (base_shutdown OS b log)"

definition base_setNonBlock :: "os \<Rightarrow> BaseSocket \<Rightarrow> bool \<Rightarrow> syscall list \<Rightarrow> syscall list" where
  "base_setNonBlock OS b block log =
     (let (flags, log) = sys OS (SysGetFl (bs_sock b)) log
      in if flags = - 1 then log
         else snd (sys OS (SysSetFl (bs_sock b) (new_flags block (word_of_int flags))) log))"

definition getSocketFD :: "BaseSocket \<Rightarrow> fd" where
  "getSocketFD b = bs_sock b"

text \<open>The result of \<open>::connect\<close> is converted to \<open>bool\<close> as it is.\<close>

definition base_connect ::
    "os \<Rightarrow> BaseSocket \<Rightarrow> u32 \<Rightarrow> u16 \<Rightarrow> syscall list \<Rightarrow> (bool \<times> syscall list) res" where
  "base_connect OS b ip port log =
     (if bs_type b \<noteq> SocketType_TcpConnected then Inl RuntimeError
      else let (r, log) = sys OS (SysConnect (bs_sock b)
                 \<lparr>sin_port = htons (os_order OS) port, sin_addr = Some (htonl (os_order OS) ip)\<rparr>) log
           in Inr (r \<noteq> 0, log))"

definition base_bind ::
    "os \<Rightarrow> BaseSocket \<Rightarrow> u32 \<Rightarrow> u16 \<Rightarrow> syscall list \<Rightarrow> bool \<times> syscall list" where
  "base_bind OS b ip port log =
     (let (r, log) = sys OS (SysBind (bs_sock b) \<lparr>sin_port = port, sin_addr = Some ip\<rparr>) log
      in (r = 0, log))"

definition base_listen ::
    "os \<Rightarrow> BaseSocket \<Rightarrow> int \<Rightarrow> syscall list \<Rightarrow> (bool \<times> syscall list) res" where
  "base_listen OS b backlog log =
     (if bs_type b \<noteq> SocketType_TcpServer then Inl RuntimeError
      else let (r, log) = sys OS (SysListen (bs_sock b) backlog) log in Inr (r = 0, log))"

definition base_recv :: "os \<Rightarrow> BaseSocket \<Rightarrow> int \<Rightarrow> int \<Rightarrow> syscall list \<Rightarrow> int \<times> bytes \<times> syscall list"
  where
  "base_recv OS b len flags log =
     (let (r, log') = sys OS (SysRecv (bs_sock b) len flags) log
      in (r, take (nat (min r len)) (sys_data OS log (bs_sock b)), log'))"

definition base_send :: "os \<Rightarrow> BaseSocket \<Rightarrow> bytes \<Rightarrow> int \<Rightarrow> syscall list \<Rightarrow> int \<times> syscall list" where
  "base_send OS b buf flags log = sys OS (SysSend (bs_sock b) buf flags) log"

text \<open>The size of the system's receive buffer; the local is uninitialised if the call fails.\<close>

definition getReadSize :: "os \<Rightarrow> BaseSocket \<Rightarrow> syscall list \<Rightarrow> (int \<times> syscall list) res" where
  "getReadSize OS b log =
     (let (r, log') = sys OS (SysRcvBuf (bs_sock b)) log
      in if r = - 1 then Inl Uninitialised else Inr (sys_option OS log (bs_sock b), log'))"

section \<open>Descriptor flags\<close>

text \<open>
  The file status flags of a descriptor: those of the last \<open>F_SETFL\<close>, or \<open>f\<close>, those of a new
  descriptor. What POSIX says of \<open>F_GETFL\<close> is that it returns them, or fails with \<open>-1\<close>.
\<close>

definition flags_after :: "u32 \<Rightarrow> fd \<Rightarrow> syscall list \<Rightarrow> u32" where
  "flags_after f s log =
     foldl (\<lambda>g c. case c of SysSetFl s' x \<Rightarrow> if s' = s then x else g
                         | SysClose s' \<Rightarrow> if s' = s then f else g
                         | _ \<Rightarrow> g) f log"

definition fcntl_contract :: "os \<Rightarrow> u32 \<Rightarrow> bool" where
  "fcntl_contract OS f \<longleftrightarrow> (\<forall>log s. sys_ret OS log (SysGetFl s) = - 1 \<or>
     word_of_int (sys_ret OS log (SysGetFl s)) = flags_after f s log)"

datatype tcp_op =
    OpNew
  | OpDelete TcpSocket
  | OpShutdown TcpSocket
  | OpClose TcpSocket
  | OpSetNonBlock TcpSocket bool
  | OpConnect TcpSocket string u16
  | OpBind TcpSocket u32 u16
  | OpBindString TcpSocket string u16
  | OpListen TcpSocket int
  | OpAccept TcpSocket
  | OpRecv TcpSocket int
  | OpSend TcpSocket bytes
  | OpBaseSetNonBlock BaseSocket bool
  | OpBaseDelete BaseSocket

text \<open>The calls an operation makes. An operation that throws ends the program.\<close>

fun tcp_step :: "os \<Rightarrow> tcp_op \<Rightarrow> syscall list cmd" where
  "tcp_step OS OpNew log = andThen (newTcpSocket OS log) (\<lambda>(t, log). Inr log)"
| "tcp_step OS (OpDelete t) log = Inr (deleteTcpSocket OS t log)"
| "tcp_step OS (OpShutdown t) log = Inr (tcp_shutdown OS t log)"
| "tcp_step OS (OpClose t) log = Inr (tcp_close OS t log)"
| "tcp_step OS (OpSetNonBlock t b) log = Inr (tcp_setNonBlock OS t b log)"
| "tcp_step OS (OpConnect t ip p) log = Inr (snd (tcp_connect OS t ip p log))"
| "tcp_step OS (OpBind t ip p) log = Inr (snd (tcp_bind OS t ip p log))"
| "tcp_step OS (OpBindString t ip p) log = Inr (snd (tcp_bindString OS t ip p log))"
| "tcp_step OS (OpListen t n) log = Inr (snd (tcp_listen OS t n log))"
| "tcp_step OS (OpAccept t) log = Inr (snd (tcp_acceptSock OS t log))"
| "tcp_step OS (OpRecv t n) log = Inr (snd (snd (tcp_recv OS t n log)))"
| "tcp_step OS (OpSend t buf) log = Inr (snd (tcp_send OS t buf log))"
| "tcp_step OS (OpBaseSetNonBlock b block) log = Inr (base_setNonBlock OS b block log)"
| "tcp_step OS (OpBaseDelete b) log = Inr (deleteBaseSocket OS b log)"

lemmas tcp_defs = newTcpSocket_def deleteTcpSocket_def tcp_shutdown_def tcp_close_def
  tcp_connect_def tcp_bind_def tcp_bindString_def tcp_listen_def tcp_acceptSock_def tcp_recv_def
  tcp_send_def deleteBaseSocket_def base_shutdown_def base_close_def sys_def Let_def

text \<open>The only calls that set flags are those of \<open>setNonBlock\<close>, with some of the old flags.\<close>

definition all_blocking :: "u32 \<Rightarrow> syscall list \<Rightarrow> bool" where
  "all_blocking f log \<longleftrightarrow> (\<forall>s. and (flags_after f s log) O_NONBLOCK = 0) \<and>
     (\<forall>s x. SysSetFl s x \<in> set log \<longrightarrow> and x O_NONBLOCK = 0)"

lemma flags_after_snoc:
  "flags_after f s (log @ [c]) =
     (case c of SysSetFl s' x \<Rightarrow> if s' = s then x else flags_after f s log
      | SysClose s' \<Rightarrow> if s' = s then f else flags_after f s log
      | _ \<Rightarrow> flags_after f s log)"
  by (cases c) (simp_all add: flags_after_def)

lemma all_blocking_snoc:
  assumes "all_blocking f log" "and f O_NONBLOCK = 0"
    and "\<And>s x. c = SysSetFl s x \<Longrightarrow> and x O_NONBLOCK = 0"
  shows "all_blocking f (log @ [c])"
  using assms by (auto simp: all_blocking_def flags_after_snoc split: syscall.split)

lemma all_blocking_append:
  assumes "all_blocking f log" "and f O_NONBLOCK = 0"
    and "\<forall>s x. SysSetFl s x \<in> set cs \<longrightarrow> and x O_NONBLOCK = 0"
  shows "all_blocking f (log @ cs)"
  using assms(3)
proof (induction cs rule: rev_induct)
  case (snoc c cs)
  then have "all_blocking f ((log @ cs) @ [c])"
    using assms(2) by (intro all_blocking_snoc) auto
  then show ?case
    by simp
qed (use assms(1) in simp)

lemma new_flags_blocking: "and g O_NONBLOCK = 0 \<Longrightarrow> and (new_flags block g) O_NONBLOCK = 0"
proof -
  assume "and g O_NONBLOCK = 0"
  moreover have "and (new_flags block g) O_NONBLOCK = and (and g O_NONBLOCK)
      (if block then and g (not O_NONBLOCK) else or g O_NONBLOCK)"
    unfolding new_flags_def by (simp only: ac_simps)
  ultimately show ?thesis
    by simp
qed

lemma new_flags_False: "new_flags False g = g"
  by (simp add: new_flags_def bit_eq_iff bit_simps)

text \<open>
  What both socket classes promise of \<open>setNonBlock\<close>: it reads the flags of its own descriptor, and
  writes back those that the mask leaves, unless reading failed.
\<close>

locale flag_switch =
  fixes set_flags :: "os \<Rightarrow> 's \<Rightarrow> bool \<Rightarrow> syscall list \<Rightarrow> syscall list"
    and descr :: "'s \<Rightarrow> fd"
  assumes set_flags_calls: "set_flags OS s block log = log @ SysGetFl (descr s) #
    (if sys_ret OS log (SysGetFl (descr s)) = - 1 then []
     else [SysSetFl (descr s) (new_flags block (word_of_int (sys_ret OS log (SysGetFl (descr s)))))])"
begin

lemma keeps_blocking:
  assumes "fcntl_contract OS f" "all_blocking f log" "and f O_NONBLOCK = 0"
  shows "all_blocking f (set_flags OS s block log)"
proof -
  have "and (new_flags block (word_of_int (sys_ret OS log (SysGetFl (descr s))))) O_NONBLOCK = 0"
    if "sys_ret OS log (SysGetFl (descr s)) \<noteq> - 1"
    using assms(1,2) that by (intro new_flags_blocking) (metis fcntl_contract_def all_blocking_def)
  then show ?thesis
    unfolding set_flags_calls by (intro all_blocking_append assms(2,3)) auto
qed

lemma touches_own_descriptor:
  "flags_after f s' (set_flags OS s block log) = flags_after f s' log" if "s' \<noteq> descr s"
  using that by (simp add: set_flags_calls flags_after_def)

end

interpretation tcp: flag_switch tcp_setNonBlock ts_sock
  by unfold_locales (simp add: tcp_setNonBlock_def sys_def)

interpretation base: flag_switch base_setNonBlock bs_sock
  by unfold_locales (simp add: base_setNonBlock_def sys_def)

lemma tcp_step_blocking:
  assumes "fcntl_contract OS f" "all_blocking f log" "and f O_NONBLOCK = 0"
    and "tcp_step OS op log = Inr log'"
  shows "all_blocking f log'"
proof (cases op)
  case OpNew
  then show ?thesis
    using assms by (auto simp: tcp_defs split: if_splits intro!: all_blocking_append)
qed (use tcp.keeps_blocking [OF assms(1-3)] base.keeps_blocking [OF assms(1-3)] assms(2-4) in
    \<open>auto simp: tcp_defs intro!: all_blocking_append\<close>)

section \<open>Sets of descriptors\<close>

text \<open>The macros access an array of \<open>FD_SETSIZE\<close> bits without a check.\<close>

definition fd_ok :: "fd \<Rightarrow> bool" where
  "fd_ok s \<longleftrightarrow> 0 \<le> s \<and> s < 1024"

definition FD_SET :: "fd \<Rightarrow> fd set \<Rightarrow> fd set res" where
  "FD_SET s A = (if fd_ok s then Inr (insert s A) else Inl OutOfBounds)"

definition FD_CLR :: "fd \<Rightarrow> fd set \<Rightarrow> fd set res" where
  "FD_CLR s A = (if fd_ok s then Inr (A - {s}) else Inl OutOfBounds)"

definition FD_ISSET :: "fd \<Rightarrow> fd set \<Rightarrow> bool res" where
  "FD_ISSET s A = (if fd_ok s then Inr (s \<in> A) else Inl OutOfBounds)"

lemma fd_set_simps [simp]:
  "fd_ok s \<Longrightarrow> FD_SET s A = Inr (insert s A)"
  "fd_ok s \<Longrightarrow> FD_CLR s A = Inr (A - {s})"
  "fd_ok s \<Longrightarrow> FD_ISSET s A = Inr (s \<in> A)"
  by (simp_all add: FD_SET_def FD_CLR_def FD_ISSET_def)

text \<open>
  What POSIX says of \<open>select(n, ..)\<close>: it fails with \<open>-1\<close>, or leaves in each set those of the first
  \<open>n\<close> descriptors given there that are ready, and returns how many they are.
\<close>

definition select_contract :: "os \<Rightarrow> bool" where
  "select_contract OS \<longleftrightarrow> (\<forall>log n r w e. let call = SysSelect n r w e; ret = sys_ret OS log call in
     ret = - 1 \<or>
     (case sys_ready OS (log @ [call]) of (r', w', e') \<Rightarrow>
        r' \<subseteq> {s \<in> r. s < int n} \<and> w' \<subseteq> {s \<in> w. s < int n} \<and> e' \<subseteq> {s \<in> e. s < int n} \<and>
        ret = int (card r' + card w' + card e')))"

text \<open>With \<open>n = 0\<close> nothing is examined: \<open>select\<close> reports a timeout or an error.\<close>

lemma select_none:
  assumes "select_contract OS" "\<forall>s \<in> r \<union> w \<union> e. fd_ok s"
  shows "sys_ret OS log (SysSelect 0 r w e) \<in> {- 1, 0}"
proof -
  obtain r' w' e' where ready: "sys_ready OS (log @ [SysSelect 0 r w e]) = (r', w', e')"
    by (cases "sys_ready OS (log @ [SysSelect 0 r w e])")
  have "\<not> s < 0" if "s \<in> r \<union> w \<union> e" for s
    using bspec [OF assms(2) that] by (simp add: fd_ok_def)
  then have none: "{s \<in> r. s < int 0} = {}" "{s \<in> w. s < int 0} = {}" "{s \<in> e. s < int 0} = {}"
    by auto
  have "sys_ret OS log (SysSelect 0 r w e) = - 1 \<or>
     (r' \<subseteq> {s \<in> r. s < int 0} \<and> w' \<subseteq> {s \<in> w. s < int 0} \<and> e' \<subseteq> {s \<in> e. s < int 0} \<and>
        sys_ret OS log (SysSelect 0 r w e) = int (card r' + card w' + card e'))"
    using assms(1) [unfolded select_contract_def Let_def, rule_format, of log 0 r w e]
    unfolding ready prod.case .
  then show ?thesis
    unfolding none by auto
qed

text \<open>
  A loop \<open>while (_run)\<close>: the list holds what the tests of \<open>_run\<close> see, as far as the run is
  followed. A pass says whether to go on.
\<close>

fun run_while :: "('w \<Rightarrow> (bool \<times> 'w) res) \<Rightarrow> bool list \<Rightarrow> 'w \<Rightarrow> (bool \<times> 'w) res" where
  "run_while pass [] w = Inr (True, w)"
| "run_while pass (r # rs) w =
     (if \<not> r then Inr (False, w)
      else andThen (pass w) (\<lambda>(go, w). if go then run_while pass rs w else Inr (False, w)))"

lemma run_while_invariant:
  assumes "P w" and "\<And>w. P w \<Longrightarrow> \<exists>go w'. pass w = Inr (go, w') \<and> P w'"
  shows "\<exists>go w'. run_while pass rs w = Inr (go, w') \<and> P w'"
  using assms(1)
proof (induction rs arbitrary: w)
  case (Cons r rs)
  obtain go w' where "pass w = Inr (go, w')" "P w'"
    using assms(2) [OF Cons.prems] by blast
  then show ?case
    using Cons.IH [of w'] Cons.prems by auto
qed auto

section \<open>Properties\<close>

text \<open>
  C35: \<open>setNonBlock\<close> never makes a socket non-blocking. It combines the flags it read with a mask by
  \<open>&=\<close>, so that \<open>O_NONBLOCK\<close> can only be cleared: on a system whose descriptors start in blocking
  mode, every socket is still blocking after any sequence of operations, whatever was asked for,
  and no call of \<open>fcntl\<close> has ever asked for \<open>O_NONBLOCK\<close>.
\<close>

theorem sockets_stay_blocking:
  assumes "fcntl_contract OS f" "and f O_NONBLOCK = 0"
    and "seqs (map (tcp_step OS) ops) [] = Inr log"
  shows "(\<forall>s. and (flags_after f s log) O_NONBLOCK = 0) \<and>
    (\<forall>s x. SysSetFl s x \<in> set log \<longrightarrow> and x O_NONBLOCK = 0)"
proof -
  have "all_blocking f []"
    using assms(2) by (simp add: all_blocking_def flags_after_def)
  then have "all_blocking f log"
    using assms(3) by (rule seqs_invariant [rotated]) (use assms(1,2) tcp_step_blocking in auto)
  then show ?thesis
    by (simp add: all_blocking_def)
qed

definition demo_os :: os where
  "demo_os = \<lparr>sys_ret = (\<lambda>log c. case c of SysGetFl s \<Rightarrow> uint (flags_after 2 s log)
       | SysSocket t p \<Rightarrow> 3 + int (length log) | _ \<Rightarrow> 0),
     sys_errno = (\<lambda>log. 0), sys_data = (\<lambda>log s. []),
     sys_peer = (\<lambda>log s. \<lparr>sin_port = 0, sin_addr = Some 0\<rparr>), sys_option = (\<lambda>log s. 0),
     sys_ready = (\<lambda>log. ({}, {}, {})), inet_pton = (\<lambda>t. None), os_order = LittleEndian\<rparr>"

lemma demo_os_fcntl: "fcntl_contract demo_os 2"
  by (simp add: fcntl_contract_def demo_os_def)

lemma sockets_stay_blocking_witness:
  "\<exists>log. seqs (map (tcp_step demo_os) [OpNew, OpSetNonBlock \<lparr>ts_sock = 3\<rparr> False,
       OpSetNonBlock \<lparr>ts_sock = 3\<rparr> True]) [] = Inr log \<and> SysSetFl 3 2 \<in> set log \<and>
     and (flags_after 2 3 log) O_NONBLOCK = 0"
proof -
  let ?ops = "[OpNew, OpSetNonBlock \<lparr>ts_sock = 3\<rparr> False, OpSetNonBlock \<lparr>ts_sock = 3\<rparr> True]"
  obtain log where "seqs (map (tcp_step demo_os) ?ops) [] = Inr log" "SysSetFl 3 2 \<in> set log"
    by (simp add: tcp_defs demo_os_def tcp_setNonBlock_def flags_after_def new_flags_def
        O_NONBLOCK_def)
  then show ?thesis
    using sockets_stay_blocking [OF demo_os_fcntl, of ?ops log] by (auto simp: O_NONBLOCK_def)
qed

text \<open>\<open>BaseSocket::connect\<close> returns \<open>true\<close> exactly when the connection was not made.\<close>

lemma base_connect_inverted:
  assumes "base_connect OS b ip port log = Inr (ok, log')"
  shows "ok \<longleftrightarrow> sys_ret OS log (SysConnect (bs_sock b)
    \<lparr>sin_port = htons (os_order OS) port, sin_addr = Some (htonl (os_order OS) ip)\<rparr>) \<noteq> 0"
  using assms by (auto simp: base_connect_def sys_def split: if_splits)

end
