(* ===== verification/TcpServer.thy ===== *)
theory TcpServer
  imports Sockets
begin

text \<open>
  The class \<open>TcpServer\<close> of \<open>libratel/TcpServer.cpp\<close>: one thread that accepts clients and reads
  from them, driven by \<open>select\<close>. The user of the server is application code; it sees the events
  so far and may destroy sockets of clients, of which it gets the addresses. \<open>tr\<close> says
  whether the traces of level \<open>DBG\<close> are written: one of them prints the receive buffer as a
  C string.
\<close>

section \<open>State\<close>

datatype server_event =
    NewConnection IpAddressAndPort nat
  | CloseConnection nat
  | DataReceived nat bytes
  | DataCanBeSend nat

type_synonym server_user = "server_event list \<Rightarrow> nat list"

record server =
  sv_host :: IpAddressAndPort
  sv_serverSock :: TcpSocket
  sv_clientSocks :: "nat list"
  sv_sockets :: "nat \<rightharpoonup> TcpSocket"      \<comment> \<open>live \<open>TcpSocket\<close> objects on the heap\<close>
  sv_next :: nat
  sv_log :: "syscall list"
  sv_events :: "server_event list"

definition newTcpServer :: "os \<Rightarrow> IpAddressAndPort \<Rightarrow> syscall list \<Rightarrow> server res" where
  "newTcpServer OS host log =
     andThen (newTcpSocket OS log) (\<lambda>(t, log).
     Inr \<lparr>sv_host = host, sv_serverSock = t, sv_clientSocks = [], sv_sockets = Map.empty,
          sv_next = 0, sv_log = log, sv_events = []\<rparr>)"

definition get_client :: "nat \<Rightarrow> server \<Rightarrow> TcpSocket res" where
  "get_client p w = (case sv_sockets w p of None \<Rightarrow> Inl UseAfterFree | Some t \<Rightarrow> Inr t)"

definition delete_client :: "os \<Rightarrow> nat \<Rightarrow> server cmd" where
  "delete_client OS p w =
     andThen (get_client p w) (\<lambda>t.
     Inr (w\<lparr>sv_sockets := (sv_sockets w)(p := None), sv_log := deleteTcpSocket OS t (sv_log w)\<rparr>))"

text \<open>The destructor: the clients, then the member \<open>_serverSock\<close>.\<close>

definition deleteTcpServer :: "os \<Rightarrow> server cmd" where
  "deleteTcpServer OS w =
     andThen (seqs (map (delete_client OS) (sv_clientSocks w)) w) (\<lambda>w.
     Inr (w\<lparr>sv_log := deleteTcpSocket OS (sv_serverSock w) (sv_log w)\<rparr>))"

definition notify :: "os \<Rightarrow> server_user \<Rightarrow> server_event \<Rightarrow> server cmd" where
  "notify OS user ev w =
     (let w = w\<lparr>sv_events := sv_events w @ [ev]\<rparr>
      in seqs (map (delete_client OS) (user (sv_events w))) w)"

section \<open>Clients\<close>

definition EWOULDBLOCK :: int where
  "EWOULDBLOCK = 11"

definition bufLen :: nat where
  "bufLen = 1024"

definition removeClient ::
    "os \<Rightarrow> server_user \<Rightarrow> nat \<Rightarrow> fd set \<Rightarrow> server \<Rightarrow> (fd set \<times> server) res" where
  "removeClient OS user client socksSet w =
     andThen (get_client client w) (\<lambda>t.
     andThen (FD_CLR (tcp_getFileDescr t) socksSet) (\<lambda>socksSet.
     andThen (notify OS user (CloseConnection client) w) (\<lambda>w. Inr (socksSet, w))))"

text \<open>The result, with the set, the buffer and the world as they are then.\<close>

definition handleClientRead ::
    "os \<Rightarrow> server_user \<Rightarrow> bool \<Rightarrow> nat \<Rightarrow> fd set \<Rightarrow> bytes \<Rightarrow> server \<Rightarrow>
      (bool \<times> fd set \<times> bytes \<times> server) res" where
  "handleClientRead OS user tr client readSocks buf w =
     andThen (get_client client w) (\<lambda>t.
     let (recvLen, data, log) = tcp_recv OS t (int bufLen) (sv_log w);
         buf = data @ drop (length data) buf;
         w = w\<lparr>sv_log := log\<rparr>
     in if recvLen < 0
        then if sys_errno OS log \<noteq> EWOULDBLOCK
             then andThen (removeClient OS user client readSocks w) (\<lambda>(readSocks, w).
                  Inr (False, readSocks, buf, w))
             else Inr (False, readSocks, buf, w)
        else if recvLen = 0
        then andThen (removeClient OS user client readSocks w) (\<lambda>(readSocks, w).
             Inr (False, readSocks, buf, w))
        else if tr \<and> 0 \<notin> set buf then Inl OutOfBounds
        else andThen (notify OS user (DataReceived client (take (nat recvLen) buf)) w) (\<lambda>w.
             Inr (True, readSocks, replicate bufLen 0, w)))"

definition handleClientWrite :: "os \<Rightarrow> server_user \<Rightarrow> nat \<Rightarrow> fd set \<Rightarrow> server cmd" where
  "handleClientWrite OS user client writeSocks w =
     andThen (get_client client w) (\<lambda>t.
     andThen (FD_ISSET (tcp_getFileDescr t) writeSocks) (\<lambda>writable.
     if writable then notify OS user (DataCanBeSend client) w else Inr w))"

text \<open>The loop over the clients: \<open>kept\<close> are those before the iterator.\<close>

fun handle_each ::
    "os \<Rightarrow> server_user \<Rightarrow> bool \<Rightarrow> nat list \<Rightarrow> nat list \<Rightarrow> fd set \<Rightarrow> fd set \<Rightarrow> bytes \<Rightarrow>
      server cmd" where
  "handle_each OS user tr kept [] readSocks writeSocks buf w = Inr w"
| "handle_each OS user tr kept (client # rest) readSocks writeSocks buf w =
     andThen (get_client client w) (\<lambda>t.
     andThen (FD_ISSET (tcp_getFileDescr t) readSocks) (\<lambda>readable.
     andThen (if readable then handleClientRead OS user tr client readSocks buf w
              else Inr (True, readSocks, buf, w)) (\<lambda>(ok, readSocks, buf, w).
     if \<not> ok
     then handle_each OS user tr kept rest readSocks writeSocks buf
            (w\<lparr>sv_clientSocks := kept @ rest\<rparr>)
     else andThen (handleClientWrite OS user client writeSocks w) (\<lambda>w.
          handle_each OS user tr (kept @ [client]) rest readSocks writeSocks buf w))))"

definition handleClients ::
    "os \<Rightarrow> server_user \<Rightarrow> bool \<Rightarrow> fd set \<Rightarrow> fd set \<Rightarrow> server cmd" where
  "handleClients OS user tr readSocks writeSocks w =
     handle_each OS user tr [] (sv_clientSocks w) readSocks writeSocks (replicate bufLen 0) w"

section \<open>The server thread\<close>

fun fill_sets :: "nat list \<Rightarrow> server \<Rightarrow> fd set \<Rightarrow> fd set \<Rightarrow> (fd set \<times> fd set) res" where
  "fill_sets [] w r s = Inr (r, s)"
| "fill_sets (client # rest) w r s =
     andThen (get_client client w) (\<lambda>t.
     andThen (FD_SET (tcp_getFileDescr t) r) (\<lambda>r.
     andThen (FD_SET (tcp_getFileDescr t) s) (fill_sets rest w r)))"

definition accept_client :: "os \<Rightarrow> server_user \<Rightarrow> server \<Rightarrow> (bool \<times> server) res" where
  "accept_client OS user w =
     (case tcp_acceptSock OS (sv_serverSock w) (sv_log w) of
        (None, log) \<Rightarrow> Inr (False, w\<lparr>sv_log := log\<rparr>)
      | (Some (t, addr), log) \<Rightarrow>
          let client = sv_next w;
              host = \<lparr>ia_ip = (case sin_addr addr of None \<Rightarrow> 0 | Some a \<Rightarrow> a), ia_port = sin_port addr\<rparr>
          in andThen (notify OS user (NewConnection host client)
               (w\<lparr>sv_log := tcp_setNonBlock OS t True log,
                  sv_sockets := (sv_sockets w)(client \<mapsto> t), sv_next := client + 1,
                  sv_clientSocks := sv_clientSocks w @ [client]\<rparr>)) (\<lambda>w. Inr (True, w)))"

text \<open>One pass of the loop; \<open>False\<close> is the \<open>return\<close> after an error of \<open>select\<close>.\<close>

definition server_pass :: "os \<Rightarrow> server_user \<Rightarrow> bool \<Rightarrow> server \<Rightarrow> (bool \<times> server) res" where
  "server_pass OS user tr w =
     andThen (FD_SET (tcp_getFileDescr (sv_serverSock w)) {}) (\<lambda>readSocks.
     andThen (fill_sets (sv_clientSocks w) w readSocks {}) (\<lambda>(readSocks, writeSocks).
     let (ret, log) = sys OS (SysSelect 0 readSocks writeSocks {}) (sv_log w);
         w = w\<lparr>sv_log := log\<rparr>
     in if ret = 0 then Inr (True, w)
        else if ret = - 1 then Inr (False, w)
        else let (readSocks, writeSocks, exceptSocks) = sys_ready OS log
             in andThen (FD_ISSET (tcp_getFileDescr (sv_serverSock w)) readSocks) (\<lambda>incoming.
                andThen (if incoming then accept_client OS user w else Inr (True, w)) (\<lambda>(ok, w).
                if \<not> ok then Inr (True, w)
                else andThen (handleClients OS user tr readSocks writeSocks w) (\<lambda>w. Inr (True, w))))))"

definition server_runInternal ::
    "os \<Rightarrow> server_user \<Rightarrow> bool \<Rightarrow> bool list \<Rightarrow> server \<Rightarrow> (bool \<times> server) res" where
  "server_runInternal OS user tr runs w =
     (let (bound, log) = tcp_bind OS (sv_serverSock w) (ia_ip (sv_host w)) (ia_port (sv_host w)) (sv_log w);
          w = w\<lparr>sv_log := log\<rparr>
      in if \<not> bound then Inr (False, w)
         else let (listening, log) = tcp_listen OS (sv_serverSock w) somaxconn (sv_log w);
                  w = w\<lparr>sv_log := log\<rparr>
              in if \<not> listening then Inr (False, w)
                 else run_while (server_pass OS user tr) runs
                   (w\<lparr>sv_log := tcp_setNonBlock OS (sv_serverSock w) False (sv_log w)\<rparr>))"

lemmas client_defs = get_client_def delete_client_def removeClient_def notify_def

section \<open>What one pass over the clients does\<close>

text \<open>
  The answers of the system during the pass: \<open>R\<close>, \<open>E\<close> and \<open>D\<close> are the result of \<open>recv\<close>, \<open>errno\<close>
  after it and the bytes received, for each descriptor.
\<close>

definition recv_answers ::
    "os \<Rightarrow> (fd \<Rightarrow> int) \<Rightarrow> (fd \<Rightarrow> int) \<Rightarrow> (fd \<Rightarrow> bytes) \<Rightarrow> bool" where
  "recv_answers OS R E D \<longleftrightarrow> (\<forall>log s.
     sys_ret OS log (SysRecv s 1024 0) = R s \<and> sys_data OS log s = D s \<and>
     sys_errno OS (log @ [SysRecv s 1024 0]) = E s \<and>
     (0 < R s \<longrightarrow> R s \<le> 1024 \<and> int (length (D s)) = R s))"

text \<open>A user that destroys a socket only when it is told that the connection is closed.\<close>

definition deletes_on_close :: "server_user \<Rightarrow> bool" where
  "deletes_on_close user \<longleftrightarrow> (\<forall>evs ev. user (evs @ [ev]) = [] \<or>
     (\<exists>p. ev = CloseConnection p \<and> user (evs @ [ev]) = [p]))"

definition stays :: "(fd \<Rightarrow> int) \<Rightarrow> fd set \<Rightarrow> fd \<Rightarrow> bool" where
  "stays R readSocks s \<longleftrightarrow> (s \<in> readSocks \<longrightarrow> 0 < R s)"

definition client_events ::
    "(fd \<Rightarrow> int) \<Rightarrow> (fd \<Rightarrow> int) \<Rightarrow> (fd \<Rightarrow> bytes) \<Rightarrow> fd set \<Rightarrow> fd set \<Rightarrow> nat \<Rightarrow> fd \<Rightarrow> server_event list"
  where
  "client_events R E D readSocks writeSocks p s =
     (if \<not> stays R readSocks s
      then if R s < 0 \<and> E s = EWOULDBLOCK then [] else [CloseConnection p]
      else (if s \<in> readSocks then [DataReceived p (D s)] else []) @
           (if s \<in> writeSocks then [DataCanBeSend p] else []))"

lemma client_events_cases:
  "\<not> stays R r s \<Longrightarrow> R s < 0 \<Longrightarrow> E s = EWOULDBLOCK \<Longrightarrow> client_events R E D r wr p s = []"
  "\<not> stays R r s \<Longrightarrow> \<not> (R s < 0 \<and> E s = EWOULDBLOCK) \<Longrightarrow>
     client_events R E D r wr p s = [CloseConnection p]"
  "stays R r s \<Longrightarrow> client_events R E D r wr p s =
     (if s \<in> r then [DataReceived p (D s)] else []) @ (if s \<in> wr then [DataCanBeSend p] else [])"
  by (auto simp: client_events_def)

lemma notify_quiet:
  assumes "deletes_on_close user" "\<forall>p. ev \<noteq> CloseConnection p"
  shows "notify OS user ev w = Inr (w\<lparr>sv_events := sv_events w @ [ev]\<rparr>)"
proof -
  have "user (sv_events w @ [ev]) = []"
    using assms unfolding deletes_on_close_def by blast
  then show ?thesis
    by (simp add: notify_def)
qed

lemma notify_close:
  assumes "deletes_on_close user" "sv_sockets w p = Some t"
  shows "\<exists>w'. notify OS user (CloseConnection p) w = Inr w' \<and>
    sv_events w' = sv_events w @ [CloseConnection p] \<and> sv_clientSocks w' = sv_clientSocks w \<and>
    (\<forall>q. q \<noteq> p \<longrightarrow> sv_sockets w' q = sv_sockets w q)"
proof -
  have "user (sv_events w @ [CloseConnection p]) \<in> {[], [p]}"
    using assms(1) unfolding deletes_on_close_def by blast
  then show ?thesis
    using assms(2) by (auto simp: notify_def delete_client_def get_client_def)
qed

text \<open>The read of one client, by the result of \<open>recv\<close>. The buffer is all zeros before and after.\<close>

lemma read_stays:
  assumes "recv_answers OS R E D" "deletes_on_close user" "sv_sockets w p = Some t"
    and "0 < R (ts_sock t)" "tr \<and> R (ts_sock t) = 1024 \<longrightarrow> 0 \<in> set (D (ts_sock t))"
  shows "\<exists>log. handleClientRead OS user tr p r (replicate bufLen 0) w =
    Inr (True, r, replicate bufLen 0,
      w\<lparr>sv_log := log, sv_events := sv_events w @ [DataReceived p (D (ts_sock t))]\<rparr>)"
proof -
  let ?s = "ts_sock t"
  have answers: "sys_ret OS log (SysRecv ?s 1024 0) = R ?s" "sys_data OS log ?s = D ?s"
    "R ?s \<le> 1024" "int (length (D ?s)) = R ?s" for log
    using assms(1,4) unfolding recv_answers_def by blast+
  let ?buf = "D ?s @ drop (length (D ?s)) (replicate bufLen 0)"
  have "0 \<in> set ?buf" if tr
    using that assms(5) answers(3,4) by (auto simp: bufLen_def)
  moreover have "take (nat (R ?s)) ?buf = D ?s" "take (nat (min (R ?s) 1024)) (D ?s) = D ?s"
    using answers(3,4) by (auto simp: min_def)
  ultimately show ?thesis
    using assms(3,4) answers
    by (auto simp: handleClientRead_def get_client_def tcp_recv_def sys_def bufLen_def Let_def
        notify_quiet [OF assms(2)])
qed

lemma read_goes:
  assumes "recv_answers OS R E D" "deletes_on_close user" "sv_sockets w p = Some t"
    and "R (ts_sock t) \<le> 0" "fd_ok (ts_sock t)" "ts_sock t \<in> r"
  shows "\<exists>r' w'. handleClientRead OS user tr p r buf w = Inr (False, r', buf, w') \<and>
    (\<forall>s. s \<noteq> ts_sock t \<longrightarrow> s \<in> r' \<longleftrightarrow> s \<in> r) \<and>
    sv_events w' = sv_events w @ client_events R E D r wr p (ts_sock t) \<and>
    sv_clientSocks w' = sv_clientSocks w \<and>
    (\<forall>q. sv_sockets w' q = sv_sockets w q \<or>
       q = p \<and> CloseConnection p \<in> set (client_events R E D r wr p (ts_sock t)))"
proof -
  let ?s = "ts_sock t" and ?log = "sv_log w @ [SysRecv (ts_sock t) 1024 0]"
  have answers: "sys_ret OS log (SysRecv ?s 1024 0) = R ?s"
    "sys_errno OS (log @ [SysRecv ?s 1024 0]) = E ?s" for log
    using assms(1) unfolding recv_answers_def by blast+
  have goes: "\<not> stays R r ?s"
    using assms(4,6) by (simp add: stays_def)
  note defs = handleClientRead_def get_client_def tcp_recv_def sys_def bufLen_def Let_def answers
  show ?thesis
  proof (cases "R ?s < 0 \<and> E ?s = EWOULDBLOCK")
    case True
    then show ?thesis
      using assms(3) goes by (simp add: defs client_events_cases)
  next
    case False
    obtain w' where "notify OS user (CloseConnection p) (w\<lparr>sv_log := ?log\<rparr>) = Inr w'"
      "sv_events w' = sv_events w @ [CloseConnection p]" "sv_clientSocks w' = sv_clientSocks w"
      "\<forall>q. q \<noteq> p \<longrightarrow> sv_sockets w' q = sv_sockets w q"
      using notify_close [OF assms(2), of "w\<lparr>sv_log := ?log\<rparr>" p t OS] assms(3) by auto
    then show ?thesis
      using assms(3,4,5) goes False
      by (auto simp: defs client_events_cases removeClient_def tcp_getFileDescr_def)
  qed
qed

lemma client_events_cong:
  assumes "s \<in> r \<longleftrightarrow> s \<in> r'"
  shows "client_events R E D r wr p s = client_events R E D r' wr p s"
    and "stays R r s \<longleftrightarrow> stays R r' s"
  using assms by (simp_all add: client_events_def stays_def)

lemma write_result:
  assumes "deletes_on_close user" "sv_sockets w p = Some t" "fd_ok (ts_sock t)"
  shows "handleClientWrite OS user p wr w =
    Inr (if ts_sock t \<in> wr then w\<lparr>sv_events := sv_events w @ [DataCanBeSend p]\<rparr> else w)"
  using assms
  by (simp add: handleClientWrite_def get_client_def tcp_getFileDescr_def notify_quiet)

text \<open>One client: it stays, or the pass goes on without it.\<close>

lemma handle_one:
  assumes "recv_answers OS R E D" "deletes_on_close user" "sv_sockets w p = Some t"
    and "fd_ok (ts_sock t)" "\<forall>s. tr \<and> R s = 1024 \<longrightarrow> 0 \<in> set (D s)"
    and "sv_clientSocks w = kept @ p # rest"
  shows "\<exists>r' w'. handle_each OS user tr kept (p # rest) r wr (replicate bufLen 0) w =
      handle_each OS user tr (if stays R r (ts_sock t) then kept @ [p] else kept) rest r' wr
        (replicate bufLen 0) w' \<and>
    (\<forall>s. s \<noteq> ts_sock t \<longrightarrow> s \<in> r' \<longleftrightarrow> s \<in> r) \<and>
    sv_events w' = sv_events w @ client_events R E D r wr p (ts_sock t) \<and>
    sv_clientSocks w' = (if stays R r (ts_sock t) then kept @ [p] else kept) @ rest \<and>
    (\<forall>q. sv_sockets w' q = sv_sockets w q \<or>
       q = p \<and> CloseConnection p \<in> set (client_events R E D r wr p (ts_sock t)))"
proof (cases "stays R r (ts_sock t)")
  case True
  note stays = True
  note wrote = write_result [OF assms(2) _ assms(4)]
  show ?thesis
  proof (cases "ts_sock t \<in> r")
    case True
    have "0 < R (ts_sock t)" and printed: "tr \<and> R (ts_sock t) = 1024 \<longrightarrow> 0 \<in> set (D (ts_sock t))"
      using stays True assms(5) by (auto simp: stays_def)
    then obtain log where "handleClientRead OS user tr p r (replicate bufLen 0) w =
        Inr (True, r, replicate bufLen 0,
          w\<lparr>sv_log := log, sv_events := sv_events w @ [DataReceived p (D (ts_sock t))]\<rparr>)"
      using read_stays [OF assms(1-3) _ printed] by blast
    then show ?thesis
      using stays True assms(3,4,6)
      by (intro exI [of _ r] exI [of _ "w\<lparr>sv_log := log,
              sv_events := sv_events w @ client_events R E D r wr p (ts_sock t)\<rparr>"])
        (simp add: client_events_cases get_client_def tcp_getFileDescr_def wrote)
  next
    case False
    then show ?thesis
      using stays assms(3,4,6)
      by (intro exI [of _ r] exI [of _ "w\<lparr>
              sv_events := sv_events w @ client_events R E D r wr p (ts_sock t)\<rparr>"])
        (simp add: client_events_cases get_client_def tcp_getFileDescr_def wrote)
  qed
next
  case False
  then have "R (ts_sock t) \<le> 0" "ts_sock t \<in> r"
    by (auto simp: stays_def)
  from read_goes [OF assms(1-3) this(1) assms(4) this(2), of tr "replicate bufLen 0" wr]
  obtain r' w' where "handleClientRead OS user tr p r (replicate bufLen 0) w =
      Inr (False, r', replicate bufLen 0, w')"
    "\<forall>s. s \<noteq> ts_sock t \<longrightarrow> s \<in> r' \<longleftrightarrow> s \<in> r"
    "sv_events w' = sv_events w @ client_events R E D r wr p (ts_sock t)"
    "sv_clientSocks w' = sv_clientSocks w"
    "\<forall>q. sv_sockets w' q = sv_sockets w q \<or>
       q = p \<and> CloseConnection p \<in> set (client_events R E D r wr p (ts_sock t))"
    by blast
  then show ?thesis
    using False \<open>ts_sock t \<in> r\<close> assms(3,4)
    by (intro exI [of _ r'] exI [of _ "w'\<lparr>sv_clientSocks := kept @ rest\<rparr>"])
      (simp add: get_client_def tcp_getFileDescr_def)
qed

text \<open>\<open>f p\<close> is the descriptor of the client \<open>p\<close>, \<open>RS\<close> the set that \<open>select\<close> left.\<close>

lemma handle_each_result:
  assumes "recv_answers OS R E D" "deletes_on_close user"
    and "\<forall>s. tr \<and> R s = 1024 \<longrightarrow> 0 \<in> set (D s)"
  shows "distinct (map f rest) \<Longrightarrow> \<forall>p \<in> set rest. sv_sockets w p = Some \<lparr>ts_sock = f p\<rparr> \<and>
      fd_ok (f p) \<and> (f p \<in> r \<longleftrightarrow> f p \<in> RS) \<Longrightarrow> sv_clientSocks w = kept @ rest \<Longrightarrow>
    \<exists>w'. handle_each OS user tr kept rest r wr (replicate bufLen 0) w = Inr w' \<and>
      sv_clientSocks w' = kept @ filter (\<lambda>p. stays R RS (f p)) rest \<and>
      sv_events w' = sv_events w @ concat (map (\<lambda>p. client_events R E D RS wr p (f p)) rest) \<and>
      (\<forall>q. sv_sockets w' q = sv_sockets w q \<or>
         q \<in> set rest \<and> CloseConnection q \<in> set (client_events R E D RS wr q (f q)))"
proof (induction rest arbitrary: kept r w)
  case (Cons p rest)
  let ?t = "\<lparr>ts_sock = f p\<rparr>"
  have p: "sv_sockets w p = Some ?t" "fd_ok (ts_sock ?t)" "f p \<in> r \<longleftrightarrow> f p \<in> RS"
    using Cons.prems(2) by simp_all
  note same = client_events_cong [OF p(3)]
  obtain r' w1 where one: "handle_each OS user tr kept (p # rest) r wr (replicate bufLen 0) w =
      handle_each OS user tr (if stays R RS (f p) then kept @ [p] else kept) rest r' wr
        (replicate bufLen 0) w1"
    "\<forall>s. s \<noteq> f p \<longrightarrow> s \<in> r' \<longleftrightarrow> s \<in> r"
    "sv_events w1 = sv_events w @ client_events R E D RS wr p (f p)"
    "sv_clientSocks w1 = (if stays R RS (f p) then kept @ [p] else kept) @ rest"
    "\<forall>q. sv_sockets w1 q = sv_sockets w q \<or>
       q = p \<and> CloseConnection p \<in> set (client_events R E D RS wr p (f p))"
    using handle_one [OF assms(1,2) p(1,2) assms(3) Cons.prems(3), of r wr]
    by (auto simp: same simp del: handle_each.simps)
  have "\<forall>q \<in> set rest. sv_sockets w1 q = Some \<lparr>ts_sock = f q\<rparr> \<and>
      fd_ok (f q) \<and> (f q \<in> r' \<longleftrightarrow> f q \<in> RS)"
  proof
    fix q
    assume q: "q \<in> set rest"
    then have "f q \<noteq> f p"
      using Cons.prems(1) by (metis distinct.simps(2) image_eqI list.set_map list.simps(9))
    moreover from this have "sv_sockets w1 q = sv_sockets w q"
      using one(5) [rule_format, of q] by auto
    ultimately show "sv_sockets w1 q = Some \<lparr>ts_sock = f q\<rparr> \<and> fd_ok (f q) \<and> (f q \<in> r' \<longleftrightarrow> f q \<in> RS)"
      using one(2) Cons.prems(2) q by simp
  qed
  from Cons.IH [OF _ this one(4)] Cons.prems(1) obtain w2 where
    "handle_each OS user tr (if stays R RS (f p) then kept @ [p] else kept) rest r' wr
        (replicate bufLen 0) w1 = Inr w2"
    "sv_clientSocks w2 = (if stays R RS (f p) then kept @ [p] else kept) @
       filter (\<lambda>p. stays R RS (f p)) rest"
    "sv_events w2 = sv_events w1 @ concat (map (\<lambda>p. client_events R E D RS wr p (f p)) rest)"
    "\<forall>q. sv_sockets w2 q = sv_sockets w1 q \<or>
       q \<in> set rest \<and> CloseConnection q \<in> set (client_events R E D RS wr q (f q))"
    by (auto simp del: handle_each.simps)
  then show ?case
    using one(1,3,5) by (intro exI [of _ w2]) (simp del: handle_each.simps, metis)
qed auto

section \<open>Properties\<close>

text \<open>
  One pass over the clients reads each readable client once, in the order in which they were
  accepted: a client stays exactly if it was not readable or sent something, and its data and
  then the readiness to write are reported; a closed or failed connection is reported and the
  client leaves the list. A read that would block drops the client without a word: nobody is told, the
  socket stays open, and since it is in no list the server never destroys it.
\<close>

theorem one_pass_over_clients:
  assumes "recv_answers OS R E D" "deletes_on_close user"
    and "\<forall>s. tr \<and> R s = 1024 \<longrightarrow> 0 \<in> set (D s)"
    and "distinct (map f (sv_clientSocks w))"
    and "\<forall>p \<in> set (sv_clientSocks w). sv_sockets w p = Some \<lparr>ts_sock = f p\<rparr> \<and> fd_ok (f p)"
  shows "\<exists>w'. handleClients OS user tr r wr w = Inr w' \<and>
    sv_clientSocks w' = filter (\<lambda>p. f p \<in> r \<longrightarrow> 0 < R (f p)) (sv_clientSocks w) \<and>
    sv_events w' = sv_events w @
      concat (map (\<lambda>p. client_events R E D r wr p (f p)) (sv_clientSocks w)) \<and>
    (\<forall>p \<in> set (sv_clientSocks w). f p \<in> r \<and> R (f p) < 0 \<and> E (f p) = EWOULDBLOCK \<longrightarrow>
       p \<notin> set (sv_clientSocks w') \<and> sv_sockets w' p = Some \<lparr>ts_sock = f p\<rparr>)"
proof -
  from handle_each_result [OF assms(1-4), of w r r "[]" wr] assms(5)
  obtain w' where w': "handleClients OS user tr r wr w = Inr w'"
    "sv_clientSocks w' = filter (\<lambda>p. stays R r (f p)) (sv_clientSocks w)"
    "sv_events w' = sv_events w @
      concat (map (\<lambda>p. client_events R E D r wr p (f p)) (sv_clientSocks w))"
    "\<forall>q. sv_sockets w' q = sv_sockets w q \<or> q \<in> set (sv_clientSocks w) \<and>
       CloseConnection q \<in> set (client_events R E D r wr q (f q))"
    by (auto simp: handleClients_def)
  have "sv_sockets w' p = Some \<lparr>ts_sock = f p\<rparr>"
    if "p \<in> set (sv_clientSocks w)" "f p \<in> r" "R (f p) < 0" "E (f p) = EWOULDBLOCK" for p
  proof -
    have "client_events R E D r wr p (f p) = []"
      using that by (simp add: client_events_def stays_def)
    then have "sv_sockets w' p = sv_sockets w p"
      using w'(4) [rule_format, of p] by simp
    then show ?thesis
      using assms(5) that(1) by simp
  qed
  then show ?thesis
    using w' by (auto simp: stays_def)
qed

definition reading_os :: os where
  "reading_os = demo_os\<lparr>
     sys_ret := (\<lambda>log c. case c of SysRecv s n k \<Rightarrow> if s = 5 then 3 else - 1 | _ \<Rightarrow> 0),
     sys_errno := (\<lambda>log. 11), sys_data := (\<lambda>log s. if s = 5 then [7, 8, 9] else [])\<rparr>"

definition two_clients :: server where
  "two_clients = \<lparr>sv_host = \<lparr>ia_ip = 0, ia_port = 80\<rparr>, sv_serverSock = \<lparr>ts_sock = 4\<rparr>,
     sv_clientSocks = [0, 1], sv_sockets = [0 \<mapsto> \<lparr>ts_sock = 5\<rparr>, 1 \<mapsto> \<lparr>ts_sock = 6\<rparr>],
     sv_next = 2, sv_log = [], sv_events = []\<rparr>"

lemma one_pass_over_clients_witness:
  "\<exists>w'. handleClients reading_os (\<lambda>evs. []) True {5, 6} {6} two_clients = Inr w' \<and>
     sv_clientSocks w' = [0] \<and> sv_events w' = [DataReceived 0 [7, 8, 9]] \<and>
     sv_sockets w' 1 = Some \<lparr>ts_sock = 6\<rparr>"
proof -
  let ?R = "\<lambda>s :: fd. if s = 5 then 3 else - 1 :: int" and ?D = "\<lambda>s. if s = 5 then [7, 8, 9] else []"
  have "recv_answers reading_os ?R (\<lambda>s. 11) ?D"
    by (simp add: recv_answers_def reading_os_def)
  moreover have "\<forall>s. ?R s \<noteq> 1024"
    by simp
  ultimately show ?thesis
    using one_pass_over_clients [of reading_os ?R "\<lambda>s. 11" ?D "\<lambda>evs. []" True "\<lambda>p. if p = 0 then 5 else 6"
      two_clients "{5, 6}" "{6}"]
    by (auto simp: deletes_on_close_def two_clients_def fd_ok_def client_events_def stays_def
        EWOULDBLOCK_def)
qed

text \<open>Calls that serve a client, and a start of the server that makes none.\<close>

definition idle :: "syscall list \<Rightarrow> bool" where
  "idle log \<longleftrightarrow> list_all (\<lambda>c. case c of SysAccept s \<Rightarrow> False | SysRecv s n k \<Rightarrow> False
     | SysSend s buf k \<Rightarrow> False | _ \<Rightarrow> True) log"

lemma idle_setNonBlock: "idle log \<Longrightarrow> idle (tcp_setNonBlock OS t b log)"
  by (simp add: tcp_setNonBlock_def sys_def idle_def)

lemma server_starts:
  assumes "idle (sv_log w)"
  shows "\<exists>log. idle log \<and> server_runInternal OS user tr runs w \<in>
    {Inr (False, w\<lparr>sv_log := log\<rparr>),
     run_while (server_pass OS user tr) runs (w\<lparr>sv_log := log\<rparr>)}"
proof -
  let ?t = "sv_serverSock w"
  let ?bound = "sv_log w @ [SysBind (ts_sock ?t)
      \<lparr>sin_port = ia_port (sv_host w), sin_addr = Some (ia_ip (sv_host w))\<rparr>]"
  let ?listening = "?bound @ [SysListen (ts_sock ?t) somaxconn]"
  have "idle ?bound" "idle ?listening" "idle (tcp_setNonBlock OS ?t False ?listening)"
    using assms idle_setNonBlock [of ?listening] by (simp_all add: idle_def)
  moreover have "server_runInternal OS user tr runs w \<in>
    {Inr (False, w\<lparr>sv_log := ?bound\<rparr>), Inr (False, w\<lparr>sv_log := ?listening\<rparr>),
     run_while (server_pass OS user tr) runs (w\<lparr>sv_log := tcp_setNonBlock OS ?t False ?listening\<rparr>)}"
    by (simp add: server_runInternal_def tcp_bind_def tcp_listen_def sys_def Let_def)
  ultimately show ?thesis
    by blast
qed

text \<open>Where \<open>select\<close> reports nothing, a pass only makes the call.\<close>

lemma idle_pass:
  assumes "select_contract OS" "sv_clientSocks w = []" "fd_ok (ts_sock (sv_serverSock w))"
  shows "\<exists>go. server_pass OS user tr w = Inr (go, w\<lparr>sv_log := sv_log w @
    [SysSelect 0 {ts_sock (sv_serverSock w)} {} {}]\<rparr>)"
  using select_none [OF assms(1), of "{ts_sock (sv_serverSock w)}" "{}" "{}" "sv_log w"] assms(2,3)
  by (auto simp: server_pass_def tcp_getFileDescr_def sys_def)

text \<open>
  C36: on a POSIX system the server serves nobody. It passes 0 as the number of descriptors to
  \<open>select\<close>, which then examines none: however long the server runs, with whatever clients there
  are, it only polls; it never accepts a connection, reads nothing, writes nothing and reports
  nothing to its user.
\<close>

theorem server_serves_nobody:
  assumes "select_contract OS" "newTcpServer OS host [] = Inr w"
    and "fd_ok (ts_sock (sv_serverSock w))"
  shows "\<exists>go w'. server_runInternal OS user tr runs w = Inr (go, w') \<and> sv_events w' = [] \<and>
    sv_clientSocks w' = [] \<and>
    idle (sv_log w')"
proof -
  let ?P = "\<lambda>w' :: server. sv_events w' = [] \<and> sv_clientSocks w' = [] \<and> idle (sv_log w') \<and>
    sv_serverSock w' = sv_serverSock w"
  have new: "?P w"
    using assms(2) by (auto simp: newTcpServer_def newTcpSocket_def sys_def andThen_eq_Inr_iff Let_def
        idle_def split: if_splits)
  have pass: "\<exists>go w'. server_pass OS user tr w2 = Inr (go, w') \<and> ?P w'" if "?P w2" for w2
    using idle_pass [OF assms(1), of w2 user tr] that assms(3) by (auto simp: idle_def)
  obtain log where log: "idle log" "server_runInternal OS user tr runs w \<in>
      {Inr (False, w\<lparr>sv_log := log\<rparr>), run_while (server_pass OS user tr) runs (w\<lparr>sv_log := log\<rparr>)}"
    using server_starts [of w OS user tr runs] new by blast
  have "?P (w\<lparr>sv_log := log\<rparr>)"
    using new log(1) by simp
  from run_while_invariant [where P = ?P and pass = "server_pass OS user tr" and rs = runs,
      OF this pass] obtain go w' where
    "run_while (server_pass OS user tr) runs (w\<lparr>sv_log := log\<rparr>) = Inr (go, w')" "?P w'"
    by blast
  then show ?thesis
    using log new by auto
qed

lemma demo_os_select: "select_contract demo_os"
  by (simp add: select_contract_def demo_os_def)

lemma server_serves_nobody_witness:
  "\<exists>w go w'. newTcpServer demo_os \<lparr>ia_ip = 0, ia_port = 80\<rparr> [] = Inr w \<and>
     server_runInternal demo_os (\<lambda>evs. []) True [True, True] w = Inr (go, w') \<and>
     sv_clientSocks w' = []"
proof -
  obtain w where w: "newTcpServer demo_os \<lparr>ia_ip = 0, ia_port = 80\<rparr> [] = Inr w"
    "fd_ok (ts_sock (sv_serverSock w))"
    by (simp add: newTcpServer_def newTcpSocket_def sys_def demo_os_def fd_ok_def)
  then show ?thesis
    using server_serves_nobody [OF demo_os_select w(1,2), of "\<lambda>evs. []" True "[True, True]"] by blast
qed

text \<open>
  The trace prints the whole buffer as a C string: a client that sends 1024 bytes without a zero
  makes it read on beyond the array.
\<close>

lemma full_buffer_is_overread:
  assumes "recv_answers OS R E D" "sv_sockets w p = Some t" "R (ts_sock t) = 1024"
    and "0 \<notin> set (D (ts_sock t))"
  shows "handleClientRead OS user True p r (replicate bufLen 0) w = Inl OutOfBounds"
proof -
  have answers: "sys_ret OS log (SysRecv (ts_sock t) 1024 0) = 1024"
    "sys_data OS log (ts_sock t) = D (ts_sock t)" "length (D (ts_sock t)) = 1024" for log
    using assms(1,3) unfolding recv_answers_def by (metis zero_less_numeral of_nat_eq_iff of_nat_numeral)+
  then show ?thesis
    using assms(2,4)
    by (simp add: handleClientRead_def get_client_def tcp_recv_def sys_def bufLen_def Let_def)
qed

end
