(* ===== verification/ServerLoop.thy ===== *)
theory ServerLoop
  imports TcpServer
begin

text \<open>
  The loop of the threaded server under any answers of \<open>select\<close>, such as those of a system that
  ignores the number of descriptors: it does not fault, and what its user is told of each
  client is a life in the right order. The user may destroy a client when it is told that
  the connection is closed, and only then.
\<close>

text \<open>The public entry sets \<open>_run\<close> and runs the loop in the thread of the caller.\<close>

definition server_runInThisThread ::
    "os \<Rightarrow> server_user \<Rightarrow> bool \<Rightarrow> bool list \<Rightarrow> server \<Rightarrow> (bool \<times> server) res" where
  "server_runInThisThread OS user tr runs w = server_runInternal OS user tr runs w"

section \<open>The life of a client\<close>

text \<open>\<open>follow\<close> takes the clients that are open through a list of events; \<open>None\<close>: an event out of order.\<close>

fun follow :: "nat set \<Rightarrow> server_event \<Rightarrow> nat set option" where
  "follow S (NewConnection h p) = (if p \<in> S then None else Some (insert p S))"
| "follow S (CloseConnection p) = (if p \<in> S then Some (S - {p}) else None)"
| "follow S (DataReceived p d) = (if p \<in> S then Some S else None)"
| "follow S (DataCanBeSend p) = (if p \<in> S then Some S else None)"

definition open_clients :: "server_event list \<Rightarrow> nat set option" where
  "open_clients evs = foldl (\<lambda>S ev. Option.bind S (\<lambda>S. follow S ev)) (Some {}) evs"

lemma open_clients_simps [simp]:
  "open_clients [] = Some {}"
  "open_clients (evs @ [ev]) = Option.bind (open_clients evs) (\<lambda>S. follow S ev)"
  by (simp_all add: open_clients_def)

section \<open>The invariant\<close>

text \<open>
  The clients in the list are distinct, alive, have descriptors that a set can hold, and are open
  for the user; numbers from \<open>sv_next\<close> on are fresh.
\<close>

definition client_ok :: "server \<Rightarrow> nat \<Rightarrow> bool" where
  "client_ok w p \<longleftrightarrow> (\<exists>t. sv_sockets w p = Some t \<and> fd_ok (ts_sock t))"

definition server_ok :: "server \<Rightarrow> bool" where
  "server_ok w \<longleftrightarrow> fd_ok (ts_sock (sv_serverSock w)) \<and> distinct (sv_clientSocks w) \<and>
     (\<forall>p \<in> set (sv_clientSocks w). client_ok w p) \<and>
     (\<exists>S. open_clients (sv_events w) = Some S \<and> set (sv_clientSocks w) \<subseteq> S \<and> (\<forall>p \<in> S. p < sv_next w))"

text \<open>A descriptor that \<open>accept\<close> returns fits into a set.\<close>

definition accept_contract :: "os \<Rightarrow> bool" where
  "accept_contract OS \<longleftrightarrow> (\<forall>log s. let r = sys_ret OS log (SysAccept s) in r = INVALID_SOCKET \<or> fd_ok r)"

text \<open>
  \<open>recv\<close> fills no more than the buffer and returns the number of bytes; if traces are written, one
  that fills the buffer brings a zero, where the text of the trace ends.
\<close>

definition recv_contract :: "os \<Rightarrow> bool \<Rightarrow> bool" where
  "recv_contract OS tr \<longleftrightarrow> (\<forall>log s. let r = sys_ret OS log (SysRecv s 1024 0); d = sys_data OS log s in
     r \<le> 1024 \<and> (0 < r \<longrightarrow> int (length d) = r \<and> (tr \<and> r = 1024 \<longrightarrow> 0 \<in> set d)))"

lemma recv_contractD:
  assumes "recv_contract OS tr" and "tcp_recv OS t (int bufLen) log = (n, d, log')"
  shows "n \<le> 0 \<Longrightarrow> d = []" "0 < n \<Longrightarrow> tr \<Longrightarrow> 0 \<in> set (d @ drop (length d) (replicate bufLen 0))"
proof -
  let ?r = "sys_ret OS log (SysRecv (ts_sock t) 1024 0)" and ?d = "sys_data OS log (ts_sock t)"
  have c: "?r \<le> 1024" "0 < ?r \<Longrightarrow> int (length ?d) = ?r" "0 < ?r \<Longrightarrow> tr \<Longrightarrow> ?r = 1024 \<Longrightarrow> 0 \<in> set ?d"
    using assms(1) unfolding recv_contract_def Let_def by blast+
  have n: "n = ?r" "d = take (nat (min ?r 1024)) ?d"
    using assms(2) by (auto simp: tcp_recv_def sys_def bufLen_def Let_def)
  show "n \<le> 0 \<Longrightarrow> d = []"
    using n by simp
  show "0 \<in> set (d @ drop (length d) (replicate bufLen 0))" if "0 < n" tr
    using c n that by (cases "?r = 1024") (auto simp: bufLen_def min_def)
qed

lemma server_okD:
  assumes "server_ok w"
  shows "fd_ok (ts_sock (sv_serverSock w))" "distinct (sv_clientSocks w)"
    "p \<in> set (sv_clientSocks w) \<Longrightarrow> \<exists>t. sv_sockets w p = Some t \<and> fd_ok (ts_sock t)"
  using assms by (auto simp: server_ok_def client_ok_def)

lemma server_ok_log [simp]: "server_ok (w\<lparr>sv_log := l\<rparr>) = server_ok w"
  by (simp add: server_ok_def client_ok_def)

section \<open>Every step keeps it\<close>

lemma told_of_client:
  assumes "deletes_on_close user" "server_ok w" "p \<in> set (sv_clientSocks w)"
    and "ev = DataReceived p d \<or> ev = DataCanBeSend p"
  shows "\<exists>w'. notify OS user ev w = Inr w' \<and> server_ok w' \<and> sv_clientSocks w' = sv_clientSocks w \<and>
    sv_sockets w' = sv_sockets w"
proof -
  have "notify OS user ev w = Inr (w\<lparr>sv_events := sv_events w @ [ev]\<rparr>)"
    using assms(4) by (intro notify_quiet [OF assms(1)]) auto
  moreover have "server_ok (w\<lparr>sv_events := sv_events w @ [ev]\<rparr>)"
    using assms(2-4) by (auto simp: server_ok_def client_ok_def)
  ultimately show ?thesis
    by simp
qed

lemma told_of_close:
  assumes user: "deletes_on_close user" and ok: "server_ok w" and w: "sv_clientSocks w = kept @ p # rest"
  shows "\<exists>w'. notify OS user (CloseConnection p) w = Inr w' \<and> server_ok (w'\<lparr>sv_clientSocks := kept @ rest\<rparr>)"
proof -
  obtain t where "sv_sockets w p = Some t"
    using server_okD(3) [OF ok, of p] w by auto
  from notify_close [OF user this] obtain w' where w': "notify OS user (CloseConnection p) w = Inr w'"
    "sv_events w' = sv_events w @ [CloseConnection p]" "\<forall>q. q \<noteq> p \<longrightarrow> sv_sockets w' q = sv_sockets w q"
    by blast
  have "user (sv_events w @ [CloseConnection p]) \<in> {[], [p]}"
    using user unfolding deletes_on_close_def by blast
  then have same: "sv_serverSock w' = sv_serverSock w" "sv_next w' = sv_next w"
    using w'(1) by (auto simp: notify_def delete_client_def Let_def andThen_eq_Inr_iff)
  have "server_ok (w'\<lparr>sv_clientSocks := kept @ rest\<rparr>)"
    using ok w w'(2,3) same
    by (auto simp: server_ok_def client_ok_def)
  with w'(1) show ?thesis
    by blast
qed


lemma dropped_client:
  "server_ok w \<Longrightarrow> sv_clientSocks w = kept @ p # rest \<Longrightarrow> server_ok (w\<lparr>sv_clientSocks := kept @ rest\<rparr>)"
  by (auto simp: server_ok_def client_ok_def)

lemma read_keeps:
  assumes user: "deletes_on_close user" and rcv: "recv_contract OS tr" and ok: "server_ok w" and w: "sv_clientSocks w = kept @ p # rest"
  shows "\<exists>go r' w'. handleClientRead OS user tr p r (replicate bufLen 0) w = Inr (go, r', replicate bufLen 0, w') \<and>
    (if go then server_ok w' \<and> sv_clientSocks w' = sv_clientSocks w
     else server_ok (w'\<lparr>sv_clientSocks := kept @ rest\<rparr>))"
proof -
  obtain t where t: "sv_sockets w p = Some t" "fd_ok (ts_sock t)"
    using server_okD(3) [OF ok, of p] w by auto
  obtain n d log where recv: "tcp_recv OS t (int bufLen) (sv_log w) = (n, d, log)"
    by (cases "tcp_recv OS t (int bufLen) (sv_log w)")
  let ?w = "w\<lparr>sv_log := log\<rparr>" and ?buf = "d @ drop (length d) (replicate bufLen 0)"
  have okl: "server_ok ?w" "sv_clientSocks ?w = kept @ p # rest"
    using ok w by simp_all
  consider "n < 0" | "n = 0" | "0 < n"
    by linarith
  note cases = this
  obtain w1 where w1: "notify OS user (CloseConnection p) ?w = Inr w1"
    "server_ok (w1\<lparr>sv_clientSocks := kept @ rest\<rparr>)"
    using told_of_close [OF user okl] by blast
  obtain w2 where w2: "notify OS user (DataReceived p (take (nat n) ?buf)) ?w = Inr w2"
    "server_ok w2" "sv_clientSocks w2 = sv_clientSocks ?w"
    using told_of_client [OF user okl(1), of p "DataReceived p (take (nat n) ?buf)"] w by auto
  show ?thesis
    using t recv w1 w2 dropped_client [OF okl] recv_contractD [OF rcv recv]
    by (cases rule: cases) (auto simp: handleClientRead_def get_client_def removeClient_def tcp_getFileDescr_def
        Let_def ex_bool_eq)
qed

lemma write_keeps:
  assumes user: "deletes_on_close user" and ok: "server_ok w" and p: "p \<in> set (sv_clientSocks w)"
  shows "\<exists>w'. handleClientWrite OS user p wr w = Inr w' \<and> server_ok w' \<and> sv_clientSocks w' = sv_clientSocks w"
proof -
  obtain t where t: "sv_sockets w p = Some t" "fd_ok (ts_sock t)"
    using server_okD(3) [OF ok p] by blast
  then show ?thesis
    using told_of_client [OF user ok p, of "DataCanBeSend p"] ok
    by (auto simp: handleClientWrite_def get_client_def tcp_getFileDescr_def)
qed

lemma handle_each_keeps:
  assumes user: "deletes_on_close user" and rcv: "recv_contract OS tr"
  shows "server_ok w \<Longrightarrow> sv_clientSocks w = kept @ rest \<Longrightarrow>
    \<exists>w'. handle_each OS user tr kept rest r wr (replicate bufLen 0) w = Inr w' \<and> server_ok w'"
proof (induction rest arbitrary: kept r w)
  case (Cons p rest)
  obtain t where t: "sv_sockets w p = Some t" "fd_ok (ts_sock t)"
    using server_okD(3) [OF Cons.prems(1), of p] Cons.prems(2) by auto
  obtain go r' w1 where read: "(if ts_sock t \<in> r then handleClientRead OS user tr p r (replicate bufLen 0) w
      else Inr (True, r, replicate bufLen 0, w)) = Inr (go, r', replicate bufLen 0, w1)"
    and w1: "if go then server_ok w1 \<and> sv_clientSocks w1 = sv_clientSocks w
      else server_ok (w1\<lparr>sv_clientSocks := kept @ rest\<rparr>)"
    using read_keeps [OF user rcv Cons.prems, of r] Cons.prems(1) by (cases "ts_sock t \<in> r") auto
  show ?case
  proof (cases go)
    case False
    then show ?thesis
      using Cons.IH [of "w1\<lparr>sv_clientSocks := kept @ rest\<rparr>" kept r'] w1 t read
      by (simp add: get_client_def tcp_getFileDescr_def)
  next
    case True
    then obtain w2 where w2: "handleClientWrite OS user p wr w1 = Inr w2" "server_ok w2"
      "sv_clientSocks w2 = (kept @ [p]) @ rest"
      using write_keeps [OF user, of w1 p OS wr] w1 Cons.prems(2) by auto
    then show ?thesis
      using Cons.IH [OF w2(2,3), of r'] True t read
      by (simp add: get_client_def tcp_getFileDescr_def)
  qed
qed simp

lemma accept_keeps:
  assumes user: "deletes_on_close user" and acc: "accept_contract OS" and ok: "server_ok w"
  shows "\<exists>go w'. accept_client OS user w = Inr (go, w') \<and> server_ok w'"
proof -
  let ?s = "ts_sock (sv_serverSock w)"
  let ?r = "sys_ret OS (sv_log w) (SysAccept ?s)" and ?log = "sv_log w @ [SysAccept ?s]"
  show ?thesis
  proof (cases "?r = INVALID_SOCKET")
    case True
    then show ?thesis
      using ok by (simp add: accept_client_def tcp_acceptSock_def sys_def ex_bool_eq)
  next
    case False
    then have fd: "fd_ok ?r"
      using acc by (auto simp: accept_contract_def Let_def)
    obtain S where S: "open_clients (sv_events w) = Some S" "set (sv_clientSocks w) \<subseteq> S"
      "\<forall>p \<in> S. p < sv_next w"
      using ok by (auto simp: server_ok_def)
    have old: "p < sv_next w" if "p \<in> set (sv_clientSocks w)" for p
      using S that by blast
    have ok': "server_ok (w\<lparr>sv_log := l, sv_sockets := (sv_sockets w)(sv_next w \<mapsto> tcpSocketOf ?r),
        sv_next := sv_next w + 1, sv_clientSocks := sv_clientSocks w @ [sv_next w],
        sv_events := sv_events w @ [NewConnection h (sv_next w)]\<rparr>)" for l h
      using ok S old fd by (fastforce simp: server_ok_def client_ok_def tcpSocketOf_def less_Suc_eq)
    show ?thesis
      using False ok'
      by (auto simp: accept_client_def tcp_acceptSock_def sys_def Let_def notify_quiet [OF user])
  qed
qed

lemma fill_sets_total:
  "\<forall>p \<in> set ps. client_ok w p \<Longrightarrow> \<exists>r' s'. fill_sets ps w r s = Inr (r', s')"
  by (induction ps arbitrary: r s) (auto simp: client_ok_def get_client_def tcp_getFileDescr_def)

lemma server_pass_keeps:
  assumes user: "deletes_on_close user" and acc: "accept_contract OS" and rcv: "recv_contract OS tr"
    and ok: "server_ok w"
  shows "\<exists>go w'. server_pass OS user tr w = Inr (go, w') \<and> server_ok w'"
proof -
  let ?s = "ts_sock (sv_serverSock w)"
  have s: "fd_ok ?s"
    using ok by (simp add: server_ok_def)
  obtain r wr where fill: "fill_sets (sv_clientSocks w) w {?s} {} = Inr (r, wr)"
    using fill_sets_total [of "sv_clientSocks w" w "{?s}" "{}"] ok by (auto simp: server_ok_def)
  let ?log = "sv_log w @ [SysSelect 0 r wr {}]"
  let ?w = "w\<lparr>sv_log := ?log\<rparr>"
  have okl: "server_ok ?w"
    using ok by simp
  obtain r' wr' e' where ready: "sys_ready OS ?log = (r', wr', e')"
    by (cases "sys_ready OS ?log")
  obtain go w1 where w1: "(if ?s \<in> r' then accept_client OS user ?w else Inr (True, ?w)) = Inr (go, w1)"
    "server_ok w1"
    using accept_keeps [OF user acc okl] okl by (cases "?s \<in> r'") auto
  obtain w2 where "handleClients OS user tr r' wr' w1 = Inr w2" "server_ok w2"
    using handle_each_keeps [OF user rcv w1(2), of "[]" "sv_clientSocks w1"]
    unfolding handleClients_def append_Nil by blast
  then show ?thesis
    using s fill ready w1 okl
    by (auto simp: server_pass_def tcp_getFileDescr_def sys_def Let_def)
qed


section \<open>Property\<close>

text \<open>
  C37: under any answers of \<open>select\<close> and \<open>recv\<close>, with traces written or not, a run of the threaded
  server never faults: no client is used after its destruction and no descriptor leaves a
  set. Its user is told of every client in the right order: first that it is new, then of
  data and of readiness to write, last that it is closed, and nothing afterwards; and the clients in
  the list are always distinct, alive and among those open for the user. What this needs is that
  the descriptors of the listener and of accepted clients fit into a set, that the user destroys a client
  only when it is told of its close, that \<open>recv\<close> fills no more than the buffer it is given, and,
  if traces are written, that 1024 bytes received at once contain a zero: the trace prints the
  buffer as a C string, and without a zero it is over-read.
\<close>

theorem server_loop_is_safe:
  assumes "deletes_on_close user" and "accept_contract OS" and "recv_contract OS tr"
    and "newTcpServer OS host [] = Inr w" and "fd_ok (ts_sock (sv_serverSock w))"
  shows "\<exists>go w' S. server_runInThisThread OS user tr runs w = Inr (go, w') \<and>
    open_clients (sv_events w') = Some S \<and> set (sv_clientSocks w') \<subseteq> S \<and>
    distinct (sv_clientSocks w') \<and> (\<forall>p \<in> set (sv_clientSocks w'). sv_sockets w' p \<noteq> None)"
proof -
  have new: "sv_log w = [SysSocket SOCK_STREAM 6]" "server_ok w"
    using assms(4,5) by (auto simp: newTcpServer_def newTcpSocket_def sys_def andThen_eq_Inr_iff Let_def
        server_ok_def split: if_splits)
  then have "idle (sv_log w)"
    by (simp add: idle_def)
  from server_starts [OF this, of OS user tr runs] obtain log where log:
    "server_runInternal OS user tr runs w \<in>
      {Inr (False, w\<lparr>sv_log := log\<rparr>), run_while (server_pass OS user tr) runs (w\<lparr>sv_log := log\<rparr>)}"
    by blast
  obtain go w1 where w1: "run_while (server_pass OS user tr) runs (w\<lparr>sv_log := log\<rparr>) = Inr (go, w1)"
    "server_ok w1"
    using run_while_invariant [where P = server_ok and pass = "server_pass OS user tr" and rs = runs,
        OF _ server_pass_keeps [OF assms(1,2,3)]] new(2)
    by (metis server_ok_log)
  have "\<exists>go w'. server_runInThisThread OS user tr runs w = Inr (go, w') \<and> server_ok w'"
    using log w1 new(2) by (auto simp: server_runInThisThread_def)
  then show ?thesis
    by (fastforce simp: server_ok_def client_ok_def)
qed

definition accepting_os :: os where
  "accepting_os = demo_os\<lparr>
     sys_ret := (\<lambda>log c. case c of SysSocket ty n \<Rightarrow> 4 | SysAccept s \<Rightarrow> 5 | SysSelect n r w e \<Rightarrow> 1 | SysRecv s n k \<Rightarrow> 0 | _ \<Rightarrow> 0),
     sys_ready := (\<lambda>log. if length log < 8 then ({4}, {}, {}) else ({5}, {}, {}))\<rparr>"

lemma server_loop_is_safe_witness:
  "\<exists>w go w' S. newTcpServer accepting_os \<lparr>ia_ip = 0, ia_port = 80\<rparr> [] = Inr w \<and>
     server_runInThisThread accepting_os (\<lambda>evs. case last evs of CloseConnection p \<Rightarrow> [p] | _ \<Rightarrow> [])
       True [True, True, True] w = Inr (go, w') \<and> open_clients (sv_events w') = Some S"
proof -
  obtain w where w: "newTcpServer accepting_os \<lparr>ia_ip = 0, ia_port = 80\<rparr> [] = Inr w"
    "fd_ok (ts_sock (sv_serverSock w))"
    by (simp add: newTcpServer_def newTcpSocket_def sys_def accepting_os_def demo_os_def fd_ok_def)
  have "deletes_on_close (\<lambda>evs. case last evs of CloseConnection p \<Rightarrow> [p] | _ \<Rightarrow> [])"
    by (simp add: deletes_on_close_def split: server_event.splits)
  moreover have "accept_contract accepting_os"
    by (simp add: accept_contract_def accepting_os_def fd_ok_def)
  moreover have "recv_contract accepting_os True"
    by (simp add: recv_contract_def accepting_os_def)
  ultimately show ?thesis
    using server_loop_is_safe [OF _ _ _ w, of _ True "[True, True, True]"] w(1) by blast
qed

end
