(* ===== verification/ExSockets.thy ===== *)
theory ExSockets
  imports Sockets
begin

text \<open>
  The classes \<open>FlipBuffer\<close>, \<open>ExSocket\<close> and \<open>ExSocketHandler\<close> of \<open>libratel/TcpServer\<close>: sockets that
  register themselves with a handler, whose thread asks \<open>select\<close> about all of them and calls
  them back. All sockets share one handler and one user, application code that reacts to
  each event, given all events so far, by a list of actions.
\<close>

section \<open>FlipBuffer\<close>

text \<open>
  Both sets are \<open>std::set\<close>: sorted, without duplicates. The sets of the program are sorted by the addresses of
  their elements; here objects are numbered as they are created and a number is not used again, so the order
  stands for that of one allocator, and the reuse of an address is left out.
\<close>

record 'a FlipBuffer =
  fb_write :: "'a list"
  fb_read :: "'a list"

definition fb_insert :: "'a :: linorder \<Rightarrow> 'a FlipBuffer \<Rightarrow> 'a FlipBuffer" where
  "fb_insert x b = b\<lparr>fb_write := (if x \<in> set (fb_write b) then fb_write b else insort x (fb_write b))\<rparr>"

definition fb_erase :: "'a \<Rightarrow> 'a FlipBuffer \<Rightarrow> 'a FlipBuffer" where
  "fb_erase x b = b\<lparr>fb_write := remove1 x (fb_write b)\<rparr>"

definition fb_flip :: "'a FlipBuffer \<Rightarrow> 'a list \<times> 'a FlipBuffer" where
  "fb_flip b = (fb_write b, b\<lparr>fb_read := fb_write b\<rparr>)"

section \<open>State\<close>

record ExSocket =
  ex_type :: int
  ex_connected :: bool
  ex_base :: BaseSocket
  ex_msgRecvBuffer :: "bytes list"
  ex_msgSendBuffer :: "bytes list"

datatype ex_event =
    ExRead nat
  | ExConnected nat
  | ExConnectionClosed nat
  | ExConnectionFailed nat
  | ExNewConnection nat IpAddressAndPort

datatype ex_action =
    CreateSocket int
  | DestroySocket nat
  | ShutdownSocket nat
  | SendNow nat bytes
  | TakeMessages nat
  | BindSocket nat u32 u16
  | ListenSocket nat

type_synonym ex_user = "ex_event list \<Rightarrow> ex_action list"

record exworld =
  xw_sockets :: "nat \<rightharpoonup> ExSocket"
  xw_next :: nat
  xw_flSockets :: "nat FlipBuffer"
  xw_log :: "syscall list"
  xw_events :: "ex_event list"

definition newExSocketHandler :: exworld where
  "newExSocketHandler = \<lparr>xw_sockets = Map.empty, xw_next = 0,
     xw_flSockets = \<lparr>fb_write = [], fb_read = []\<rparr>, xw_log = [], xw_events = []\<rparr>"

definition get_ex :: "nat \<Rightarrow> exworld \<Rightarrow> ExSocket res" where
  "get_ex p w = (case xw_sockets w p of None \<Rightarrow> Inl UseAfterFree | Some x \<Rightarrow> Inr x)"

definition put_ex :: "nat \<Rightarrow> ExSocket \<Rightarrow> exworld \<Rightarrow> exworld" where
  "put_ex p x w = w\<lparr>xw_sockets := (xw_sockets w)(p \<mapsto> x)\<rparr>"

section \<open>Registration\<close>

abbreviation (input) EventAddSocket :: int where "EventAddSocket \<equiv> 0"
abbreviation (input) EventDelSocket :: int where "EventDelSocket \<equiv> 1"

definition handleEvent :: "int \<Rightarrow> nat \<Rightarrow> exworld cmd" where
  "handleEvent type sock w =
     (if type = EventAddSocket then Inr (w\<lparr>xw_flSockets := fb_insert sock (xw_flSockets w)\<rparr>)
      else if type = EventDelSocket then Inr (w\<lparr>xw_flSockets := fb_erase sock (xw_flSockets w)\<rparr>)
      else Inl InvalidArgument)"

definition onAddSocket :: "nat \<Rightarrow> exworld cmd" where
  "onAddSocket sock = handleEvent EventAddSocket sock"

definition onDelSocket :: "nat \<Rightarrow> exworld cmd" where
  "onDelSocket sock = handleEvent EventDelSocket sock"

section \<open>ExSocket\<close>

definition newExSocket :: "os \<Rightarrow> int \<Rightarrow> exworld \<Rightarrow> (nat \<times> exworld) res" where
  "newExSocket OS type w =
     andThen (newBaseSocket OS type (xw_log w)) (\<lambda>(b, log).
     let p = xw_next w;
         x = \<lparr>ex_type = type, ex_connected = False, ex_base = b, ex_msgRecvBuffer = [],
              ex_msgSendBuffer = []\<rparr>
     in andThen (onAddSocket p (put_ex p x (w\<lparr>xw_log := log, xw_next := p + 1\<rparr>))) (\<lambda>w. Inr (p, w)))"

definition exSocketOf :: "int \<Rightarrow> fd \<Rightarrow> exworld \<Rightarrow> (nat \<times> exworld) res" where
  "exSocketOf type s w =
     (let p = xw_next w;
          x = \<lparr>ex_type = type, ex_connected = True, ex_base = baseSocketOf type s,
               ex_msgRecvBuffer = [], ex_msgSendBuffer = []\<rparr>
      in andThen (onAddSocket p (put_ex p x (w\<lparr>xw_next := p + 1\<rparr>))) (\<lambda>w. Inr (p, w)))"

text \<open>The destructor closes the descriptor, and then the member \<open>_sock\<close> is destroyed.\<close>

definition deleteExSocket :: "os \<Rightarrow> nat \<Rightarrow> exworld cmd" where
  "deleteExSocket OS this w =
     andThen (get_ex this w) (\<lambda>x.
     andThen (onDelSocket this w) (\<lambda>w.
     Inr (w\<lparr>xw_log := deleteBaseSocket OS (ex_base x) (base_close OS (ex_base x) (xw_log w)),
            xw_sockets := (xw_sockets w)(this := None)\<rparr>)))"

definition ex_shutdown :: "os \<Rightarrow> nat \<Rightarrow> exworld cmd" where
  "ex_shutdown OS this w =
     andThen (get_ex this w) (\<lambda>x. Inr (w\<lparr>xw_log := base_shutdown OS (ex_base x) (xw_log w)\<rparr>))"

definition ex_sendNow :: "os \<Rightarrow> nat \<Rightarrow> bytes \<Rightarrow> exworld \<Rightarrow> (int \<times> exworld) res" where
  "ex_sendNow OS this buf w =
     andThen (get_ex this w) (\<lambda>x.
     let (r, log) = base_send OS (ex_base x) buf 0 (xw_log w) in Inr (r, w\<lparr>xw_log := log\<rparr>))"

definition readMessages :: "nat \<Rightarrow> bytes list \<Rightarrow> exworld \<Rightarrow> (bytes list \<times> exworld) res" where
  "readMessages this buf w =
     andThen (get_ex this w) (\<lambda>x.
     Inr (ex_msgRecvBuffer x, put_ex this (x\<lparr>ex_msgRecvBuffer := buf\<rparr>) w))"

text \<open>A failing \<open>bind\<close> is traced, a failing \<open>listen\<close> is ignored.\<close>

definition ex_bind :: "os \<Rightarrow> nat \<Rightarrow> u32 \<Rightarrow> u16 \<Rightarrow> exworld cmd" where
  "ex_bind OS this ip port w =
     andThen (get_ex this w) (\<lambda>x.
     Inr (w\<lparr>xw_log := snd (base_bind OS (ex_base x) ip port (xw_log w))\<rparr>))"

definition ex_listen :: "os \<Rightarrow> nat \<Rightarrow> exworld cmd" where
  "ex_listen OS this w =
     andThen (get_ex this w) (\<lambda>x.
     andThen (base_listen OS (ex_base x) somaxconn (xw_log w)) (\<lambda>(ok, log).
     Inr (w\<lparr>xw_log := log\<rparr>)))"

fun ex_act :: "os \<Rightarrow> ex_action \<Rightarrow> exworld cmd" where
  "ex_act OS (CreateSocket type) w = andThen (newExSocket OS type w) (\<lambda>(p, w). Inr w)"
| "ex_act OS (DestroySocket p) w = deleteExSocket OS p w"
| "ex_act OS (ShutdownSocket p) w = ex_shutdown OS p w"
| "ex_act OS (SendNow p buf) w = andThen (ex_sendNow OS p buf w) (\<lambda>(r, w). Inr w)"
| "ex_act OS (TakeMessages p) w = andThen (readMessages p [] w) (\<lambda>(msgs, w). Inr w)"
| "ex_act OS (BindSocket p ip port) w = ex_bind OS p ip port w"
| "ex_act OS (ListenSocket p) w = ex_listen OS p w"

definition ex_notify :: "os \<Rightarrow> ex_user \<Rightarrow> ex_event \<Rightarrow> exworld cmd" where
  "ex_notify OS user ev w =
     (let w = w\<lparr>xw_events := xw_events w @ [ev]\<rparr>
      in seqs (map (ex_act OS) (user (xw_events w))) w)"

section \<open>Callbacks of the handler\<close>

text \<open>The address of a failed \<open>accept\<close> is not looked at.\<close>

definition ex_accept :: "os \<Rightarrow> ex_user \<Rightarrow> ExSocket \<Rightarrow> exworld cmd" where
  "ex_accept OS user x w =
     (let s = getSocketFD (ex_base x); (clientSock, log) = sys OS (SysAccept s) (xw_log w);
          addr = sys_peer OS (xw_log w) s; w = w\<lparr>xw_log := log\<rparr>
      in if clientSock = INVALID_SOCKET then Inr w
         else andThen (exSocketOf SocketType_TcpConnected clientSock w) (\<lambda>(p, w).
              case sin_addr addr of
                None \<Rightarrow> Inl Uninitialised
              | Some a \<Rightarrow> ex_notify OS user (ExNewConnection p (convertToAddr a (sin_port addr))) w))"

text \<open>A message has the size that was asked for: what \<open>recv\<close> did not fill stays zero.\<close>

definition ex_receive :: "os \<Rightarrow> ex_user \<Rightarrow> nat \<Rightarrow> ExSocket \<Rightarrow> int \<Rightarrow> exworld cmd" where
  "ex_receive OS user this x readSize w =
     (let (r, data, log) = base_recv OS (ex_base x) readSize 0 (xw_log w);
          buf = data @ replicate (nat readSize - length data) 0
      in ex_notify OS user (ExRead this)
           (put_ex this (x\<lparr>ex_msgRecvBuffer := ex_msgRecvBuffer x @ [buf]\<rparr>) (w\<lparr>xw_log := log\<rparr>)))"

definition ex_closed :: "os \<Rightarrow> ex_user \<Rightarrow> nat \<Rightarrow> ExSocket \<Rightarrow> exworld cmd" where
  "ex_closed OS user this x w =
     andThen (ex_notify OS user (ExConnectionClosed this)
       (put_ex this (x\<lparr>ex_connected := False\<rparr>)
         (w\<lparr>xw_log := base_shutdown OS (ex_base x) (xw_log w)\<rparr>))) (\<lambda>w.
     andThen (get_ex this w) (\<lambda>_. onDelSocket this w))"

definition onRead :: "os \<Rightarrow> ex_user \<Rightarrow> nat \<Rightarrow> exworld cmd" where
  "onRead OS user this w =
     andThen (get_ex this w) (\<lambda>x.
     if ex_type x = SocketType_TcpServer then ex_accept OS user x w
     else if ex_type x = SocketType_TcpConnected
     then andThen (getReadSize OS (ex_base x) (xw_log w)) (\<lambda>(readSize, log).
          let w = w\<lparr>xw_log := log\<rparr>
          in if 0 < readSize then ex_receive OS user this x readSize w
             else if ex_connected x \<and> readSize = 0 then ex_closed OS user this x w
             else Inr w)
     else Inr w)"

text \<open>\<open>sendSize != msg.size()\<close> compares as unsigned, \<open>erase\<close> takes the number as it is.\<close>

definition onWrite :: "os \<Rightarrow> ex_user \<Rightarrow> nat \<Rightarrow> exworld cmd" where
  "onWrite OS user this w =
     andThen (get_ex this w) (\<lambda>x.
     if ex_type x \<noteq> SocketType_TcpConnected then Inr w
     else if \<not> ex_connected x
     then ex_notify OS user (ExConnected this) (put_ex this (x\<lparr>ex_connected := True\<rparr>) w)
     else case ex_msgSendBuffer x of
       [] \<Rightarrow> Inr w
     | msg # msgs \<Rightarrow>
         let (sendSize, log) = base_send OS (ex_base x) msg 0 (xw_log w);
             w = w\<lparr>xw_log := log\<rparr>
         in if sendSize = int (length msg) then Inr (put_ex this (x\<lparr>ex_msgSendBuffer := msgs\<rparr>) w)
            else if sendSize < 0 \<or> int (length msg) < sendSize then Inl OutOfBounds
            else Inr (put_ex this
                   (x\<lparr>ex_msgSendBuffer := drop (nat sendSize) msg # msgs\<rparr>) w))"

definition onError :: "os \<Rightarrow> ex_user \<Rightarrow> nat \<Rightarrow> exworld cmd" where
  "onError OS user this w =
     andThen (get_ex this w) (\<lambda>x.
     if ex_type x = SocketType_TcpConnected then ex_notify OS user (ExConnectionFailed this) w
     else Inr w)"

section \<open>The handler's thread\<close>

text \<open>\<open>getFileDescr\<close>: the descriptor of the socket, read through the pointer.\<close>

definition ex_getFileDescr :: "nat \<Rightarrow> exworld \<Rightarrow> fd res" where
  "ex_getFileDescr p w = andThen (get_ex p w) (\<lambda>x. Inr (getSocketFD (ex_base x)))"

fun ex_fill :: "nat list \<Rightarrow> exworld \<Rightarrow> fd set \<Rightarrow> fd set res" where
  "ex_fill [] w A = Inr A"
| "ex_fill (p # ps) w A =
     andThen (ex_getFileDescr p w) (\<lambda>s. andThen (FD_SET s A) (ex_fill ps w))"

definition when_set :: "(nat \<Rightarrow> exworld cmd) \<Rightarrow> fd set \<Rightarrow> nat \<Rightarrow> exworld cmd" where
  "when_set f A p w =
     andThen (ex_getFileDescr p w) (\<lambda>s. andThen (FD_ISSET s A) (\<lambda>b. if b then f p w else Inr w))"

definition visit :: "os \<Rightarrow> ex_user \<Rightarrow> fd set \<times> fd set \<times> fd set \<Rightarrow> nat \<Rightarrow> exworld cmd" where
  "visit OS user sets p =
     (case sets of (r, wr, e) \<Rightarrow>
        seqs [when_set (onRead OS user) r p, when_set (onWrite OS user) wr p,
              when_set (onError OS user) e p])"

definition handler_pass :: "os \<Rightarrow> ex_user \<Rightarrow> exworld \<Rightarrow> (bool \<times> exworld) res" where
  "handler_pass OS user w =
     (let (sockets, b) = fb_flip (xw_flSockets w); w = w\<lparr>xw_flSockets := b\<rparr>
      in andThen (ex_fill sockets w {}) (\<lambda>A.
         let (ret, log) = sys OS (SysSelect 0 A A A) (xw_log w); w = w\<lparr>xw_log := log\<rparr>
         in if ret = 0 then Inr (True, w)
            else if ret = - 1 then Inr (False, w)
            else andThen (seqs (map (visit OS user (sys_ready OS log)) sockets) w) (\<lambda>w.
                 Inr (True, w))))"

definition handler_runInternal ::
    "os \<Rightarrow> ex_user \<Rightarrow> bool list \<Rightarrow> exworld \<Rightarrow> (bool \<times> exworld) res" where
  "handler_runInternal OS user runs w = run_while (handler_pass OS user) runs w"

definition handler_runInThisThread ::
    "os \<Rightarrow> ex_user \<Rightarrow> bool list \<Rightarrow> exworld \<Rightarrow> (bool \<times> exworld) res" where
  "handler_runInThisThread OS user runs w = handler_runInternal OS user runs w"

section \<open>Registered sockets are alive\<close>

definition registered :: "exworld \<Rightarrow> nat list" where
  "registered w = fb_write (xw_flSockets w)"

text \<open>
  \<open>sendMessage\<close> is declared and never defined, so that no message ever waits to be sent.
\<close>

definition ex_ok :: "exworld \<Rightarrow> bool" where
  "ex_ok w \<longleftrightarrow> sorted (registered w) \<and> distinct (registered w) \<and>
     (\<forall>p \<in> set (registered w). xw_sockets w p \<noteq> None) \<and>
     (\<forall>p x. xw_sockets w p = Some x \<longrightarrow> p < xw_next w \<and> ex_msgSendBuffer x = [])"

lemma ex_ok_updates [simp]:
  "ex_ok (w\<lparr>xw_log := log\<rparr>) = ex_ok w" "ex_ok (w\<lparr>xw_events := evs\<rparr>) = ex_ok w"
  "xw_flSockets (put_ex p x w) = xw_flSockets w" "xw_log (put_ex p x w) = xw_log w"
  by (simp_all add: ex_ok_def registered_def put_ex_def)

lemma ex_ok_flip: "ex_ok w \<Longrightarrow> ex_ok (w\<lparr>xw_flSockets := snd (fb_flip (xw_flSockets w))\<rparr>)"
  by (simp add: ex_ok_def registered_def fb_flip_def)

lemma get_ex_Inr: "get_ex p w = Inr x \<longleftrightarrow> xw_sockets w p = Some x"
  by (simp add: get_ex_def split: option.splits)

lemma ex_ok_put:
  "ex_ok w \<Longrightarrow> xw_sockets w p = Some x \<Longrightarrow> ex_msgSendBuffer x' = [] \<Longrightarrow> ex_ok (put_ex p x' w)"
  by (auto simp: ex_ok_def registered_def put_ex_def)

lemma ex_ok_add:
  assumes "ex_ok w" "ex_msgSendBuffer x = []"
    and "onAddSocket (xw_next w) (put_ex (xw_next w) x (w\<lparr>xw_log := log, xw_next := Suc (xw_next w)\<rparr>))
      = Inr w'"
  shows "ex_ok w'"
proof -
  have "\<forall>p \<in> set (registered w). p < xw_next w"
    using assms(1) unfolding ex_ok_def by blast
  then show ?thesis
    using assms
    by (auto simp: ex_ok_def registered_def onAddSocket_def handleEvent_def put_ex_def fb_insert_def
        set_insort_key sorted_insort distinct_insort less_Suc_eq split: if_splits)
qed

lemma ex_ok_del:
  assumes "ex_ok w" "onDelSocket p w = Inr w'"
  shows "ex_ok w'" "p \<notin> set (registered w')" "xw_sockets w' = xw_sockets w"
    "set (registered w') \<subseteq> set (registered w)" "xw_log w' = xw_log w"
  using assms
  by (auto simp: ex_ok_def registered_def onDelSocket_def handleEvent_def fb_erase_def sorted_remove1)

lemma ex_ok_new:
  "ex_ok w \<Longrightarrow> newExSocket OS type w = Inr (p, w') \<Longrightarrow> ex_ok w'"
  "ex_ok w \<Longrightarrow> exSocketOf type s w = Inr (p, w') \<Longrightarrow> ex_ok w'"
proof -
  assume "ex_ok w" "newExSocket OS type w = Inr (p, w')"
  then show "ex_ok w'"
    by (auto simp: newExSocket_def andThen_eq_Inr_iff Let_def elim!: ex_ok_add [rotated 2])
next
  assume ok: "ex_ok w" and "exSocketOf type s w = Inr (p, w')"
  then show "ex_ok w'"
    using ex_ok_add [OF ok, of "\<lparr>ex_type = type, ex_connected = True, ex_base = baseSocketOf type s,
        ex_msgRecvBuffer = [], ex_msgSendBuffer = []\<rparr>" "xw_log w" w']
    by (auto simp: exSocketOf_def andThen_eq_Inr_iff Let_def)
qed

lemma ex_ok_destroy:
  assumes "ex_ok w" "deleteExSocket OS p w = Inr w'"
  shows "ex_ok w'"
proof -
  obtain w1 where w1: "onDelSocket p w = Inr w1"
    using assms(2) by (auto simp: deleteExSocket_def andThen_eq_Inr_iff)
  then have "\<exists>log. w' = w1\<lparr>xw_log := log, xw_sockets := (xw_sockets w)(p := None)\<rparr>"
    using assms(2) ex_ok_del(3) [OF assms(1) w1]
    by (auto simp: deleteExSocket_def andThen_eq_Inr_iff)
  then show ?thesis
    using ex_ok_del [OF assms(1) w1] by (auto simp: ex_ok_def registered_def split: if_splits)
qed

lemma ex_ok_log: "w' = w\<lparr>xw_log := log\<rparr> \<Longrightarrow> ex_ok w \<Longrightarrow> ex_ok w'"
  by simp

lemma ex_ok_act:
  assumes "ex_ok w" "ex_act OS a w = Inr w'"
  shows "ex_ok w'"
proof (cases a)
  case (CreateSocket type)
  then show ?thesis
    using assms ex_ok_new(1) [OF assms(1)] by (auto simp: andThen_eq_Inr_iff)
next
  case (DestroySocket p)
  then show ?thesis
    using assms ex_ok_destroy by simp
next
  case (ShutdownSocket p)
  then show ?thesis
    using assms by (auto simp: ex_shutdown_def andThen_eq_Inr_iff)
next
  case (SendNow p buf)
  then show ?thesis
    using assms by (auto simp: ex_sendNow_def base_send_def sys_def andThen_eq_Inr_iff)
next
  case (TakeMessages p)
  then obtain x where x: "xw_sockets w p = Some x" "w' = put_ex p (x\<lparr>ex_msgRecvBuffer := []\<rparr>) w"
    using assms(2) by (auto simp: readMessages_def get_ex_Inr andThen_eq_Inr_iff)
  moreover have "ex_msgSendBuffer x = []"
    using assms(1) x(1) unfolding ex_ok_def by blast
  ultimately show ?thesis
    using ex_ok_put [OF assms(1) x(1)] by simp
next
  case (BindSocket p ip port)
  then show ?thesis
    using assms by (auto simp: ex_bind_def andThen_eq_Inr_iff)
next
  case (ListenSocket p)
  then show ?thesis
    using assms by (auto simp: ex_listen_def andThen_eq_Inr_iff)
qed

lemma ex_ok_notify: "ex_ok w \<Longrightarrow> satisfies ex_ok (ex_notify OS user ev w)"
  unfolding ex_notify_def Let_def by (rule satisfies_seqs) (auto simp: satisfies_def dest: ex_ok_act)

lemma ex_ok_send: "ex_ok w \<Longrightarrow> xw_sockets w p = Some x \<Longrightarrow> ex_msgSendBuffer x = []"
  unfolding ex_ok_def by blast

lemma ex_ok_put_log:
  assumes "ex_ok w" "xw_sockets w p = Some x" "ex_msgSendBuffer x' = ex_msgSendBuffer x"
  shows "ex_ok (put_ex p x' (w\<lparr>xw_log := log\<rparr>))"
  using ex_ok_put [of "w\<lparr>xw_log := log\<rparr>" p x x'] assms ex_ok_send [OF assms(1,2)] by simp

lemma ex_ok_accept:
  assumes "ex_ok w"
  shows "satisfies ex_ok (ex_accept OS user x w)"
proof -
  let ?log = "xw_log w @ [SysAccept (getSocketFD (ex_base x))]"
  have "satisfies (\<lambda>(p, w). ex_ok w) (exSocketOf type s (w\<lparr>xw_log := ?log\<rparr>))" for type s
    using assms ex_ok_new(2) [of "w\<lparr>xw_log := ?log\<rparr>"] by (auto simp: satisfies_def)
  then show ?thesis
    using assms
    by (auto simp: ex_accept_def sys_def Let_def ex_ok_notify split: option.split
        intro!: satisfies_bind)
qed

lemma ex_ok_receive:
  "ex_ok w \<Longrightarrow> xw_sockets w p = Some x \<Longrightarrow> satisfies ex_ok (ex_receive OS user p x n w)"
  unfolding ex_receive_def Let_def
  by (auto split: prod.split intro!: ex_ok_notify ex_ok_put_log)

lemma ex_ok_closed:
  "ex_ok w \<Longrightarrow> xw_sockets w p = Some x \<Longrightarrow> satisfies ex_ok (ex_closed OS user p x w)"
  unfolding ex_closed_def
  by (intro satisfies_bind [OF ex_ok_notify] satisfies_andThen ex_ok_put_log)
    (auto simp: satisfies_def dest: ex_ok_del(1))

lemma ex_ok_onRead: "ex_ok w \<Longrightarrow> satisfies ex_ok (onRead OS user p w)"
  by (auto simp: onRead_def get_ex_Inr Let_def
      intro!: satisfies_andThen ex_ok_accept ex_ok_receive ex_ok_closed)

text \<open>With nothing to send, the readiness to write only completes a connection.\<close>

lemma ex_ok_onWrite: "ex_ok w \<Longrightarrow> satisfies ex_ok (onWrite OS user p w)"
  unfolding onWrite_def
  by (rule satisfies_andThen)
    (use ex_ok_put ex_ok_send in \<open>auto simp: get_ex_Inr intro!: ex_ok_notify\<close>)

lemma ex_ok_onError: "ex_ok w \<Longrightarrow> satisfies ex_ok (onError OS user p w)"
  by (auto simp: onError_def intro!: satisfies_andThen ex_ok_notify)

lemma ex_ok_when_set:
  "(\<And>w. ex_ok w \<Longrightarrow> satisfies ex_ok (f p w)) \<Longrightarrow> ex_ok w \<Longrightarrow> satisfies ex_ok (when_set f A p w)"
  by (auto simp: when_set_def intro!: satisfies_andThen)

lemma ex_ok_visit: "ex_ok w \<Longrightarrow> satisfies ex_ok (visit OS user sets p w)"
  unfolding visit_def
  by (auto split: prod.split intro!: satisfies_bind ex_ok_when_set ex_ok_onRead ex_ok_onWrite ex_ok_onError)

lemma ex_ok_visits: "ex_ok w \<Longrightarrow> satisfies ex_ok (seqs (map (visit OS user sets) ps) w)"
  by (rule satisfies_seqs) (auto intro: ex_ok_visit)

lemma ex_ok_pass:
  assumes "ex_ok w"
  shows "satisfies (\<lambda>(go, w). ex_ok w) (handler_pass OS user w)"
proof -
  have "satisfies (\<lambda>(go, w). ex_ok w) (andThen (seqs (map (visit OS user sets) ps) w) (\<lambda>w. Inr (True, w)))"
    if "ex_ok w" for sets ps w
    by (rule satisfies_bind [OF ex_ok_visits [OF that]]) simp
  then show ?thesis
    using ex_ok_flip [OF assms]
    unfolding handler_pass_def fb_flip_def sys_def Let_def prod.case snd_conv
    by (intro satisfies_andThen) simp
qed

section \<open>Properties\<close>

text \<open>A program: actions of its own and passes of the handler, in any order.\<close>

datatype ex_program_step = Act ex_action | Pass

fun ex_step :: "os \<Rightarrow> ex_user \<Rightarrow> ex_program_step \<Rightarrow> exworld cmd" where
  "ex_step OS user (Act a) w = ex_act OS a w"
| "ex_step OS user Pass w = andThen (handler_pass OS user w) (\<lambda>(go, w). Inr w)"

lemma ex_ok_step: "ex_ok w \<Longrightarrow> satisfies ex_ok (ex_step OS user st w)"
proof (cases st)
  case (Act a)
  then show "ex_ok w \<Longrightarrow> ?thesis"
    by (auto simp: satisfies_def dest: ex_ok_act)
next
  case Pass
  then show "ex_ok w \<Longrightarrow> ?thesis"
    by (auto intro!: satisfies_bind [OF ex_ok_pass])
qed

definition fd_of :: "exworld \<Rightarrow> nat \<Rightarrow> fd" where
  "fd_of w p = (case xw_sockets w p of None \<Rightarrow> INVALID_SOCKET | Some x \<Rightarrow> getSocketFD (ex_base x))"

lemma ex_fill_result:
  "\<forall>p \<in> set ps. xw_sockets w p \<noteq> None \<Longrightarrow> ex_fill ps w A =
     (if \<forall>p \<in> set ps. fd_ok (fd_of w p) then Inr (A \<union> fd_of w ` set ps) else Inl OutOfBounds)"
  by (induction ps arbitrary: A)
    (auto simp: ex_getFileDescr_def get_ex_def fd_of_def FD_SET_def)

text \<open>
  C38: after any program of a user, whatever its callbacks did, the handler knows live
  sockets only, each once and in the order of their addresses, and no socket holds a message to
  send. A registered socket whose descriptor is invalid, as after a failed \<open>socket\<close>, which nobody checks, makes
  the next pass write outside a descriptor set.
\<close>

theorem handler_knows_live_sockets:
  assumes "seqs (map (ex_step OS user) steps) newExSocketHandler = Inr w"
  shows "sorted (registered w) \<and> distinct (registered w) \<and>
    (\<forall>p \<in> set (registered w). xw_sockets w p \<noteq> None) \<and>
    (\<forall>p x. xw_sockets w p = Some x \<longrightarrow> ex_msgSendBuffer x = []) \<and>
    ((\<exists>p \<in> set (registered w). \<not> fd_ok (fd_of w p)) \<longrightarrow>
       handler_pass OS user w = Inl OutOfBounds)"
proof -
  have "ex_ok newExSocketHandler"
    by (simp add: ex_ok_def newExSocketHandler_def registered_def)
  then have "satisfies ex_ok (seqs (map (ex_step OS user) steps) newExSocketHandler)"
    by (intro satisfies_seqs) (auto intro: ex_ok_step)
  from satisfiesD [OF this assms] have ok: "ex_ok w" .
  moreover have "ex_fill (registered w) (w\<lparr>xw_flSockets := b\<rparr>) {} = Inl OutOfBounds"
    if "\<exists>p \<in> set (registered w). \<not> fd_ok (fd_of w p)" for b
    using that ok ex_fill_result [of "registered w" "w\<lparr>xw_flSockets := b\<rparr>" "{}"]
    by (auto simp: ex_ok_def fd_of_def)
  ultimately show ?thesis
    by (auto simp: ex_ok_def handler_pass_def fb_flip_def registered_def Let_def)
qed

definition failing_os :: os where
  "failing_os = demo_os\<lparr>sys_ret := (\<lambda>log c. case c of SysSocket t k \<Rightarrow> - 1 | _ \<Rightarrow> 0)\<rparr>"

lemmas ex_eval = newExSocket_def newBaseSocket_def onAddSocket_def handleEvent_def put_ex_def
  newExSocketHandler_def fb_insert_def registered_def fd_of_def getSocketFD_def sys_def fd_ok_def

lemma handler_knows_live_sockets_witness:
  "\<exists>w. seqs (map (ex_step failing_os (\<lambda>evs. [])) [Act (CreateSocket 3)]) newExSocketHandler = Inr w \<and>
     registered w = [0] \<and> handler_pass failing_os (\<lambda>evs. []) w = Inl OutOfBounds"
proof -
  obtain w where w: "seqs (map (ex_step failing_os (\<lambda>evs. [])) [Act (CreateSocket 3)]) newExSocketHandler
      = Inr w" "registered w = [0]" "\<not> fd_ok (fd_of w 0)"
    by (simp add: ex_eval failing_os_def)
  then show ?thesis
    using handler_knows_live_sockets [OF w(1)] by auto
qed

text \<open>What is known of \<open>SO_RCVBUF\<close>: it can be asked for, and it is positive.\<close>

definition rcvbuf_contract :: "os \<Rightarrow> int \<Rightarrow> bool" where
  "rcvbuf_contract OS n \<longleftrightarrow> 0 < n \<and>
     (\<forall>log s. sys_ret OS log (SysRcvBuf s) = 0 \<and> sys_option OS log s = n)"

text \<open>
  On POSIX a connected socket never notices that its peer has closed. The number of readable
  bytes is taken to be the size of the system's receive buffer, which is positive: each call of
  \<open>onRead\<close> appends a message of exactly that size, the bytes received followed by zeros (only zeros
  after an end of file or an error), reports it, and leaves the socket connected and registered.
\<close>

theorem close_is_read_as_zeros:
  assumes "rcvbuf_contract OS n" "user (xw_events w @ [ExRead p]) = []"
    and "xw_sockets w p = Some x" "ex_type x = SocketType_TcpConnected"
    and "s = getSocketFD (ex_base x)" "log = xw_log w @ [SysRcvBuf s]"
    and "r = sys_ret OS log (SysRecv s n 0)"
  shows "\<exists>w' msg. onRead OS user p w = Inr w' \<and>
    xw_sockets w' = (xw_sockets w)(p \<mapsto> x\<lparr>ex_msgRecvBuffer := ex_msgRecvBuffer x @ [msg]\<rparr>) \<and>
    length msg = nat n \<and> (r \<le> 0 \<longrightarrow> msg = replicate (nat n) 0) \<and>
    (0 \<le> r \<and> r \<le> n \<and> length (sys_data OS log s) = nat r \<longrightarrow>
       msg = sys_data OS log s @ replicate (nat (n - r)) 0) \<and>
    xw_events w' = xw_events w @ [ExRead p] \<and> xw_flSockets w' = xw_flSockets w"
proof -
  let ?data = "take (nat (min r n)) (sys_data OS log s)"
  let ?msg = "?data @ replicate (nat n - length ?data) 0"
  let ?w = "put_ex p (x\<lparr>ex_msgRecvBuffer := ex_msgRecvBuffer x @ [?msg]\<rparr>)
      (w\<lparr>xw_log := log @ [SysRecv s n 0], xw_events := xw_events w @ [ExRead p]\<rparr>)"
  have n: "0 < n" "sys_ret OS l (SysRcvBuf s) = 0" "sys_option OS l s = n" for l
    using assms(1) by (simp_all add: rcvbuf_contract_def)
  have "onRead OS user p w = Inr ?w"
    using assms(2-4) n unfolding assms(6,7) assms(5)
    by (simp add: onRead_def get_ex_def getReadSize_def sys_def ex_receive_def base_recv_def Let_def
        getSocketFD_def ex_notify_def put_ex_def)
  moreover have "length ?msg = nat n"
    by (simp add: min_def)
  moreover have "?msg = replicate (nat n) 0" if "r \<le> 0"
    using that by simp
  moreover have "?msg = sys_data OS log s @ replicate (nat (n - r)) 0"
    if "0 \<le> r" "r \<le> n" "length (sys_data OS log s) = nat r"
    using that by (simp add: min_def nat_diff_distrib)
  ultimately show ?thesis
    by (intro exI [of _ ?w] exI [of _ ?msg]) (auto simp: put_ex_def)
qed

definition closing_os :: os where
  "closing_os = demo_os\<lparr>sys_option := (\<lambda>log s. 4)\<rparr>"

definition one_socket :: exworld where
  "one_socket = newExSocketHandler\<lparr>xw_sockets := [0 \<mapsto> \<lparr>ex_type = 3, ex_connected = True,
     ex_base = baseSocketOf 3 5, ex_msgRecvBuffer = [], ex_msgSendBuffer = []\<rparr>], xw_next := 1,
     xw_flSockets := \<lparr>fb_write = [0], fb_read = []\<rparr>\<rparr>"

lemma closing_os_rcvbuf: "rcvbuf_contract closing_os 4"
  by (simp add: rcvbuf_contract_def closing_os_def demo_os_def)

lemma close_is_read_as_zeros_witness:
  "\<exists>w'. onRead closing_os (\<lambda>evs. []) 0 one_socket = Inr w' \<and> xw_events w' = [ExRead 0] \<and>
     map_option ex_msgRecvBuffer (xw_sockets w' 0) = Some [[0, 0, 0, 0]]"
proof -
  have "sys_ret closing_os log (SysRecv s n k) = 0" for log s n k
    by (simp add: closing_os_def demo_os_def)
  then show ?thesis
    using close_is_read_as_zeros [OF closing_os_rcvbuf, of "\<lambda>evs. []" one_socket 0 _ _ _ 0]
    by (fastforce simp: one_socket_def newExSocketHandler_def numeral_eq_Suc)
qed

text \<open>
  A user must not destroy a socket in the callback that reports its data: the handler goes
  on to ask for the descriptor of the destroyed object.
\<close>

theorem destroying_reader_is_used_again:
  assumes "rcvbuf_contract OS n" "user (xw_events w @ [ExRead p]) = [DestroySocket p]"
    and "xw_sockets w p = Some x" "ex_type x = SocketType_TcpConnected"
    and "fd_ok (getSocketFD (ex_base x))" "getSocketFD (ex_base x) \<in> r"
  shows "visit OS user (r, wr, e) p w = Inl UseAfterFree"
proof -
  have n: "0 < n" "sys_ret OS l (SysRcvBuf s) = 0" "sys_option OS l s = n" for l s
    using assms(1) by (simp_all add: rcvbuf_contract_def)
  have "\<exists>w'. onRead OS user p w = Inr w' \<and> xw_sockets w' p = None"
    using assms(2-4) n
    by (simp add: onRead_def get_ex_def getReadSize_def sys_def ex_receive_def base_recv_def Let_def
        ex_notify_def put_ex_def deleteExSocket_def onDelSocket_def handleEvent_def)
  then show ?thesis
    using assms(3,5,6)
    by (auto simp: visit_def when_set_def ex_getFileDescr_def get_ex_def)
qed

lemma destroying_reader_is_used_again_witness:
  "visit closing_os (\<lambda>evs. [DestroySocket 0]) ({5}, {}, {}) 0 one_socket = Inl UseAfterFree"
  by (rule destroying_reader_is_used_again [OF closing_os_rcvbuf,
        where x = "the (xw_sockets one_socket 0)"])
    (simp_all add: one_socket_def baseSocketOf_def getSocketFD_def fd_ok_def)

text \<open>Where \<open>select\<close> reports nothing, the handler calls nobody.\<close>

lemma idle_handler_pass:
  assumes "select_contract OS" "\<forall>p \<in> set (registered w). xw_sockets w p \<noteq> None \<and> fd_ok (fd_of w p)"
  shows "\<exists>go w'. handler_pass OS user w = Inr (go, w') \<and> xw_events w' = xw_events w \<and>
    xw_sockets w' = xw_sockets w \<and> registered w' = registered w"
proof -
  let ?A = "fd_of w ` set (registered w)"
  have "ex_fill (registered w) (w\<lparr>xw_flSockets := b\<rparr>) {} = Inr ?A" for b
    using ex_fill_result [of "registered w" "w\<lparr>xw_flSockets := b\<rparr>" "{}"] assms(2)
    by (auto simp: fd_of_def)
  moreover have "sys_ret OS log (SysSelect 0 ?A ?A ?A) \<in> {- 1, 0}" for log
    using select_none [OF assms(1), of ?A ?A ?A] assms(2) by simp
  ultimately show ?thesis
    by (auto simp: handler_pass_def fb_flip_def registered_def sys_def Let_def)
qed

theorem handler_calls_nobody:
  assumes "select_contract OS" "\<forall>p \<in> set (registered w). xw_sockets w p \<noteq> None \<and> fd_ok (fd_of w p)"
  shows "\<exists>go w'. handler_runInThisThread OS user runs w = Inr (go, w') \<and> xw_events w' = xw_events w"
proof -
  let ?P = "\<lambda>w' :: exworld. xw_events w' = xw_events w \<and> xw_sockets w' = xw_sockets w \<and>
    registered w' = registered w"
  have "\<exists>go w'. handler_pass OS user w1 = Inr (go, w') \<and> ?P w'" if "?P w1" for w1
    using idle_handler_pass [OF assms(1), of w1 user] that assms(2) by (auto simp: fd_of_def)
  from run_while_invariant [where P = ?P and pass = "handler_pass OS user" and rs = runs
      and w = w, OF _ this]
  obtain go w' where "run_while (handler_pass OS user) runs w = Inr (go, w')" "?P w'"
    by blast
  then show ?thesis
    by (simp add: handler_runInThisThread_def handler_runInternal_def)
qed

end
