(* ===== verification/Decimal.thy ===== *)
theory Decimal
  imports Prelude
begin

text \<open>
  Decimal text, as the standard library and \<open>fmt\<close> read and write it: \<open>std::stoi\<close>, which \<open>main\<close> uses for
  its port, and the digits of an unsigned number, which log lines and the names of loggers contain.
\<close>

section \<open>\<open>std::stoi\<close>\<close>

definition is_space :: "char \<Rightarrow> bool" where
  "is_space c = (let n = of_char c :: nat in n = 32 \<or> 9 \<le> n \<and> n \<le> 13)"

definition is_digit :: "char \<Rightarrow> bool" where
  "is_digit c = (let n = of_char c :: nat in 48 \<le> n \<and> n \<le> 57)"

definition digit_value :: "char \<Rightarrow> int" where
  "digit_value c = int (of_char c :: nat) - 48"

definition decimal :: "string \<Rightarrow> int" where
  "decimal ds = foldl (\<lambda>v c. v * 10 + digit_value c) 0 ds"

definition sign :: "string \<Rightarrow> int \<times> string" where
  "sign s = (case s of [] \<Rightarrow> (1, s)
     | c # t \<Rightarrow> if c = CHR ''-'' then (- 1, t) else if c = CHR ''+'' then (1, t) else (1, s))"

definition stoi :: "string \<Rightarrow> int res" where
  "stoi s =
     (let (sg, t) = sign (dropWhile is_space s);
          ds = takeWhile is_digit t;
          v = sg * decimal ds
      in if ds = [] then Inl InvalidArgument
         else if v < - (2 ^ 31) \<or> 2 ^ 31 \<le> v then Inl OutOfRange
         else Inr v)"

section \<open>Digits\<close>

fun digits :: "nat \<Rightarrow> string" where
  "digits n = (if n < 10 then [char_of (48 + n)] else digits (n div 10) @ [char_of (48 + n mod 10)])"

declare digits.simps [simp del]

lemma digit_char [simp]:
  assumes "n < 10"
  shows "is_digit (char_of (48 + n))" "digit_value (char_of (48 + n)) = int n"
    "\<not> is_space (char_of (48 + n))"
  using assms by (simp_all add: is_digit_def digit_value_def is_space_def Let_def
      of_char_of take_bit_nat_eq_self)

lemma digits_are_digits: "list_all is_digit (digits n)"
proof (induction n rule: digits.induct)
  case (1 n)
  then show ?case
    by (subst digits.simps) simp
qed

lemma decimal_digits: "decimal (digits n) = int n"
proof (induction n rule: digits.induct)
  case (1 n)
  then show ?case
    by (subst digits.simps) (simp add: decimal_def zdiv_int zmod_int)
qed

lemma digits_Cons: "\<exists>c cs. digits n = c # cs"
  by (subst digits.simps) (cases "digits (n div 10)"; simp)

lemma stoi_digits: "n < 2 ^ 31 \<Longrightarrow> stoi (digits n) = Inr (int n)"
proof -
  assume n: "n < 2 ^ 31"
  obtain c cs where c: "digits n = c # cs"
    using digits_Cons by blast
  have all: "list_all is_digit (c # cs)"
    using digits_are_digits [of n] c by simp
  then have "\<not> is_space c" "c \<noteq> CHR ''-''" "c \<noteq> CHR ''+''"
    by (auto simp: is_digit_def is_space_def Let_def)
  then have "sign (dropWhile is_space (digits n)) = (1, digits n)"
    by (simp add: c sign_def)
  moreover have "takeWhile is_digit (digits n) = digits n"
    using all by (simp add: c takeWhile_eq_all_conv list_all_iff)
  moreover have "digits n \<noteq> []"
    by (simp add: c)
  ultimately show ?thesis
    using n by (simp only: stoi_def Let_def prod.case decimal_digits) simp
qed

end
