(* ===== verification/Logging.thy ===== *)
theory Logging
  imports Decimal
begin

text \<open>
  \<open>LoggerAdapter\<close>: the levels, the two global sinks, and the loggers made from them. A logger holds
  shared pointers to the sinks that were global when it was made, so sinks are objects on a heap and
  a logger a list of addresses. spdlog is not part of the sources: \<open>spdlog\<close> says what the code asks
  of it, and \<open>spdlog_ok\<close> what its documentation promises.
\<close>

section \<open>Log levels\<close>

text \<open>The values of \<open>SPDLOG_LEVEL_TRACE\<close> to \<open>SPDLOG_LEVEL_CRITICAL\<close>, and spdlog's own enum.\<close>

definition VRB :: int where "VRB = 0"
definition DBG :: int where "DBG = 1"
definition INF' :: int where "INF' = 2"  \<comment> \<open>\<open>INF\<close>, a keyword of HOL\<close>
definition WRN :: int where "WRN = 3"
definition ERR :: int where "ERR = 4"
definition CRIT :: int where "CRIT = 5"

lemmas level_numbers = VRB_def DBG_def INF'_def WRN_def ERR_def CRIT_def

datatype level_enum = trace | debug | info | warn | err | critical | off

definition fromIntToLevel :: "int \<Rightarrow> level_enum" where
  "fromIntToLevel level =
     (if level = VRB then trace else if level = DBG then debug else if level = INF' then info
      else if level = WRN then warn else if level = ERR then err
      else if level = CRIT then critical else off)"

text \<open>The order of the enum, by which a level is compared with a threshold.\<close>

fun level_rank :: "level_enum \<Rightarrow> nat" where
  "level_rank trace = 0" | "level_rank debug = 1" | "level_rank info = 2" | "level_rank warn = 3"
| "level_rank err = 4" | "level_rank critical = 5" | "level_rank off = 6"

lemma level_rank_inject [simp]: "level_rank l = level_rank l' \<longleftrightarrow> l = l'"
  by (cases l; cases l') simp_all

instantiation level_enum :: linorder
begin

definition less_eq_level_enum :: "level_enum \<Rightarrow> level_enum \<Rightarrow> bool" where
  "less_eq_level_enum l l' \<longleftrightarrow> level_rank l \<le> level_rank l'"

definition less_level_enum :: "level_enum \<Rightarrow> level_enum \<Rightarrow> bool" where
  "less_level_enum l l' \<longleftrightarrow> level_rank l < level_rank l'"

instance
  by standard (auto simp: less_eq_level_enum_def less_level_enum_def)

end

lemma trace_least [simp]: "trace \<le> l"
  by (cases l) (simp_all add: less_eq_level_enum_def)

lemma off_greatest [simp]: "l \<le> off"
  by (cases l) (simp_all add: less_eq_level_enum_def)

text \<open>The known numbers keep their order, and any other number is above them all.\<close>

lemma fromIntToLevel_rank:
  "level_rank (fromIntToLevel n) = (if 0 \<le> n \<and> n \<le> 5 then nat n else 6)"
proof -
  have "0 \<le> n \<and> n \<le> 5 \<longleftrightarrow> n \<in> {0, 1, 2, 3, 4, 5}"
    by auto
  then show ?thesis
    by (auto simp: fromIntToLevel_def level_numbers)
qed

text \<open>libevent's severities are 0 (debug) to 3 (error).\<close>

definition eventLog_level :: "int \<Rightarrow> int" where
  "eventLog_level severity =
     (if severity = 0 then DBG else if severity = 1 then INF' else if severity = 2 then WRN
      else if severity = 3 then ERR else ERR)"

text \<open>Every message of libevent has a level of its own: none is dropped by the mapping.\<close>

lemma eventLog_is_logged: "fromIntToLevel (eventLog_level severity) \<notin> {trace, critical, off}"
  by (simp add: eventLog_level_def fromIntToLevel_def level_numbers)

section \<open>Sinks and loggers\<close>

datatype sink_kind =
    FileSink string int int bool   \<comment> \<open>\<open>rotating_file_sink_mt(filename, maxSize, maxFiles, true)\<close>\<close>
  | ConsoleSink                    \<comment> \<open>\<open>stdout_color_sink_mt()\<close>\<close>

record sink =
  sk_kind :: sink_kind
  sk_level :: level_enum
  sk_pattern :: string

record logger =
  lg_name :: string
  lg_sinks :: "nat list"
  lg_level :: level_enum

text \<open>
  What the code asks of spdlog: whether the file of a sink can be opened, the copy that \<open>clone\<close>
  makes, and the sinks that get a record, by the level of the logger, its sinks with their
  levels, and the level of the record.
\<close>

record spdlog =
  sp_opens :: "string \<Rightarrow> bool"
  sp_clone :: "string \<Rightarrow> logger \<Rightarrow> logger"
  sp_receives :: "level_enum \<Rightarrow> (nat \<times> level_enum) list \<Rightarrow> level_enum \<Rightarrow> nat list"

definition spdlog_ok :: "spdlog \<Rightarrow> bool" where
  "spdlog_ok sp \<longleftrightarrow>
     (\<forall>n lg. sp_clone sp n lg = lg\<lparr>lg_name := n\<rparr>) \<and>
     (\<forall>own sinks l. sp_receives sp own sinks l =
        (if own \<le> l then map fst (filter (\<lambda>(i, m). m \<le> l) sinks) else []))"

datatype spdlog_ex = SpdlogEx

text \<open>The state: the sinks made so far, the static members, spdlog's default logger, and what was written.\<close>

record logging =
  heap :: "nat \<rightharpoonup> sink"
  next_sink :: nat
  consoleSink :: "nat option"
  fileSink :: "nat option"
  default_logger :: logger
  written :: "(nat \<times> string \<times> level_enum \<times> string) list"

definition new_sink :: "sink \<Rightarrow> logging \<Rightarrow> nat \<times> logging" where
  "new_sink k st =
     (next_sink st, st\<lparr>heap := (heap st)(next_sink st \<mapsto> k), next_sink := next_sink st + 1\<rparr>)"

definition createConsoleSink :: "logging \<Rightarrow> nat \<times> logging" where
  "createConsoleSink =
     new_sink \<lparr>sk_kind = ConsoleSink, sk_level = trace, sk_pattern = ''%T [%^%-5!l%$] [%n] %v''\<rparr>"

definition createFileSink ::
  "spdlog \<Rightarrow> string \<Rightarrow> int \<Rightarrow> int \<Rightarrow> logging \<Rightarrow> spdlog_ex + (nat \<times> logging)" where
  "createFileSink sp filename maxSize maxFiles st =
     (if \<not> sp_opens sp filename then Inl SpdlogEx
      else Inr (new_sink \<lparr>sk_kind = FileSink filename maxSize maxFiles True, sk_level = trace,
                  sk_pattern = ''%T-%d:%m:%C [%^%-5!l%$] [%n] %v''\<rparr> st))"

definition makeSinks :: "logging \<Rightarrow> nat list" where
  "makeSinks st =
     (case fileSink st of None \<Rightarrow> [] | Some i \<Rightarrow> [i]) @
     (case consoleSink st of None \<Rightarrow> [] | Some i \<Rightarrow> [i])"

definition createLogger :: "string \<Rightarrow> logging \<Rightarrow> logger" where
  "createLogger name st = \<lparr>lg_name = name, lg_sinks = makeSinks st, lg_level = trace\<rparr>"

text \<open>The constructors. The identifier becomes part of the name.\<close>

definition newLogger :: "string \<Rightarrow> logging \<Rightarrow> logger" where
  "newLogger name st = createLogger name st"

definition newLogger_num :: "string \<Rightarrow> u32 \<Rightarrow> logging \<Rightarrow> logger" where
  "newLogger_num name i st = createLogger (name @ ''] ['' @ digits (unat i)) st"

definition newLogger_id :: "string \<Rightarrow> string \<Rightarrow> logging \<Rightarrow> logger" where
  "newLogger_id name i st = createLogger (name @ ''] ['' @ i) st"

section \<open>Writing\<close>

definition sink_level :: "logging \<Rightarrow> nat \<Rightarrow> level_enum" where
  "sink_level st i = (case heap st i of None \<Rightarrow> off | Some k \<Rightarrow> sk_level k)"

definition emit_record :: "spdlog \<Rightarrow> logger \<Rightarrow> level_enum \<Rightarrow> string \<Rightarrow> logging \<Rightarrow> logging" where
  "emit_record sp lg l msg st =
     st\<lparr>written := written st @ map (\<lambda>i. (i, lg_name lg, l, msg))
          (sp_receives sp (lg_level lg) (map (\<lambda>i. (i, sink_level st i)) (lg_sinks lg)) l)\<rparr>"

text \<open>The format string and its arguments come as the text they make; an error in a format string is not modelled.\<close>

definition log_msg :: "spdlog \<Rightarrow> logger \<Rightarrow> int \<Rightarrow> string \<Rightarrow> logging \<Rightarrow> logging" where
  "log_msg sp lg level msg = emit_record sp lg (fromIntToLevel level) msg"

definition logSingle :: "spdlog \<Rightarrow> int \<Rightarrow> string \<Rightarrow> logging \<Rightarrow> logging" where
  "logSingle sp level msg st = emit_record sp (default_logger st) (fromIntToLevel level) msg st"

definition setLevel :: "int \<Rightarrow> logger \<Rightarrow> logger" where
  "setLevel level lg = lg\<lparr>lg_level := fromIntToLevel level\<rparr>"

text \<open>\<open>eventLog\<close> of \<open>main.cpp\<close>, the callback libevent logs through.\<close>

definition eventLog :: "spdlog \<Rightarrow> int \<Rightarrow> string \<Rightarrow> logging \<Rightarrow> logging" where
  "eventLog sp severity msg = logSingle sp (eventLog_level severity) (''[EvLog] '' @ msg)"

section \<open>The global sinks\<close>

text \<open>\<open>built\<close> are the texts that \<open>__DATE__\<close> and \<open>__TIME__\<close> become.\<close>

definition initDefaultLogger :: "spdlog \<Rightarrow> string \<times> string \<Rightarrow> logging \<Rightarrow> logging" where
  "initDefaultLogger sp built st =
     (let globalLogger = createLogger ''global'' st;
          st = st\<lparr>default_logger := sp_clone sp ''global'' globalLogger\<rparr>;
          st = logSingle sp INF' ''***** Start logging *****'' st
      in logSingle sp INF' (''***** BUILD DATE: '' @ fst built @ ''. BUILD TIME: '' @ snd built @ '' *****'') st)"

definition globalInit ::
  "spdlog \<Rightarrow> string \<times> string \<Rightarrow> string \<Rightarrow> int \<Rightarrow> int \<Rightarrow> bool \<Rightarrow> logging \<Rightarrow> spdlog_ex + logging" where
  "globalInit sp built name maxSize maxFiles enableCon st =
     (let filename = name @ ''.log''
      in case createFileSink sp filename maxSize maxFiles st of
           Inl ex \<Rightarrow> Inl ex
         | Inr (f, st) \<Rightarrow>
             let st = st\<lparr>fileSink := Some f\<rparr>;
                 st = (if enableCon
                       then (let (c, st) = createConsoleSink st in st\<lparr>consoleSink := Some c\<rparr>) else st)
             in Inr (initDefaultLogger sp built st))"

definition globalInitConsole :: "spdlog \<Rightarrow> string \<times> string \<Rightarrow> logging \<Rightarrow> logging" where
  "globalInitConsole sp built st =
     (let (c, st) = createConsoleSink (st\<lparr>fileSink := None\<rparr>)
      in initDefaultLogger sp built (st\<lparr>consoleSink := Some c\<rparr>))"

definition set_sink_level :: "int \<Rightarrow> nat option \<Rightarrow> logging \<Rightarrow> logging" where
  "set_sink_level level p st =
     (case p of None \<Rightarrow> st
      | Some i \<Rightarrow> st\<lparr>heap := (heap st)(i := map_option (sk_level_update (\<lambda>_. fromIntToLevel level)) (heap st i))\<rparr>)"

definition globalSetLevel :: "int \<Rightarrow> logging \<Rightarrow> logging" where
  "globalSetLevel level st =
     (let st = set_sink_level level (fileSink st) st in set_sink_level level (consoleSink st) st)"

section \<open>Any use of the loggers\<close>

text \<open>What the program does with loggers after the start; \<open>OpSet\<close> and \<open>OpLog\<close> name the logger by its number.\<close>

datatype log_op =
    OpNew string | OpSet nat int | OpGlobal int | OpLog nat int string | OpSingle int string

fun log_step :: "spdlog \<Rightarrow> log_op \<Rightarrow> logging \<times> logger list \<Rightarrow> logging \<times> logger list" where
  "log_step sp (OpNew n) (st, lgs) = (st, lgs @ [newLogger n st])"
| "log_step sp (OpSet k level) (st, lgs) =
     (st, if k < length lgs then lgs[k := setLevel level (lgs ! k)] else lgs)"
| "log_step sp (OpGlobal level) (st, lgs) = (globalSetLevel level st, lgs)"
| "log_step sp (OpLog k level msg) (st, lgs) =
     ((if k < length lgs then log_msg sp (lgs ! k) level msg st else st), lgs)"
| "log_step sp (OpSingle level msg) (st, lgs) = (logSingle sp level msg st, lgs)"

text \<open>The level set last for all sinks.\<close>

fun level_after :: "level_enum \<Rightarrow> log_op \<Rightarrow> level_enum" where
  "level_after l (OpGlobal level) = fromIntToLevel level"
| "level_after l _ = l"

definition global_level :: "log_op list \<Rightarrow> level_enum" where
  "global_level = foldl level_after trace"

definition uses_sinks :: "nat \<Rightarrow> nat \<Rightarrow> level_enum \<Rightarrow> logging \<Rightarrow> bool" where
  "uses_sinks f c l st \<longleftrightarrow> fileSink st = Some f \<and> consoleSink st = Some c \<and> f \<noteq> c \<and>
     f < next_sink st \<and> c < next_sink st \<and> heap st f \<noteq> None \<and> heap st c \<noteq> None \<and>
     sink_level st f = l \<and> sink_level st c = l \<and> lg_sinks (default_logger st) = [f, c]"

lemma emit_record_sels [simp]:
  "heap (emit_record sp lg l msg st) = heap st" "next_sink (emit_record sp lg l msg st) = next_sink st"
  "fileSink (emit_record sp lg l msg st) = fileSink st"
  "consoleSink (emit_record sp lg l msg st) = consoleSink st"
  "default_logger (emit_record sp lg l msg st) = default_logger st"
  by (simp_all add: emit_record_def)

lemma uses_sinks_emit [simp]: "uses_sinks f c m (emit_record sp lg l msg st) = uses_sinks f c m st"
  by (simp add: uses_sinks_def sink_level_def)

lemma uses_sinks_global:
  "uses_sinks f c l st \<Longrightarrow> uses_sinks f c (fromIntToLevel level) (globalSetLevel level st)"
  by (auto simp: uses_sinks_def globalSetLevel_def set_sink_level_def sink_level_def)

lemma makeSinks_both: "uses_sinks f c l st \<Longrightarrow> makeSinks st = [f, c]"
  by (simp add: uses_sinks_def makeSinks_def)

lemma globalInit_uses_sinks:
  assumes "spdlog_ok sp" "globalInit sp built name maxSize maxFiles True st = Inr st'"
  shows "\<exists>f c. uses_sinks f c trace st'"
  using assms
  by (auto simp: globalInit_def createFileSink_def createConsoleSink_def new_sink_def Let_def
      initDefaultLogger_def logSingle_def uses_sinks_def sink_level_def createLogger_def makeSinks_def
      spdlog_ok_def split: if_splits)

lemma log_step_keeps:
  assumes "uses_sinks f c l st" "\<forall>lg \<in> set lgs. lg_sinks lg = [f, c]" "log_step sp op (st, lgs) = (st', lgs')"
  shows "uses_sinks f c (level_after l op) st' \<and>
    (\<forall>lg \<in> set lgs'. lg_sinks lg = [f, c])"
  using assms makeSinks_both [OF assms(1)]
  by (cases op)
    (auto simp: uses_sinks_global newLogger_def createLogger_def setLevel_def log_msg_def logSingle_def
      dest!: subsetD [OF set_update_subset_insert] split: if_splits)

lemma log_run_keeps:
  assumes "uses_sinks f c l st" "\<forall>lg \<in> set lgs. lg_sinks lg = [f, c]"
  shows "\<forall>st' lgs'. foldl (\<lambda>s op. log_step sp op s) (st, lgs) ops = (st', lgs') \<longrightarrow>
    uses_sinks f c (foldl level_after l ops) st' \<and>
    (\<forall>lg \<in> set lgs'. lg_sinks lg = [f, c])"
  using assms
proof (induction ops arbitrary: l st lgs)
  case (Cons op ops)
  obtain st1 lgs1 where step: "log_step sp op (st, lgs) = (st1, lgs1)"
    by fastforce
  have 1: "uses_sinks f c (level_after l op) st1" and 2: "\<forall>lg \<in> set lgs1. lg_sinks lg = [f, c]"
    using log_step_keeps [OF Cons.prems step] by blast+
  show ?case
    using Cons.IH [OF 1 2] by (simp add: step)
qed simp

lemma log_msg_threshold:
  assumes "spdlog_ok sp" "lg_sinks lg = [f, c]" "sink_level st f = l" "sink_level st c = l"
  shows "written (log_msg sp lg level msg st) = written st @
    (if max (lg_level lg) l \<le> fromIntToLevel level
     then [(f, lg_name lg, fromIntToLevel level, msg), (c, lg_name lg, fromIntToLevel level, msg)] else [])"
  using assms by (auto simp: log_msg_def emit_record_def spdlog_ok_def)

text \<open>
  Initialising again makes new sinks. A logger made before keeps the old ones, and no later
  \<open>globalSetLevel\<close> reaches it.
\<close>

lemma reinit_strands_loggers:
  assumes sp: "spdlog_ok sp" and old: "uses_sinks f c l st" "lg_sinks lg = [f, c]"
    and again: "globalInit sp built name maxSize maxFiles True st = Inr st'"
  shows "written (log_msg sp lg level msg (globalSetLevel n st')) =
    written st' @ (if max (lg_level lg) l \<le> fromIntToLevel level
      then [(f, lg_name lg, fromIntToLevel level, msg), (c, lg_name lg, fromIntToLevel level, msg)] else [])"
proof -
  have "sink_level (globalSetLevel n st') f = l" "sink_level (globalSetLevel n st') c = l"
    "written (globalSetLevel n st') = written st'"
    using old again
    by (auto simp: globalInit_def createFileSink_def createConsoleSink_def new_sink_def Let_def
        initDefaultLogger_def logSingle_def globalSetLevel_def set_sink_level_def uses_sinks_def
        sink_level_def split: if_splits)
  then show ?thesis
    using log_msg_threshold [OF sp old(2), of "globalSetLevel n st'" l level msg] by simp
qed

text \<open>A file that cannot be opened leaves everything as it was: the exception comes first.\<close>

lemma globalInit_throws_iff:
  "globalInit sp built name maxSize maxFiles con st = Inl ex \<longleftrightarrow> \<not> sp_opens sp (name @ ''.log'')"
  by (cases ex) (auto simp: globalInit_def createFileSink_def Let_def split: prod.splits)

definition plain_spdlog :: spdlog where
  "plain_spdlog = \<lparr>sp_opens = (\<lambda>n. True), sp_clone = (\<lambda>n lg. lg\<lparr>lg_name := n\<rparr>),
     sp_receives = (\<lambda>own sinks l. if own \<le> l then map fst (filter (\<lambda>(i, m). m \<le> l) sinks) else [])\<rparr>"

lemma plain_spdlog_ok: "spdlog_ok plain_spdlog"
  by (simp add: spdlog_ok_def plain_spdlog_def)

definition first_logging :: logging where
  "first_logging = \<lparr>heap = Map.empty, next_sink = 0, consoleSink = None, fileSink = None,
     default_logger = \<lparr>lg_name = [], lg_sinks = [], lg_level = info\<rparr>, written = []\<rparr>"

definition demo_logging :: logging where
  "demo_logging = projr (globalInit plain_spdlog (''1'', ''2'') ''socks5'' 10485760 10 True first_logging)"

lemma demo_logging: "globalInit plain_spdlog (''1'', ''2'') ''socks5'' 10485760 10 True first_logging = Inr demo_logging"
  by (auto simp: demo_logging_def globalInit_def createFileSink_def plain_spdlog_def Let_def split: prod.splits)

text \<open>
  C39: after the start, the level set by \<open>globalSetLevel\<close> rules every logger. Whatever loggers
  have been made, by whichever constructor call and before or after the level was set, and whatever they
  have logged: a message of any of them reaches the file and the console, once each and with the name
  of its logger, exactly when its level is at least the level of the logger and the global level set
  last. A number that is no level is above all levels: a message with it is always written.
\<close>

theorem global_level_rules_every_logger:
  assumes "spdlog_ok sp" and "globalInit sp built name maxSize maxFiles True start = Inr st0"
    and "foldl (\<lambda>s op. log_step sp op s) (st0, []) ops = (st, lgs)" and "k < length lgs"
  shows "\<exists>f c. fileSink st = Some f \<and> consoleSink st = Some c \<and> f \<noteq> c \<and>
    written (log_msg sp (lgs ! k) level msg st) = written st @
      (if max (lg_level (lgs ! k)) (global_level ops) \<le> fromIntToLevel level \<or> level \<notin> {0..5}
       then [(f, lg_name (lgs ! k), fromIntToLevel level, msg), (c, lg_name (lgs ! k), fromIntToLevel level, msg)]
       else [])"
proof -
  obtain f c where st0: "uses_sinks f c trace st0"
    using globalInit_uses_sinks [OF assms(1,2)] by blast
  have *: "uses_sinks f c (global_level ops) st" "\<forall>lg \<in> set lgs. lg_sinks lg = [f, c]"
    using log_run_keeps [OF st0, of "[]" sp ops] assms(3) by (simp_all add: global_level_def)
  have "fromIntToLevel level = off" if "level \<notin> {0..5}"
    using that by (auto simp: fromIntToLevel_def level_numbers)
  with * assms(4) log_msg_threshold [OF assms(1), of "lgs ! k" f c st "global_level ops" level msg]
  show ?thesis
    by (cases "level \<in> {0..5}") (intro exI [of _ f] exI [of _ c], simp add: uses_sinks_def)+
qed

theorem global_level_rules_every_logger_witness:
  "\<exists>f c. fileSink demo_logging = Some f \<and> consoleSink demo_logging = Some c \<and> f \<noteq> c \<and>
    written (log_msg plain_spdlog (newLogger ''a'' demo_logging) INF' ''x'' demo_logging) =
      written demo_logging @ [(f, ''a'', info, ''x''), (c, ''a'', info, ''x'')]"
  using global_level_rules_every_logger [OF plain_spdlog_ok demo_logging,
      of "[OpNew ''a'']" demo_logging "[newLogger ''a'' demo_logging]" 0 INF' "''x''"]
  by (simp add: global_level_def newLogger_def createLogger_def fromIntToLevel_def level_numbers)

end
