(* ===== verification/Startup.thy ===== *)
theory Startup
  imports EventLoop InetUtils Decimal Logging
begin

text \<open>
  How the process starts: \<open>main.cpp\<close> with its arguments, the log levels of
  \<open>LoggerAdapter\<close>, the registration of signals in
  \<open>src/Event/EventSignalListener.cpp\<close>, and \<open>run\<close> of \<open>SessionMng\<close> and \<open>EventTcpServer\<close>.
\<close>

section \<open>\<open>main\<close>\<close>

text \<open>
  \<open>main\<close> either returns at once or builds a \<open>SessionMng\<close> for an address, given as the two fields
  of the \<open>sockaddr_in\<close>. \<open>init_ok\<close> is the result of \<open>initLogging\<close> and \<open>inet_addr\<close> the function of
  the C library. \<open>argv[1]\<close> is read only when there is one.
\<close>

datatype main_result = MainReturn int | MainServe u32 u16

definition main_args :: "byte_order \<Rightarrow> (string \<Rightarrow> u32) \<Rightarrow> bool \<Rightarrow> string list \<Rightarrow> main_result res"
  where
  "main_args bo inet_addr init_ok argv =
     (if \<not> init_ok then Inr (MainReturn 1)
      else if length argv < 2 \<or> argv ! 1 = ''--help'' then Inr (MainReturn 0)
      else let hostIP = (if 2 \<le> length argv then inet_addr (argv ! 1) else 0)
           in if 3 \<le> length argv
              then andThen (stoi (argv ! 2)) (\<lambda>n.
                   Inr (MainServe hostIP (htons bo (word_of_int n))))
              else Inr (MainServe hostIP (htons bo 35555)))"

text \<open>
  \<open>EventTcpServer::run\<close> and \<open>SessionMng::run\<close>: \<open>listener\<close> says whether the constructor got one,
  \<open>dispatch\<close> is what \<open>event_base_dispatch\<close> returns.
\<close>

definition srv_run :: "bool \<Rightarrow> int \<Rightarrow> int" where
  "srv_run listener dispatch = (if \<not> listener then 1 else dispatch)"

section \<open>Signals\<close>

datatype sig_call = SNew nat int | SAdd nat | SDel nat | SFree nat

record listener =
  l_events :: "int \<rightharpoonup> nat"
  l_next :: nat
  l_calls :: "sig_call list"

definition freeEvent :: "nat \<Rightarrow> listener \<Rightarrow> listener" where
  "freeEvent ev l = l\<lparr>l_calls := l_calls l @ [SDel ev, SFree ev]\<rparr>"

definition lst_new :: listener where
  "lst_new = \<lparr>l_events = Map.empty, l_next = 0, l_calls = []\<rparr>"

definition lst_del :: "int \<Rightarrow> listener \<Rightarrow> listener" where
  "lst_del signum l =
     (case l_events l signum of
        None \<Rightarrow> l
      | Some ev \<Rightarrow> freeEvent ev (l\<lparr>l_events := (l_events l)(signum := None)\<rparr>))"

text \<open>\<open>made\<close>: \<open>evsignal_new\<close> does not return null.\<close>

definition lst_add :: "bool \<Rightarrow> int \<Rightarrow> listener \<Rightarrow> listener" where
  "lst_add made signum l =
     (let l = lst_del signum l
      in if \<not> made then l
         else let ev = l_next l
              in l\<lparr>l_next := ev + 1, l_calls := l_calls l @ [SNew ev signum, SAdd ev],
                   l_events := (l_events l)(signum \<mapsto> ev)\<rparr>)"

definition onSignalStatic :: "int \<Rightarrow> world cmd" where
  "onSignalStatic fd = mng_onSignalOccured fd"

definition mng_run :: "bool \<Rightarrow> bool \<Rightarrow> int \<Rightarrow> listener \<Rightarrow> int \<times> listener" where
  "mng_run made listener dispatch l = (srv_run listener dispatch, lst_add made SIGINT l)"

section \<open>What is registered is what is alive\<close>

definition lst_inv :: "listener \<Rightarrow> bool" where
  "lst_inv l \<longleftrightarrow> inj_on (l_events l) (dom (l_events l)) \<and>
     (\<forall>ev. ev \<in> ran (l_events l) \<longleftrightarrow>
        (\<exists>n. SNew ev n \<in> set (l_calls l)) \<and> SFree ev \<notin> set (l_calls l)) \<and>
     (\<forall>ev. SFree ev \<in> set (l_calls l) \<or> (\<exists>n. SNew ev n \<in> set (l_calls l)) \<longrightarrow> ev < l_next l)"

lemma lst_inv_new: "lst_inv lst_new"
  by (simp add: lst_inv_def lst_new_def)

lemma ran_remove:
  "inj_on m (dom m) \<Longrightarrow> m k = Some v \<Longrightarrow> ran (m(k := None)) = ran m - {v}"
  by (auto simp: ran_def inj_on_def dom_def) (metis option.inject)

lemma lst_inv_del: "lst_inv l \<Longrightarrow> lst_inv (lst_del n l)"
proof (cases "l_events l n")
  case (Some ev)
  assume l: "lst_inv l"
  then have inj: "inj_on (l_events l) (dom (l_events l))"
    by (simp add: lst_inv_def)
  have "ev \<in> ran (l_events l)"
    using Some by (auto simp: ran_def)
  then show ?thesis
    using l ran_remove [OF inj Some] inj Some
    by (auto simp: lst_inv_def lst_del_def freeEvent_def inj_on_def)
qed (simp add: lst_del_def)

lemma lst_del_free: "l_events (lst_del n l) n = None"
  by (simp add: lst_del_def freeEvent_def split: option.splits)

text \<open>Every signal has at most one event, replaced events are freed, and no event is freed twice.\<close>

lemma lst_inv_add:
  assumes "lst_inv l"
  shows "lst_inv (lst_add made n l)"
proof -
  have d: "lst_inv (lst_del n l)" "l_events (lst_del n l) n = None"
    using assms by (simp_all add: lst_inv_del lst_del_free)
  then have "l_next (lst_del n l) \<notin> ran (l_events (lst_del n l))"
    by (auto simp: lst_inv_def)
  then have "inj_on ((l_events (lst_del n l))(n \<mapsto> l_next (lst_del n l)))
      (dom ((l_events (lst_del n l))(n \<mapsto> l_next (lst_del n l))))"
    using d by (auto simp: lst_inv_def inj_on_def ran_def)
  then show ?thesis
    using d by (auto simp: lst_add_def Let_def lst_inv_def ran_map_upd less_Suc_eq)
qed

section \<open>The port\<close>

lemma main_args_port:
  assumes "host \<noteq> ''--help''" "n < 2 ^ 31"
  shows "main_args bo inet True [prog, host, digits n]
    = Inr (MainServe (inet host) (htons bo (of_nat (n mod 65536))))"
proof -
  have "(word_of_int (int n) :: u16) = of_nat (n mod 65536)"
    by (rule unsigned_word_eqI [where 'a = nat]) (simp add: unat_of_nat)
  then show ?thesis
    using assms stoi_digits [OF assms(2)] by (simp add: main_args_def)
qed

section \<open>Property\<close>

text \<open>
  The server listens where its arguments say, up to the width of a port. Given a host and a
  decimal number below \<open>2^31\<close>, \<open>main\<close> serves on that host, and the port that goes into the
  \<open>sockaddr_in\<close> is, in network order, the number modulo 65536: a number above 65535 is not
  refused. Without a second argument the port is 35555, and a third argument that does not
  begin with a number ends the program with an exception.
\<close>

theorem listens_on_requested_port:
  assumes "host \<noteq> ''--help''" "n < 2 ^ 31"
  shows "(\<exists>p. main_args bo inet True [prog, host, digits n] = Inr (MainServe (inet host) p) \<and>
      store16 bo p = store16 BigEndian (of_nat (n mod 65536))) \<and>
    (\<exists>p. main_args bo inet True [prog, host] = Inr (MainServe (inet host) p) \<and>
      store16 bo p = store16 BigEndian 35555) \<and>
    (c \<notin> {CHR ''-'', CHR ''+''} \<longrightarrow> \<not> is_space c \<longrightarrow> \<not> is_digit c \<longrightarrow>
      main_args bo inet True [prog, host, c # cs] = Inl InvalidArgument)"
proof -
  note main_args_port [OF assms, of bo inet prog]
  moreover have "main_args bo inet True [prog, host] = Inr (MainServe (inet host) (htons bo 35555))"
    using assms by (simp add: main_args_def)
  moreover have "c \<notin> {CHR ''-'', CHR ''+''} \<Longrightarrow> \<not> is_space c \<Longrightarrow> \<not> is_digit c \<Longrightarrow>
      main_args bo inet True [prog, host, c # cs] = Inl InvalidArgument"
    using assms by (simp add: main_args_def stoi_def sign_def)
  ultimately show ?thesis
    by (simp add: htons_layout)
qed

lemma listens_on_requested_port_witness:
  "\<exists>p. main_args LittleEndian (\<lambda>_. 0) True [''socks5'', ''0.0.0.0'', digits 1080]
         = Inr (MainServe 0 p) \<and> store16 LittleEndian p = [4, 56]"
  using listens_on_requested_port [of "''0.0.0.0''" 1080 LittleEndian "\<lambda>_. 0" "''socks5''"]
  by (simp add: store16_def hi16_def lo16_def)

end
