(* ===== verification/LogText.thy ===== *)
theory LogText
  imports World InetUtils Decimal
begin

text \<open>
  The texts of log lines that the sources compose themselves: the hex dump of a byte vector
  (\<open>LoggerAdapterTypes.h\<close>), the text of an address (\<open>InetUtils.cpp\<close>, \<open>EventSocketCommon.cpp\<close>) and the
  identifier of a proxy connection (\<open>DirectedProxyConnection.cpp\<close>). The first two write into an output stream of the standard
  library, so the stream is modelled with the part of its state that they read and change.
\<close>

section \<open>Output streams\<close>

datatype base_field = Dec | Hex | Oct
datatype adjust_field = AdjustLeft | AdjustRight | AdjustInternal

record fmt_flags =
  ff_base :: base_field
  ff_adjust :: adjust_field
  ff_showbase :: bool
  ff_uppercase :: bool

record ostream =
  os_flags :: fmt_flags
  os_width :: nat
  os_fill :: char
  os_text :: string

definition digit_of :: "bool \<Rightarrow> nat \<Rightarrow> char" where
  "digit_of up d = char_of (if d < 10 then 48 + d else (if up then 55 else 87) + d)"

text \<open>The digits of a number in base \<open>Suc (Suc b)\<close>.\<close>

fun digits_in :: "nat \<Rightarrow> bool \<Rightarrow> nat \<Rightarrow> string" where
  "digits_in b up n =
     (if n < Suc (Suc b) then [digit_of up n]
      else digits_in b up (n div Suc (Suc b)) @ [digit_of up (n mod Suc (Suc b))])"

declare digits_in.simps [simp del]

lemma digits_in_ten: "digits_in 8 up n = digits n"
proof (induction n rule: digits.induct)
  case (1 n)
  then show ?case
    by (subst digits_in.simps, subst digits.simps) (simp add: digit_of_def)
qed

text \<open>
  A formatted insertion pads to the width, after the prefix of the base when the padding is
  internal, and resets the width.
\<close>

definition pad :: "ostream \<Rightarrow> string \<Rightarrow> string \<Rightarrow> string" where
  "pad os prefix body =
     (let gap = replicate (os_width os - length prefix - length body) (os_fill os)
      in case ff_adjust (os_flags os) of
           AdjustLeft \<Rightarrow> prefix @ body @ gap
         | AdjustRight \<Rightarrow> gap @ prefix @ body
         | AdjustInternal \<Rightarrow> prefix @ gap @ body)"

definition put_padded :: "string \<Rightarrow> string \<Rightarrow> ostream \<Rightarrow> ostream" where
  "put_padded prefix body os = os\<lparr>os_text := os_text os @ pad os prefix body, os_width := 0\<rparr>"

definition put_str :: "string \<Rightarrow> ostream \<Rightarrow> ostream" where
  "put_str s os = put_padded [] s os"

text \<open>An unsigned number, or a signed one that is not negative, without \<open>showpos\<close>.\<close>

definition put_num :: "nat \<Rightarrow> ostream \<Rightarrow> ostream" where
  "put_num n os =
     (let up = ff_uppercase (os_flags os)
      in case ff_base (os_flags os) of
           Dec \<Rightarrow> put_padded [] (digits_in 8 up n) os
         | Hex \<Rightarrow> put_padded (if ff_showbase (os_flags os) \<and> n \<noteq> 0 then (if up then ''0X'' else ''0x'') else [])
                   (digits_in 14 up n) os
         | Oct \<Rightarrow> put_padded [] ((if ff_showbase (os_flags os) \<and> n \<noteq> 0 then ''0'' else []) @ digits_in 6 up n) os)"

section \<open>The hex dump\<close>

definition print_byte :: "ostream \<Rightarrow> byte \<Rightarrow> ostream" where
  "print_byte strm b = put_str '' '' (put_num (unat b) (strm\<lparr>os_width := 2, os_fill := CHR ''0''\<rparr>))"

definition print_bytes :: "bytes \<Rightarrow> ostream \<Rightarrow> ostream" where
  "print_bytes buf strm =
     (let flags = os_flags strm;
          strm = put_str '', data: '' (put_num (length buf) (put_str ''Size: '' strm));
          strm = strm\<lparr>os_flags := (os_flags strm)\<lparr>ff_base := Hex\<rparr>\<rparr>;
          strm = foldl print_byte strm buf;
          strm = strm\<lparr>os_fill := CHR '' ''\<rparr>
      in strm\<lparr>os_flags := flags\<rparr>)"

section \<open>Addresses and identifiers\<close>

text \<open>\<open>inet_ntoa\<close> and \<open>evutil_inet_ntop\<close> are functions of the C library and of libevent.\<close>

definition print_address :: "byte_order \<Rightarrow> (u32 \<Rightarrow> string) \<Rightarrow> IpAddressAndPort \<Rightarrow> ostream \<Rightarrow> ostream" where
  "print_address bo inet_ntoa addr strm =
     put_num (unat (htons bo (ia_port addr))) (put_str '', port: ''
       (put_str (inet_ntoa (ia_ip addr)) (put_str ''IP: '' strm)))"

text \<open>
  The text of the peer in a log line: \<open>ntop\<close> gets the family and the bytes in memory, and a null
  pointer as its result would be read. Whatever lies in an address of another family is not known.
\<close>

definition AF_INET :: nat where "AF_INET = 2"
definition AF_INET6 :: nat where "AF_INET6 = 10"

definition getAddrStr :: "byte_order \<Rightarrow> (nat \<Rightarrow> bytes \<Rightarrow> string option) \<Rightarrow> sockaddr \<Rightarrow> string res option" where
  "getAddrStr bo ntop sa =
     (let view = (\<lambda>p. case p of None \<Rightarrow> Inl NullDeref | Some s \<Rightarrow> Inr s)
      in case sa of
           SockAddrIn6 sin6_port s6_addr \<Rightarrow> Some (view (ntop AF_INET6 s6_addr))
         | SockAddrIn sin_port s_addr \<Rightarrow> Some (view (ntop AF_INET (store32 bo s_addr)))
         | SockAddrOther \<Rightarrow> None)"

definition formatLoggerId :: "u32 \<Rightarrow> ProxyDirection \<Rightarrow> string" where
  "formatLoggerId i dir =
     (case dir of
        Main \<Rightarrow> digits (unat i) @ ''/main''
      | In \<Rightarrow> digits (unat i) @ ''/in''
      | Out \<Rightarrow> digits (unat i) @ ''/out'')"

section \<open>Reading a dump back\<close>

text \<open>A reference reader: the number of bytes, and that many groups of two digits and a space.\<close>

definition hex_value :: "char \<Rightarrow> nat option" where
  "hex_value c = (let n = of_char c :: nat in
     if 48 \<le> n \<and> n \<le> 57 then Some (n - 48) else if 97 \<le> n \<and> n \<le> 102 then Some (n - 87) else None)"

fun read_bytes :: "string \<Rightarrow> bytes option" where
  "read_bytes [] = Some []"
| "read_bytes (c # d # s # cs) =
     (case (hex_value c, hex_value d, read_bytes cs) of
        (Some h, Some l, Some bs) \<Rightarrow> if s = CHR '' '' then Some (of_nat (16 * h + l) # bs) else None
      | _ \<Rightarrow> None)"
| "read_bytes _ = None"

definition read_dump :: "string \<Rightarrow> bytes option" where
  "read_dump s =
     (let t = drop 6 s; n = takeWhile is_digit t; u = dropWhile is_digit t
      in if take 6 s = ''Size: '' \<and> take 8 u = '', data: ''
         then (case read_bytes (drop 8 u) of
                 None \<Rightarrow> None
               | Some bs \<Rightarrow> if decimal n = int (length bs) then Some bs else None)
         else None)"

definition plain_flags :: fmt_flags where
  "plain_flags = \<lparr>ff_base = Dec, ff_adjust = AdjustRight, ff_showbase = False, ff_uppercase = False\<rparr>"

definition hex2 :: "byte \<Rightarrow> string" where
  "hex2 b = [digit_of False (unat b div 16), digit_of False (unat b mod 16)]"

lemma digit_of_hex [simp]: "d < 16 \<Longrightarrow> hex_value (digit_of False d) = Some d"
proof -
  assume "d < 16"
  then have "d \<in> {0..<16}" by simp
  then show ?thesis
    by (auto simp: atLeastLessThan_nat_numeral digit_of_def hex_value_def Let_def of_char_of take_bit_nat_eq_self)
qed


lemma byte_digits: "unat (b :: byte) div 16 < 16" "unat (b :: byte) mod 16 < 16"
  using unsigned_less [of b, where 'a = nat] by (simp_all add: div_less_iff_less_mult)

lemma read_bytes_hex2: "read_bytes (concat (map (\<lambda>b. hex2 b @ '' '') buf)) = Some buf"
proof (induction buf)
  case (Cons b buf)
  have "(of_nat (16 * (unat b div 16) + unat b mod 16) :: byte) = b"
    by (simp only: mult_div_mod_eq of_nat_unat ucast_id)
  then show ?case
    using Cons byte_digits [of b] by (simp add: hex2_def)
qed simp

lemma digits_in_byte:
  "n < 256 \<Longrightarrow> digits_in 14 False n = (if n < 16 then [] else [digit_of False (n div 16)]) @ [digit_of False (n mod 16)]"
  by (subst digits_in.simps, subst digits_in.simps) (simp add: div_less_iff_less_mult)

lemma put_byte:
  assumes "os_flags strm = plain_flags\<lparr>ff_base := Hex\<rparr>" "os_width strm = 0"
  shows "print_byte strm b = strm\<lparr>os_text := os_text strm @ hex2 b @ '' '', os_fill := CHR ''0''\<rparr>"
proof -
  have "unat b < 256"
    using unsigned_less [of b, where 'a = nat] by simp
  moreover have "digit_of False 0 = CHR ''0''"
    by code_simp
  ultimately show ?thesis
    using assms
    by (cases strm) (simp add: print_byte_def put_num_def put_str_def put_padded_def pad_def digits_in_byte
        plain_flags_def hex2_def Let_def)
qed

lemma put_bytes:
  assumes "os_flags strm = plain_flags\<lparr>ff_base := Hex\<rparr>" "os_width strm = 0"
  shows "foldl print_byte strm buf = strm\<lparr>os_text := os_text strm @ concat (map (\<lambda>b. hex2 b @ '' '') buf),
    os_fill := (if buf = [] then os_fill strm else CHR ''0'')\<rparr>"
  using assms
proof (induction buf arbitrary: strm)
  case (Cons b buf)
  then show ?case by (simp add: put_byte)
qed simp

lemma print_bytes_text:
  assumes "os_flags strm = plain_flags" "os_width strm = 0"
  shows "print_bytes buf strm = strm\<lparr>os_text := os_text strm @ ''Size: '' @ digits (length buf) @ '', data: '' @
      concat (map (\<lambda>b. hex2 b @ '' '') buf), os_fill := CHR '' ''\<rparr>"
  using assms
  by (simp add: print_bytes_def put_bytes put_num_def put_str_def put_padded_def pad_def digits_in_ten
      plain_flags_def Let_def)

lemma takeWhile_digits:
  "\<not> is_digit c \<Longrightarrow> takeWhile is_digit (digits n @ c # cs) = digits n"
  "\<not> is_digit c \<Longrightarrow> dropWhile is_digit (digits n @ c # cs) = c # cs"
  using digits_are_digits [of n] by (simp_all add: takeWhile_append2 dropWhile_append2 list_all_iff)

text \<open>Whatever the stream is like, the dump only adds text, restores the flags and clears width and fill.\<close>

lemma put_adds:
  "\<exists>t. os_text (put_str s strm) = os_text strm @ t" "os_width (put_str s strm) = 0"
  "os_flags (put_str s strm) = os_flags strm"
  "\<exists>t. os_text (put_num n strm) = os_text strm @ t" "os_flags (put_num n strm) = os_flags strm"
  by (simp_all add: put_str_def put_num_def put_padded_def Let_def split: base_field.splits)

lemma print_byte_adds:
  "\<exists>t. os_text (print_byte strm b) = os_text strm @ t" "os_width (print_byte strm b) = 0"
  "os_flags (print_byte strm b) = os_flags strm"
  using put_adds(4) [of "unat b" "strm\<lparr>os_width := 2, os_fill := CHR ''0''\<rparr>"]
    put_adds(1) [of "'' ''" "put_num (unat b) (strm\<lparr>os_width := 2, os_fill := CHR ''0''\<rparr>)"]
  by (auto simp: print_byte_def put_adds(2,3,5))

lemma dump_adds:
  "(\<exists>t. os_text (foldl print_byte strm buf) = os_text strm @ t) \<and>
   (os_width strm = 0 \<longrightarrow> os_width (foldl print_byte strm buf) = 0)"
proof (induction buf arbitrary: strm)
  case (Cons b buf)
  then show ?case
    using print_byte_adds [of strm b] by (metis append.assoc foldl_Cons)
qed simp

lemma print_bytes_adds:
  "(\<exists>t. os_text (print_bytes buf strm) = os_text strm @ t) \<and> os_flags (print_bytes buf strm) = os_flags strm \<and>
   os_width (print_bytes buf strm) = 0 \<and> os_fill (print_bytes buf strm) = CHR '' ''"
proof -
  let ?a = "put_str ''Size: '' strm"
  let ?b = "put_num (length buf) ?a"
  let ?c = "put_str '', data: '' ?b"
  let ?d = "?c\<lparr>os_flags := (os_flags ?c)\<lparr>ff_base := Hex\<rparr>\<rparr>"
  have "\<exists>t. os_text ?a = os_text strm @ t" "\<exists>t. os_text ?b = os_text ?a @ t"
    "\<exists>t. os_text ?c = os_text ?b @ t" "\<exists>t. os_text (foldl print_byte ?d buf) = os_text ?d @ t"
    "os_width (foldl print_byte ?d buf) = 0"
    using put_adds dump_adds [of ?d buf] by simp_all
  then show ?thesis
    by (auto simp: print_bytes_def Let_def)
qed

text \<open>
  C40: the hex dump of a byte vector can be read back. In a stream with default flags and no width
  set, whatever stood in it, the text added names the number of bytes and every byte in
  two digits, so two vectors never have the same dump. And in every stream, with any flags
  and width, the dump only adds text, leaves the flags as they were, no width, and the space as
  fill character whatever it was.
\<close>

theorem dump_reads_back:
  "(os_flags strm = plain_flags \<and> os_width strm = 0 \<longrightarrow>
      (\<exists>t. os_text (print_bytes buf strm) = os_text strm @ t \<and> read_dump t = Some buf \<and>
         length t = 14 + length (digits (length buf)) + 3 * length buf)) \<and>
   (\<exists>t. os_text (print_bytes buf strm) = os_text strm @ t) \<and>
   os_flags (print_bytes buf strm) = os_flags strm \<and> os_width (print_bytes buf strm) = 0 \<and>
   os_fill (print_bytes buf strm) = CHR '' ''"
proof -
  let ?hex = "concat (map (\<lambda>b. hex2 b @ '' '') buf)"
  let ?t = "''Size: '' @ digits (length buf) @ '', data: '' @ ?hex"
  have "read_dump ?t = Some buf"
    by (simp add: read_dump_def takeWhile_digits is_digit_def read_bytes_hex2 decimal_digits Let_def)
  moreover have "length ?hex = 3 * length buf"
    by (induction buf) (simp_all add: hex2_def)
  ultimately have "os_flags strm = plain_flags \<and> os_width strm = 0 \<longrightarrow>
      (\<exists>t. os_text (print_bytes buf strm) = os_text strm @ t \<and> read_dump t = Some buf \<and>
         length t = 14 + length (digits (length buf)) + 3 * length buf)"
    by (intro impI exI [of _ ?t]) (simp add: print_bytes_text)
  then show ?thesis
    using print_bytes_adds by blast
qed

theorem dump_reads_back_witness:
  "\<exists>t. os_text (print_bytes [5, 255] \<lparr>os_flags = plain_flags, os_width = 0, os_fill = CHR ''x'', os_text = ''> ''\<rparr>)
      = ''> '' @ t \<and> read_dump t = Some [5, 255]"
  using dump_reads_back [of "\<lparr>os_flags = plain_flags, os_width = 0, os_fill = CHR ''x'', os_text = ''> ''\<rparr>" "[5, 255]"]
  by auto

text \<open>An example, and a stream that comes with a width and a fill character of its own.\<close>

lemma dump_example:
  "os_text (print_bytes [5, 255] \<lparr>os_flags = plain_flags, os_width = 0, os_fill = CHR '' '', os_text = []\<rparr>)
    = ''Size: 2, data: 05 ff ''"
  by code_simp

lemma dump_loses_fill:
  "os_flags strm = plain_flags \<Longrightarrow> os_width strm = 0 \<Longrightarrow> os_fill strm \<noteq> CHR '' '' \<Longrightarrow>
     os_fill (print_bytes buf strm) \<noteq> os_fill strm"
  by (simp add: print_bytes_text)

section \<open>Identifiers of proxy connections\<close>

text \<open>Two proxy connections have the same identifier only if session and direction are the same.\<close>

lemma digits_inject: "digits m = digits n \<longleftrightarrow> m = n"
  by (metis decimal_digits of_nat_eq_iff)

lemma digits_slash_inject:
  assumes "digits m @ CHR ''/'' # s = digits n @ CHR ''/'' # t"
  shows "m = n \<and> s = t"
proof -
  have "\<not> is_digit (CHR ''/'')"
    by (simp add: is_digit_def)
  then have "digits m = digits n"
    using assms takeWhile_digits(1) by metis
  then show ?thesis
    using assms by (simp add: digits_inject)
qed

lemma logger_ids_distinct: "formatLoggerId i d = formatLoggerId j e \<longleftrightarrow> i = j \<and> d = e"
proof
  assume "formatLoggerId i d = formatLoggerId j e"
  then show "i = j \<and> d = e"
    by (cases d; cases e) (auto simp: formatLoggerId_def digits_inject word_unat_eq_iff dest!: digits_slash_inject)
qed simp

end
