(* ===== verification/Teardown.thy ===== *)
theory Teardown
  imports Safety
begin

text \<open>
  The end of \<open>SessionMng\<close>, when \<open>main\<close> leaves its scope: the members are destroyed in reverse order of
  declaration, the table of sessions first and the table of outgoing connections of the server after it. From every
  reachable world that frees every connection exactly once.
\<close>

section \<open>Destroying the tables\<close>

text \<open>One entry of \<open>_sessions\<close>, and one of the server's \<open>_connections\<close>.\<close>

definition delete_session_entry :: "u32 \<Rightarrow> world cmd" where
  "delete_session_entry i w =
     (case mng_sessions w i of
        None \<Rightarrow> Inr w
      | Some a \<Rightarrow> session_delete a (w\<lparr>mng_sessions := (mng_sessions w)(i := None)\<rparr>))"

definition delete_connection_entry :: "nat \<Rightarrow> world cmd" where
  "delete_connection_entry a w =
     (let v = w\<lparr>srv_connections := (srv_connections w)(a := None)\<rparr>
      in case srv_connections w a of
           Some (Some c) \<Rightarrow> ptr_drop c v
         | _ \<Rightarrow> Inr v)"

text \<open>The order in which a hash map destroys its entries is not specified: it is an argument.\<close>

definition sessions_delete :: "u32 list \<Rightarrow> world cmd" where
  "sessions_delete ids = seqs (map delete_session_entry ids)"

definition connections_delete :: "nat list \<Rightarrow> world cmd" where
  "connections_delete keys = seqs (map delete_connection_entry keys)"

definition mng_delete :: "u32 list \<Rightarrow> nat list \<Rightarrow> world cmd" where
  "mng_delete ids keys = seqs [sessions_delete ids, connections_delete keys]"

section \<open>The table of connections\<close>

text \<open>An entry of the server's table that is not null is that of a live session.\<close>

definition entries_live :: "world \<Rightarrow> bool" where
  "entries_live w \<longleftrightarrow> (\<forall>a c. srv_connections w a = Some (Some c) \<longrightarrow> sessions w a \<noteq> None)"

lemma move_entries: "world_ok w \<Longrightarrow> move e ev a w w' \<Longrightarrow> entries_live w \<Longrightarrow> entries_live w'"
  by (erule moveE)
    (auto simp: entries_live_def connecting_def proxied_def disconnected_def kill_def Let_def
      dest: world_okD(1) [THEN mem_okD(5)] simp: out_ok_def split: option.splits if_splits)

lemma moves_entries: "(move e ev a)\<^sup>*\<^sup>* w w' \<Longrightarrow> world_ok w \<Longrightarrow> entries_live w \<Longrightarrow> entries_live w'"
proof (induction rule: rtranclp_induct)
  case (step y z)
  moreover have "world_ok y"
    using moves_ok [OF step.hyps(1)] step.prems by simp
  ultimately show ?case
    using move_entries by blast
qed

lemma reachable_entries: "reachable m h w \<Longrightarrow> accepts h \<le> 2 ^ 32 \<Longrightarrow> entries_live w"
proof (induction rule: reachable.induct)
  case reach_init
  then show ?case by (simp add: entries_live_def)
next
  case (reach_step h w ev e w')
  then have less: "accepts h \<le> 2 ^ 32"
    by (simp add: accepts_append split: if_splits)
  with reach_step.hyps have inv: "world_ok w" "ids_ok (accepts h) w"
    using reachable_invariant by blast+
  have free: "mng_sessions w (mng_currentId w) = None" if "ev = Accepted"
    using that ids_free [OF inv(2)] reach_step.prems by (simp add: accepts_append)
  have live: "entries_live w"
    using reach_step.IH less by blast
  show ?case
  proof (rule handle_cases [OF inv(1) reach_step.hyps(2-4) free])
    fix a s assume "(move e ev a)\<^sup>*\<^sup>* w w'"
    then show ?thesis using moves_entries inv(1) live by blast
  qed (use live in \<open>auto simp: entries_live_def\<close>)
qed


section \<open>Every connection once\<close>

text \<open>
  \<open>frees w w'\<close>: between the two worlds exactly the connections that are gone have been
  freed, each once, and none has been made.
\<close>

definition alive :: "world \<Rightarrow> nat \<Rightarrow> nat" where
  "alive w c = (if socks w c = None then 0 else 1)"

definition frees :: "world \<Rightarrow> world \<Rightarrow> bool" where
  "frees w w' \<longleftrightarrow> (\<exists>cs. calls w' = calls w @ cs \<and>
     (\<forall>c. count_list cs (XFreeBev c) + alive w' c = alive w c))"

lemma frees_refl: "frees w w"
  by (simp add: frees_def)

lemma frees_trans: "frees w w1 \<Longrightarrow> frees w1 w2 \<Longrightarrow> frees w w2"
proof -
  assume "frees w w1" "frees w1 w2"
  then obtain cs ds where "calls w1 = calls w @ cs" "\<And>c. count_list cs (XFreeBev c) + alive w1 c = alive w c"
    "calls w2 = calls w1 @ ds" "\<And>c. count_list ds (XFreeBev c) + alive w2 c = alive w1 c"
    by (auto simp: frees_def)
  then show "frees w w2"
    unfolding frees_def by (intro exI [of _ "cs @ ds"]) (simp add: add.assoc)
qed

text \<open>
  While the tables are being destroyed: the remaining sessions are whole, and an outgoing
  connection whose session is gone has one pointer left, that of the server's table.
\<close>

definition ending :: "world \<Rightarrow> bool" where
  "ending w \<longleftrightarrow>
     (\<forall>a s. sessions w a = Some s \<longrightarrow> mem_ok w a s) \<and>
     (\<forall>i a. mng_sessions w i = Some a \<longrightarrow> (\<exists>s. sessions w a = Some s \<and> s_id s = i)) \<and>
     (\<forall>c. socks w c \<noteq> None \<longrightarrow> (\<exists>a s. sessions w a = Some s \<and> owns s c) \<or>
        (\<exists>a. srv_connections w a = Some (Some c))) \<and>
     (\<forall>a c. srv_connections w a = Some (Some c) \<longrightarrow> sessions w a = None \<longrightarrow>
        (\<exists>k. socks w c = Some k \<and> es_refs k = 1) \<and> (\<forall>b s. sessions w b = Some s \<longrightarrow> \<not> owns s c)) \<and>
     (\<forall>a b c. srv_connections w a = Some (Some c) \<longrightarrow> srv_connections w b = Some (Some c) \<longrightarrow> a = b)"

lemma reachable_ending:
  assumes "reachable m h w" "accepts h \<le> 2 ^ 32"
  shows "ending w"
proof -
  have ok: "world_ok w" and live: "entries_live w"
    using reachable_invariant [OF assms] reachable_entries [OF assms] by blast+
  have own: "\<exists>s. sessions w a = Some s \<and> owns s c" if "srv_connections w a = Some (Some c)" for a c
  proof -
    have "sessions w a \<noteq> None"
      using that live unfolding entries_live_def by blast
    then obtain s where s: "sessions w a = Some s"
      by blast
    then have "s_outConn s = Some c"
      using mem_okD(5) [OF world_okD(1) [OF ok s]] that by (auto simp: out_ok_def split: option.splits)
    with s show ?thesis by (auto simp: owns_def)
  qed
  have inj: "a = b" if "srv_connections w a = Some (Some c)" "srv_connections w b = Some (Some c)" for a b c
    using own [OF that(1)] own [OF that(2)] owner_unique world_okD(1) [OF ok] by meson
  show ?thesis
    unfolding ending_def
  proof (intro conjI allI impI)
    fix a c
    assume "srv_connections w a = Some (Some c)" "sessions w a = None"
    then show "\<exists>k. socks w c = Some k \<and> es_refs k = 1" "\<And>b s. sessions w b = Some s \<Longrightarrow> \<not> owns s c"
      using own [of a c] by simp_all
  qed (use world_okD(1,3,4) [OF ok] inj in blast)+
qed

text \<open>What the end of one session does.\<close>

lemma session_delete_result:
  assumes ok: "mem_ok (w\<lparr>mng_sessions := t\<rparr>) a s"
  shows "\<exists>k w'. session_delete a w = Inr w' \<and> sessions w' = (sessions w)(a := None) \<and>
    mng_sessions w' = mng_sessions w \<and> srv_connections w' = srv_connections w \<and> es_refs k = 1 \<and>
    socks w' = (case s_outConn s of None \<Rightarrow> socks w | Some c \<Rightarrow> (socks w)(c \<mapsto> k))(s_inConn s := None) \<and>
    frees w w'"
proof (cases "s_outConn s")
  case None
  obtain k where "socks w (s_inConn s) = Some k" "es_refs k = 2" "s_proxy s = None"
    using mem_okD(4,5) [OF ok] None by (auto simp: in_sock_ok_def proxy_refs_def out_ok_def)
  then show ?thesis
    using mem_okD(1,3) [OF ok] None
    by (simp add: session_delete_def frees_def alive_def) (meson sock.select_convs(5))
next
  case (Some c)
  note out = Some
  show ?thesis
  proof (cases "s_proxy s")
    case None
    obtain k where "socks w (s_inConn s) = Some k" "es_refs k = 2"
      using mem_okD(4) [OF ok] None by (auto simp: in_sock_ok_def proxy_refs_def)
    moreover obtain m where "socks w c = Some m" "es_refs m = 2" "c \<noteq> s_inConn s"
      using mem_okD(5) [OF ok] out None by (auto simp: out_ok_def out_sock_ok_def proxy_refs_def)
    ultimately show ?thesis
      using mem_okD(1-3) [OF ok] out None
      by (intro exI [of _ "m\<lparr>es_refs := 1\<rparr>"]) (simp add: session_delete_def frees_def alive_def)
  next
    case (Some q)
    obtain k where k: "socks w (s_inConn s) = Some k" "es_refs k = 3" "\<not> es_connected k"
      using mem_okD(4) [OF ok] Some by (auto simp: in_sock_ok_def proxy_refs_def)
    obtain m where m: "socks w c = Some m" "es_refs m = 3" "c \<noteq> s_inConn s"
        and p: "s_proxy s = Some \<lparr>p_main = s_inConn s, p_out = c\<rparr>"
      using mem_okD(5) [OF ok] out Some by (auto simp: out_ok_def out_sock_ok_def proxy_refs_def)
    let ?n = "(if es_connected m then m\<lparr>es_connected := False\<rparr> else m)\<lparr>es_user := None, es_refs := 1\<rparr>"
    have r: "\<exists>w'. session_delete a w = Inr w' \<and> sessions w' = (sessions w)(a := None) \<and>
        mng_sessions w' = mng_sessions w \<and> srv_connections w' = srv_connections w \<and>
        socks w' = ((socks w)(c \<mapsto> ?n))(s_inConn s := None) \<and> frees w w'"
      using mem_okD(1-3) [OF ok] k m p out
      by (cases "es_connected m")
        (simp_all add: session_delete_def proxy_delete_def directed_delete_def frees_def alive_def)
    show ?thesis
      using r out
      by (intro exI [of _ ?n]) simp
  qed
qed


lemma endingD:
  assumes "ending w"
  shows "sessions w a = Some s \<Longrightarrow> mem_ok w a s"
    "mng_sessions w i = Some a \<Longrightarrow> \<exists>s. sessions w a = Some s \<and> s_id s = i"
    "socks w c = Some k \<Longrightarrow> (\<exists>a s. sessions w a = Some s \<and> owns s c) \<or> (\<exists>a. srv_connections w a = Some (Some c))"
    "srv_connections w a = Some (Some c) \<Longrightarrow> sessions w a = None \<Longrightarrow> \<exists>k. socks w c = Some k \<and> es_refs k = 1"
    "srv_connections w a = Some (Some c) \<Longrightarrow> sessions w a = None \<Longrightarrow> sessions w b = Some s \<Longrightarrow> \<not> owns s c"
    "srv_connections w a = Some (Some c) \<Longrightarrow> srv_connections w b = Some (Some c) \<Longrightarrow> a = b"
  using assms unfolding ending_def by blast+

text \<open>The world \<open>w'\<close> is \<open>w\<close> without the session \<open>s\<close> at \<open>a\<close>.\<close>

definition session_gone :: "nat \<Rightarrow> session \<Rightarrow> world \<Rightarrow> world \<Rightarrow> bool" where
  "session_gone a s w w' \<longleftrightarrow> mem_ok w a s \<and> sessions w' = (sessions w)(a := None) \<and>
     mng_sessions w' = (mng_sessions w)(s_id s := None) \<and> srv_connections w' = srv_connections w \<and>
     (\<exists>k. es_refs k = 1 \<and> socks w' =
       (case s_outConn s of None \<Rightarrow> socks w | Some c \<Rightarrow> (socks w)(c \<mapsto> k))(s_inConn s := None))"

lemma session_goneD:
  assumes "session_gone a s w w'"
  shows "mem_ok w a s" "sessions w a = Some s" "sessions w' = (sessions w)(a := None)"
    "mng_sessions w' = (mng_sessions w)(s_id s := None)" "srv_connections w' = srv_connections w"
    "\<not> owns s c \<Longrightarrow> socks w' c = socks w c"
    "owns s c \<Longrightarrow> socks w' c \<noteq> None \<Longrightarrow> s_outConn s = Some c"
    "s_outConn s = Some c \<Longrightarrow> \<exists>k. socks w' c = Some k \<and> es_refs k = 1"
    "s_outConn s = Some c \<longleftrightarrow> srv_connections w a = Some (Some c)"
  using assms by (auto simp: session_gone_def mem_ok_def out_ok_def owns_def split: option.splits)

lemma session_gone_other:
  assumes "ending w" "session_gone a s w w'" "sessions w b = Some t" "b \<noteq> a" "owns t c"
  shows "\<not> owns s c"
  using owner_unique [OF session_goneD(1) [OF assms(2)] _ endingD(1) [OF assms(1,3)] assms(5)] assms(4)
  by blast

lemma session_gone_kept:
  assumes ok: "ending w" and gone: "session_gone a s w w'"
  shows "others_kept a w w'"
  unfolding others_kept_def
proof (intro conjI allI impI; (elim conjE)?)
  fix b t
  assume b: "b \<noteq> a" "sessions w b = Some t"
  have "s_id t \<noteq> s_id s"
    using mem_okD(2) [OF endingD(1) [OF ok b(2)]] mem_okD(2) [OF session_goneD(1) [OF gone]] b(1) by auto
  then show "mng_sessions w' (s_id t) = mng_sessions w (s_id t)"
    by (simp add: session_goneD(4) [OF gone])
  show "socks w' c = socks w c" if "owns t c" for c
    using session_goneD(6) [OF gone] session_gone_other [OF ok gone b(2,1) that] by blast
qed (simp_all add: session_goneD(3,5) [OF gone])

lemma session_gone_live:
  assumes ok: "ending w" and gone: "session_gone a s w w'" and live: "socks w' c \<noteq> None"
  shows "(\<exists>b t. sessions w' b = Some t \<and> owns t c) \<or> (\<exists>b. srv_connections w' b = Some (Some c))"
proof (cases "owns s c")
  case True
  then show ?thesis
    using session_goneD(7) [OF gone True live] session_goneD(9) [OF gone] session_goneD(5) [OF gone] by metis
next
  case False
  then obtain k where "socks w c = Some k"
    using live session_goneD(6) [OF gone] by fastforce
  from endingD(3) [OF ok this] show ?thesis
    using False session_goneD(2,3,5) [OF gone] by (metis fun_upd_other option.inject)
qed

lemma session_gone_entry:
  assumes ok: "ending w" and gone: "session_gone a s w w'"
    and b: "srv_connections w' b = Some (Some c)" "sessions w' b = None"
  shows "\<exists>k. socks w' c = Some k \<and> es_refs k = 1" "sessions w' d = Some t \<Longrightarrow> \<not> owns t c"
proof -
  note g = session_goneD [OF gone]
  have "(\<exists>k. socks w' c = Some k \<and> es_refs k = 1) \<and> (sessions w' d = Some t \<longrightarrow> \<not> owns t c)"
  proof (cases "b = a")
    case True
    then have out: "s_outConn s = Some c"
      using b(1) g(5) g(9) [of c] by simp
    then have "owns s c"
      by (simp add: owns_def)
    then show ?thesis
      using g(8) [OF out] g(3) session_gone_other [OF ok gone, of d t c] by (auto split: if_splits)
  next
    case False
    then have old: "srv_connections w b = Some (Some c)" "sessions w b = None"
      using b g(3,5) by simp_all
    then have "\<not> owns s c"
      using endingD(5) [OF ok old g(2)] by blast
    then show ?thesis
      using endingD(4,5) [OF ok old] g(3) g(6) [of c] by (auto split: if_splits)
  qed
  then show "\<exists>k. socks w' c = Some k \<and> es_refs k = 1" "sessions w' d = Some t \<Longrightarrow> \<not> owns t c"
    by blast+
qed

lemma session_gone_ending:
  assumes ok: "ending w" and gone: "session_gone a s w w'"
  shows "ending w'"
  unfolding ending_def
proof (intro conjI allI impI)
  note g = session_goneD [OF gone]
  show "mem_ok w' b t" if "sessions w' b = Some t" for b t
    using that g(3) others_mem_ok [OF session_gone_kept [OF ok gone] _ _ endingD(1) [OF ok]]
    by (auto split: if_splits)
  show "\<exists>t. sessions w' b = Some t \<and> s_id t = j" if "mng_sessions w' j = Some b" for j b
    using that g(2-4) endingD(2) [OF ok, of j b] by (auto split: if_splits)
  fix b d c
  assume "srv_connections w' b = Some (Some c)" "srv_connections w' d = Some (Some c)"
  then show "b = d"
    using g(5) endingD(6) [OF ok] by simp
qed (use session_gone_live [OF ok gone] session_gone_entry [OF ok gone] in blast)+

lemma delete_session_entry_step:
  assumes ok: "ending w"
  shows "\<exists>w'. delete_session_entry i w = Inr w' \<and> ending w' \<and> frees w w' \<and>
    mng_sessions w' = (mng_sessions w)(i := None) \<and> srv_connections w' = srv_connections w"
proof (cases "mng_sessions w i")
  case None
  then show ?thesis
    using ok frees_refl by (auto simp: delete_session_entry_def fun_upd_idem)
next
  case (Some a)
  let ?v = "w\<lparr>mng_sessions := (mng_sessions w)(i := None)\<rparr>"
  obtain s where s: "s_id s = i" "mem_ok w a s"
    using endingD(1,2) [OF ok] Some by blast
  then have "mem_ok (?v\<lparr>mng_sessions := mng_sessions w\<rparr>) a s"
    by simp
  from session_delete_result [OF this] obtain k w' where r: "session_delete a ?v = Inr w'"
    and v: "sessions w' = (sessions ?v)(a := None)" "mng_sessions w' = mng_sessions ?v"
      "srv_connections w' = srv_connections ?v" "frees ?v w'" "es_refs k = 1"
      "socks w' = (case s_outConn s of None \<Rightarrow> socks ?v | Some c \<Rightarrow> (socks ?v)(c \<mapsto> k))(s_inConn s := None)"
    by blast
  have "frees w w'"
    using v(4) by (simp add: frees_def alive_def)
  moreover have "session_gone a s w w'"
    using s v by (auto simp: session_gone_def cong: option.case_cong)
  ultimately show ?thesis
    using r s(1) Some session_gone_ending [OF ok] session_goneD(4,5) by (auto simp: delete_session_entry_def)
qed

lemma sessions_delete_result:
  "ending w \<Longrightarrow> \<exists>w'. sessions_delete ids w = Inr w' \<and> ending w' \<and> frees w w' \<and>
     mng_sessions w' = (mng_sessions w) |` (- set ids) \<and> srv_connections w' = srv_connections w"
proof (induction ids arbitrary: w)
  case Nil
  then show ?case
    using frees_refl by (auto simp: sessions_delete_def restrict_map_def)
next
  case (Cons i ids)
  obtain v where v: "delete_session_entry i w = Inr v" "ending v" "frees w v"
    "mng_sessions v = (mng_sessions w)(i := None)" "srv_connections v = srv_connections w"
    using delete_session_entry_step [OF Cons.prems] by blast
  obtain w' where "sessions_delete ids v = Inr w'" "ending w'" "frees v w'"
    "mng_sessions w' = (mng_sessions v) |` (- set ids)" "srv_connections w' = srv_connections v"
    using Cons.IH [OF v(2)] by blast
  then show ?case
    using v frees_trans [OF v(3)]
    by (intro exI [of _ w']) (auto simp: sessions_delete_def restrict_map_def fun_eq_iff)
qed

text \<open>The second table, when no session is left.\<close>

lemma ending_no_sessions:
  "sessions w = Map.empty \<Longrightarrow> ending w \<longleftrightarrow> mng_sessions w = Map.empty \<and>
     (\<forall>c. socks w c \<noteq> None \<longrightarrow> (\<exists>a. srv_connections w a = Some (Some c))) \<and>
     (\<forall>a c. srv_connections w a = Some (Some c) \<longrightarrow> (\<exists>k. socks w c = Some k \<and> es_refs k = 1)) \<and>
     (\<forall>a b c. srv_connections w a = Some (Some c) \<longrightarrow> srv_connections w b = Some (Some c) \<longrightarrow> a = b)"
  by (auto simp: ending_def)

lemma delete_connection_entry_step:
  assumes ok: "ending w" and none: "sessions w = Map.empty"
  shows "\<exists>w'. delete_connection_entry a w = Inr w' \<and> ending w' \<and> frees w w' \<and>
    sessions w' = Map.empty \<and> srv_connections w' = (srv_connections w)(a := None)"
proof (cases "\<exists>c. srv_connections w a = Some (Some c)")
  case True
  then obtain c k where c: "srv_connections w a = Some (Some c)" "socks w c = Some k" "es_refs k = 1"
    using endingD(4) [OF ok] none by fastforce
  let ?w = "w\<lparr>srv_connections := (srv_connections w)(a := None), socks := (socks w)(c := None),
    calls := calls w @ [XFreeBev c]\<rparr>"
  have "delete_connection_entry a w = Inr ?w"
    using c by (simp add: delete_connection_entry_def)
  moreover have "ending ?w"
    unfolding ending_def
  proof (intro conjI allI impI)
    fix b d
    assume b: "srv_connections ?w b = Some (Some d)"
    then have "d \<noteq> c" "srv_connections w b = Some (Some d)"
      using endingD(6) [OF ok c(1), of b] by (auto split: if_splits)
    then show "\<exists>k. socks ?w d = Some k \<and> es_refs k = 1"
      using endingD(4) [OF ok, of b d] none by simp
  next
    fix d assume d: "socks ?w d \<noteq> None"
    then obtain k' where "socks w d = Some k'" "d \<noteq> c"
      by (auto split: if_splits)
    then obtain b where "srv_connections w b = Some (Some d)"
      using endingD(3) [OF ok] none by auto
    then have "srv_connections ?w b = Some (Some d)"
      using c(1) \<open>d \<noteq> c\<close> by auto
    then show "(\<exists>a s. sessions ?w a = Some s \<and> owns s d) \<or> (\<exists>b. srv_connections ?w b = Some (Some d))"
      by blast
  next
    fix b b' d
    assume "srv_connections ?w b = Some (Some d)" "srv_connections ?w b' = Some (Some d)"
    then show "b = b'"
      using endingD(6) [OF ok, of b d b'] by (simp split: if_splits)
  qed (use endingD(2) [OF ok] none in \<open>fastforce+\<close>)
  moreover have "frees w ?w"
    using c by (simp add: frees_def alive_def)
  ultimately show ?thesis
    using none by auto
next
  case False
  then have "delete_connection_entry a w = Inr (w\<lparr>srv_connections := (srv_connections w)(a := None)\<rparr>)"
    by (auto simp: delete_connection_entry_def Let_def split: option.splits)
  moreover have "ending (w\<lparr>srv_connections := (srv_connections w)(a := None)\<rparr>)"
    using ok none False by (simp add: ending_no_sessions) metis
  ultimately show ?thesis
    using none by (auto simp: frees_def alive_def)
qed


lemma connections_delete_result:
  "ending w \<Longrightarrow> sessions w = Map.empty \<Longrightarrow>
     \<exists>w'. connections_delete keys w = Inr w' \<and> ending w' \<and> frees w w' \<and>
       sessions w' = Map.empty \<and> srv_connections w' = (srv_connections w) |` (- set keys)"
proof (induction keys arbitrary: w)
  case Nil
  then show ?case
    using frees_refl by (auto simp: connections_delete_def restrict_map_def)
next
  case (Cons a keys)
  obtain v where v: "delete_connection_entry a w = Inr v" "ending v" "frees w v"
    "sessions v = Map.empty" "srv_connections v = (srv_connections w)(a := None)"
    using delete_connection_entry_step [OF Cons.prems] by blast
  obtain w' where "connections_delete keys v = Inr w'" "ending w'" "frees v w'"
    "sessions w' = Map.empty" "srv_connections w' = (srv_connections v) |` (- set keys)"
    using Cons.IH [OF v(2,4)] by blast
  then show ?case
    using v frees_trans [OF v(3)]
    by (intro exI [of _ w']) (auto simp: connections_delete_def restrict_map_def fun_eq_iff)
qed

lemma tables_delete_result:
  assumes ok: "ending w" and ids: "dom (mng_sessions w) \<subseteq> set ids" and keys: "dom (srv_connections w) \<subseteq> set keys"
  shows "\<exists>v w'. sessions_delete ids w = Inr v \<and> frees w v \<and> connections_delete keys v = Inr w' \<and>
    frees v w' \<and> socks w' = Map.empty \<and> sessions w' = Map.empty"
proof -
  obtain v where v: "sessions_delete ids w = Inr v" "ending v" "frees w v"
    "mng_sessions v = (mng_sessions w) |` (- set ids)" "srv_connections v = srv_connections w"
    using sessions_delete_result [OF ok] by blast
  have "mng_sessions v = Map.empty"
    using v(4) ids by (auto simp: restrict_map_def fun_eq_iff dom_def)
  then have none: "sessions v = Map.empty"
    using endingD(1) [OF v(2)] mem_okD(2) by (metis not_None_eq)
  obtain w' where w': "connections_delete keys v = Inr w'" "ending w'" "frees v w'"
    "sessions w' = Map.empty" "srv_connections w' = (srv_connections v) |` (- set keys)"
    using connections_delete_result [OF v(2) none] by blast
  have "srv_connections w' = Map.empty"
    using w'(5) v(5) keys by (auto simp: restrict_map_def fun_eq_iff dom_def)
  then have "socks w' = Map.empty"
    using w'(2,4) by (auto simp: ending_no_sessions fun_eq_iff)
  then show ?thesis
    using v(1,3) w'(1,3,4) by blast
qed

lemma mng_delete_result:
  assumes "ending w" "dom (mng_sessions w) \<subseteq> set ids" "dom (srv_connections w) \<subseteq> set keys"
  shows "\<exists>w'. mng_delete ids keys w = Inr w' \<and> frees w w' \<and> socks w' = Map.empty \<and> sessions w' = Map.empty"
  using tables_delete_result [OF assms] frees_trans by (fastforce simp: mng_delete_def)

text \<open>
  C21: the end of the session manager frees everything, whenever it comes. From every world reachable
  with at most \<open>2 ^ 32\<close> accepted connections, and in whatever order the hash maps destroy their
  entries, destroying the two tables never follows a pointer to a destroyed object, leaves no session
  and no connection, and has freed every connection that was still there exactly once and
  no other.
\<close>

theorem exit_frees_everything:
  assumes "reachable m h w" and "accepts h \<le> 2 ^ 32"
    and "dom (mng_sessions w) \<subseteq> set ids" and "dom (srv_connections w) \<subseteq> set keys"
  shows "\<exists>w' cs. mng_delete ids keys w = Inr w' \<and> socks w' = Map.empty \<and> sessions w' = Map.empty \<and>
    calls w' = calls w @ cs \<and> (\<forall>c. count_list cs (XFreeBev c) = (if socks w c = None then 0 else 1))"
  using mng_delete_result [OF reachable_ending [OF assms(1,2)] assms(3,4)]
  by (auto simp: frees_def alive_def)

theorem exit_frees_everything_witness:
  "\<exists>w' cs. mng_delete [0] [] (accepted_world (newServer Map.empty)) = Inr w' \<and> socks w' = Map.empty \<and> sessions w' = Map.empty \<and>
    calls w' = calls (accepted_world (newServer Map.empty)) @ cs \<and>
    (\<forall>c. count_list cs (XFreeBev c) = (if socks (accepted_world (newServer Map.empty)) c = None then 0 else 1))"
  by (rule exit_frees_everything [OF reachable_accepted]) (simp_all add: accepts_def)

end
