(* ===== verification/Handles.thy ===== *)
theory Handles
  imports Prelude
begin

text \<open>
  The owners of libevent's objects: the pointer types and the \<open>make\<close> functions of
  \<open>src/Event/EventSocketCommon.h\<close> and \<open>.cpp\<close>, \<open>EventBaseObject\<close>, and what the constructors and
  destructors of \<open>SessionMng\<close> and its members do with them.
\<close>

section \<open>\<open>std::unique_ptr\<close> with a function as its deleter\<close>

text \<open>
  The pointer that libevent returned, and whether the deleter is a function or a null pointer. The
  destructor calls the deleter for a pointer that is not null only.
\<close>

record unique_handle =
  uh_ptr :: "nat option"
  uh_deleter :: bool

definition unique_of :: "nat option \<Rightarrow> unique_handle" where
  "unique_of made =
     (case made of
        None \<Rightarrow> \<lparr>uh_ptr = None, uh_deleter = False\<rparr>
      | Some p \<Rightarrow> \<lparr>uh_ptr = Some p, uh_deleter = True\<rparr>)"

definition handle_delete :: "(nat \<Rightarrow> 'c list) \<Rightarrow> unique_handle \<Rightarrow> 'c list res" where
  "handle_delete del h =
     (case uh_ptr h of
        None \<Rightarrow> Inr []
      | Some p \<Rightarrow> if uh_deleter h then Inr (del p) else Inl NullDeref)"

text \<open>\<open>made\<close> is the result of \<open>bufferevent_socket_new\<close> and of \<open>evconnlistener_new_bind\<close>.\<close>

definition makeBufferEvent :: "nat option \<Rightarrow> unique_handle" where
  "makeBufferEvent made = unique_of made"

definition makeListener :: "nat option \<Rightarrow> unique_handle" where
  "makeListener made = unique_of made"

lemma unique_of_delete: "handle_delete del (unique_of made) = Inr (case made of None \<Rightarrow> [] | Some p \<Rightarrow> del p)"
  by (simp add: handle_delete_def unique_of_def split: option.splits)

lemma makeBufferEvent_delete:
  "handle_delete del (makeBufferEvent made) = Inr (case made of None \<Rightarrow> [] | Some p \<Rightarrow> del p)"
  by (simp add: makeBufferEvent_def unique_of_delete)

lemma makeListener_delete [simp]:
  "handle_delete del (makeListener made) = Inr (case made of None \<Rightarrow> [] | Some p \<Rightarrow> del p)"
  "uh_ptr (makeListener made) = made"
  by (simp_all add: makeListener_def unique_of_delete) (simp add: unique_of_def split: option.splits)

section \<open>\<open>std::shared_ptr\<close> of the event base\<close>

text \<open>
  The control block: the pointer and the number of its owners. The last owner calls the deleter, also
  for a null pointer, which \<open>event_base_new\<close> may have returned.
\<close>

record shared_base =
  sb_ptr :: "nat option"
  sb_uses :: nat

definition eventBase_new :: "nat option \<Rightarrow> shared_base" where
  "eventBase_new made = \<lparr>sb_ptr = made, sb_uses = 1\<rparr>"

text \<open>\<open>get\<close> returns a copy, which the caller keeps as a member.\<close>

definition eventBase_get :: "shared_base \<Rightarrow> shared_base" where
  "eventBase_get b = b\<lparr>sb_uses := sb_uses b + 1\<rparr>"

definition base_drop :: "'c \<Rightarrow> shared_base \<Rightarrow> shared_base \<times> 'c list" where
  "base_drop free b = (b\<lparr>sb_uses := sb_uses b - 1\<rparr>, if sb_uses b = 1 then [free] else [])"

section \<open>\<open>SessionMng\<close>\<close>

text \<open>
  \<open>EventTcpServer\<close> copies the base and passes another copy to \<open>makeListener\<close>, which gives it up when it
  returns; \<open>EventSignalListener\<close> copies the base.
\<close>

record manager_handles =
  mh_base :: shared_base
  mh_listener :: unique_handle

definition server_new :: "nat option \<Rightarrow> shared_base \<Rightarrow> manager_handles" where
  "server_new made b =
     (let b = eventBase_get b;
          argument = eventBase_get b;
          listener = makeListener made;
          (b, _) = base_drop () argument
      in \<lparr>mh_base = b, mh_listener = listener\<rparr>)"

definition signals_new :: "manager_handles \<Rightarrow> manager_handles" where
  "signals_new hs = hs\<lparr>mh_base := eventBase_get (mh_base hs)\<rparr>"

definition manager_new :: "nat option \<Rightarrow> nat option \<Rightarrow> manager_handles" where
  "manager_new base listener = signals_new (server_new listener (eventBase_new base))"

lemma manager_new_owners:
  "manager_new base listener = \<lparr>mh_base = \<lparr>sb_ptr = base, sb_uses = 3\<rparr>, mh_listener = makeListener listener\<rparr>"
  by (simp add: manager_new_def signals_new_def server_new_def eventBase_get_def eventBase_new_def
      base_drop_def Let_def)

text \<open>
  The members in reverse order of their declaration: the signal listener, then the server with its
  listener, then the \<open>EventBaseObject\<close>. \<open>between\<close> are the calls the other members make meanwhile.
\<close>

definition manager_delete ::
    "(nat \<Rightarrow> 'c list) \<Rightarrow> 'c \<Rightarrow> 'c list \<Rightarrow> 'c list \<Rightarrow> manager_handles \<Rightarrow> 'c list res" where
  "manager_delete free_listener free_base signals connections hs =
     (let (b, c1) = base_drop free_base (mh_base hs)
      in andThen (handle_delete free_listener (mh_listener hs)) (\<lambda>lst.
         let (b, c2) = base_drop free_base b;
             (b, c3) = base_drop free_base b
         in Inr (signals @ c1 @ connections @ lst @ c2 @ c3)))"

text \<open>The base outlives everything that uses it, and every object is freed once, if it was made.\<close>

lemma manager_life:
  "manager_delete fl fb signals connections (manager_new base listener) =
     Inr (signals @ connections @ (case listener of None \<Rightarrow> [] | Some p \<Rightarrow> fl p) @ [fb])"
  by (simp add: manager_delete_def manager_new_owners base_drop_def Let_def)

end
