(* ===== verification/Process.thy ===== *)
theory Process
  imports Startup LogText Teardown Handles Steps
begin

text \<open>
  The whole process: \<open>main\<close> of \<open>main.cpp\<close> from its arguments to its exit code, with everything
  in between: logging, the address, the session manager and the callbacks libevent makes while the
  loop runs, and the destruction of the session manager.
\<close>

section \<open>The host\<close>

text \<open>
  What is outside the program: the byte order and \<open>inet_addr\<close>, spdlog and the text of its
  exception, the date of the build, the methods libevent supports, the content of the file of logins,
  whether a listener can be made for an address and an event for the signal, the callbacks of
  the loop and its result, and the orders in which the hash maps destroy their entries.
\<close>

record host =
  h_order :: byte_order
  h_inet_addr :: "string \<Rightarrow> u32"
  h_spdlog :: spdlog
  h_what :: string
  h_built :: "string \<times> string"
  h_methods :: "string list"
  h_logins :: "bytes option"
  h_listens :: "u32 \<Rightarrow> u16 \<Rightarrow> bool"
  h_sig_made :: bool
  h_events :: "(env \<times> event) list"
  h_dispatch :: int
  h_ids :: "u32 list"
  h_keys :: "nat list"

section \<open>\<open>main\<close>\<close>

definition initLogging :: "host \<Rightarrow> logging \<Rightarrow> bool \<times> logging" where
  "initLogging h st =
     (case globalInit (h_spdlog h) (h_built h) ''socks5'' (1024 * 1024 * 10) 10 True st of
        Inl ex \<Rightarrow> (False, emit_record (h_spdlog h) (default_logger st) err
                    (''Exception while initiating logger: '' @ h_what h) st)
      | Inr st \<Rightarrow> (True, st))"

text \<open>
  The calls to libevent made after the loop. \<open>libevent_global_shutdown\<close> is a statement of
  \<open>main\<close>; the session manager is destroyed after it, when \<open>main\<close> returns.
\<close>

datatype exit_call =
    GlobalShutdown          \<comment> \<open>\<open>libevent_global_shutdown\<close>\<close>
  | ConnCall ext_call       \<comment> \<open>a call for a connection\<close>
  | SignalCall sig_call     \<comment> \<open>a call for the event of a signal\<close>
  | ListenerFree            \<comment> \<open>\<open>evconnlistener_free\<close>\<close>
  | BaseFree                \<comment> \<open>\<open>event_base_free\<close>\<close>

text \<open>
  \<open>~SessionMng\<close>: \<open>_sessions\<close>, \<open>_sigListener\<close> with its one event, \<open>_server\<close> with its table and its
  listener, and \<open>_base\<close>. The handles are those of theory \<open>Handles\<close>.
\<close>

definition process_exit ::
    "u32 list \<Rightarrow> nat list \<Rightarrow> manager_handles \<Rightarrow> listener \<Rightarrow> world \<Rightarrow> exit_call list res" where
  "process_exit ids keys hs l w =
     andThen (sessions_delete ids w) (\<lambda>w1.
     andThen (connections_delete keys w1) (\<lambda>w2.
     andThen (manager_delete (\<lambda>p. [ListenerFree]) BaseFree
       (map SignalCall (drop (length (l_calls l)) (l_calls (lst_del SIGINT l))))
       (map ConnCall (new_calls w1 w2)) hs) (\<lambda>cs.
     Inr (map ConnCall (new_calls w w1) @ cs))))"

record outcome =
  exit_code :: int
  exit_calls :: "exit_call list"
  last_world :: "world option"
  log_state :: logging

definition main_handles :: "bool \<Rightarrow> manager_handles" where
  "main_handles listens = manager_new (Some 0) (if listens then Some 0 else None)"

text \<open>
  \<open>None\<close>: the constructor of the authorizer does not return. An exception that leaves \<open>main\<close>
  ends the process, and is the result here. The log lines are those \<open>main\<close> writes itself. The event
  base is assumed to be made.
\<close>

definition process_main :: "host \<Rightarrow> string list \<Rightarrow> logging \<Rightarrow> outcome res option" where
  "process_main h argv st =
     (let sp = h_spdlog h; (ok, st) = initLogging h st
      in case main_args (h_order h) (h_inet_addr h) ok argv of
           Inl f \<Rightarrow> Some (Inl f)
         | Inr (MainReturn r) \<Rightarrow>
             if ok \<and> argv = [] then Some (Inl NullDeref)
             else Some (Inr \<lparr>exit_code = r, exit_calls = [], last_world = None,
                    log_state = (if ok then logSingle sp INF' (''Usage: '' @ argv ! 0 @ '' [host] [port]'') st
                                 else st)\<rparr>)
         | Inr (MainServe hostIP hostPort) \<Rightarrow>
             let st = logSingle sp DBG ''[EvLoop] Available methods are:'' st;
                 st = fold (\<lambda>m. logSingle sp DBG (''[EvLoop] Method: '' @ m)) (h_methods h) st;
                 st = globalSetLevel DBG st
             in case newAuthorizer (h_logins h) of
                  None \<Rightarrow> None
                | Some (Inl f) \<Rightarrow> Some (Inl f)
                | Some (Inr m) \<Rightarrow>
                    let hs = main_handles (h_listens h hostIP hostPort);
                        listens = uh_ptr (mh_listener hs) \<noteq> None;
                        (ret, l) = mng_run (h_sig_made h) listens (h_dispatch h) lst_new
                    in Some (
                       andThen (if listens then run (h_events h) (newServer m) else Inr (newServer m)) (\<lambda>w.
                       andThen (process_exit (h_ids h) (h_keys h) hs l w) (\<lambda>cs.
                       Inr \<lparr>exit_code = ret, exit_calls = GlobalShutdown # cs, last_world = Some w, log_state = st\<rparr>))))"

section \<open>The calls at the exit\<close>

lemma main_handles_listener [simp]: "uh_ptr (mh_listener (main_handles listens)) = (if listens then Some 0 else None)"
  by (simp add: main_handles_def manager_new_owners)

lemma count_calls [simp]:
  "count_list (map ConnCall xs) (ConnCall x) = count_list xs x"
  "count_list (map SignalCall ys) (ConnCall x) = 0"
  by (induction xs, simp_all, induction ys, simp_all)

lemma process_exit_result:
  assumes ok: "reachable m h w" "accepts h \<le> 2 ^ 32"
    and cover: "dom (mng_sessions w) \<subseteq> set ids" "dom (srv_connections w) \<subseteq> set keys"
  shows "\<exists>cs. process_exit ids keys (main_handles listens) l w = Inr (cs @ [BaseFree]) \<and>
    (\<forall>c. count_list cs (ConnCall (XFreeBev c)) = (if socks w c = None then 0 else 1))"
proof -
  obtain w1 w2 where r: "sessions_delete ids w = Inr w1" "frees w w1" "connections_delete keys w1 = Inr w2"
    "frees w1 w2" "socks w2 = Map.empty"
    using tables_delete_result [OF reachable_ending [OF ok] cover] by blast
  obtain cs1 where c1: "calls w1 = calls w @ cs1" "\<And>c. count_list cs1 (XFreeBev c) + alive w1 c = alive w c"
    using r(2) by (auto simp: frees_def)
  obtain cs2 where c2: "calls w2 = calls w1 @ cs2" "\<And>c. count_list cs2 (XFreeBev c) + alive w2 c = alive w1 c"
    using r(4) by (auto simp: frees_def)
  have count: "count_list cs1 (XFreeBev c) + count_list cs2 (XFreeBev c) = (if socks w c = None then 0 else 1)" for c
    using c1(2) [of c] c2(2) [of c] r(5) by (simp add: alive_def split: if_splits)
  show ?thesis
    using r(1,3) count
    by (simp add: process_exit_def main_handles_def manager_life new_calls_append [OF c1(1)] new_calls_append [OF c2(1)])
qed

section \<open>Properties\<close>

lemma initLogging_result:
  "sp_opens (h_spdlog h) ''socks5.log'' \<Longrightarrow> \<exists>st'. initLogging h st = (True, st')"
  "\<not> sp_opens (h_spdlog h) ''socks5.log'' \<Longrightarrow> \<exists>st'. initLogging h st = (False, st')"
  using globalInit_throws_iff [of "h_spdlog h" "h_built h" "''socks5''" "1024 * 1024 * 10" 10 True st SpdlogEx]
  by (auto simp: initLogging_def split: sum.splits) (metis (full_types) spdlog_ex.exhaust)

text \<open>The part of \<open>main\<close> behind the arguments, with a readable file of logins.\<close>

lemma main_serving:
  assumes "initLogging h st = (True, st1)"
    and "main_args (h_order h) (h_inet_addr h) True argv = Inr (MainServe ip p)"
    and "newAuthorizer (h_logins h) = Some (Inr m)"
  shows "\<exists>st'. process_main h argv st = Some (
    andThen (if h_listens h ip p then run (h_events h) (newServer m) else Inr (newServer m)) (\<lambda>w.
    andThen (process_exit (h_ids h) (h_keys h) (main_handles (h_listens h ip p)) (lst_add (h_sig_made h) SIGINT lst_new) w) (\<lambda>cs.
    Inr \<lparr>exit_code = if h_listens h ip p then h_dispatch h else 1, exit_calls = GlobalShutdown # cs,
      last_world = Some w, log_state = st'\<rparr>)))"
  using assms
  by (cases "h_listens h ip p") (auto simp: process_main_def Let_def mng_run_def srv_run_def)

lemma exit_of_fresh:
  "\<exists>cs. process_exit ids keys (main_handles listens) l (newServer m) = Inr (cs @ [BaseFree]) \<and>
     (\<forall>c. count_list cs (ConnCall (XFreeBev c)) = 0)"
  using process_exit_result [OF reach_init [of m], of ids keys listens l] by (auto simp: accepts_def)

text \<open>
  C3: the process, from its arguments to its exit. With a log file that can be opened, a host and a
  decimal port and a readable file of logins, \<open>main\<close> listens on that host, on the port modulo 65536 in network
  order. When the listener is made, the loop serves from a world with the logins of the file, every
  world it passes is one of the reachable worlds all other properties speak of, and the exit code
  is the result of the loop; when it is not made, the exit code is 1 and nothing was served. In both
  cases the last thing freed is the event base, after every remaining connection, each exactly once; and all
  of that happens after \<open>libevent_global_shutdown\<close>.
\<close>

theorem process_result:
  assumes "sp_opens (h_spdlog h) ''socks5.log''" and "host \<noteq> ''--help''" and "n < 2 ^ 31"
    and "newAuthorizer (h_logins h) = Some (Inr m)"
    and "feasible (h_events h) (newServer m)" and "accepts (h_events h) \<le> 2 ^ 32"
    and "run (h_events h) (newServer m) = Inr w"
    and "dom (mng_sessions w) \<subseteq> set (h_ids h)" and "dom (srv_connections w) \<subseteq> set (h_keys h)"
  shows "\<exists>p r cs. store16 (h_order h) p = store16 BigEndian (of_nat (n mod 65536)) \<and>
    process_main h [prog, host, digits n] st = Some (Inr r) \<and>
    exit_calls r = GlobalShutdown # cs @ [BaseFree] \<and>
    (if h_listens h (h_inet_addr h host) p
     then exit_code r = h_dispatch h \<and> last_world r = Some w \<and> reachable m (h_events h) w \<and>
       (\<forall>c. count_list cs (ConnCall (XFreeBev c)) = (if socks w c = None then 0 else 1))
     else exit_code r = 1 \<and> last_world r = Some (newServer m) \<and>
       (\<forall>c. ConnCall (XFreeBev c) \<notin> set cs))"
proof -
  let ?p = "htons (h_order h) (of_nat (n mod 65536))"
  let ?l = "lst_add (h_sig_made h) SIGINT lst_new"
  obtain st1 where log: "initLogging h st = (True, st1)"
    using initLogging_result(1) [OF assms(1)] by blast
  obtain st' where main: "process_main h [prog, host, digits n] st = Some (
    andThen (if h_listens h (h_inet_addr h host) ?p then run (h_events h) (newServer m) else Inr (newServer m)) (\<lambda>w.
    andThen (process_exit (h_ids h) (h_keys h) (main_handles (h_listens h (h_inet_addr h host) ?p)) ?l w) (\<lambda>cs.
    Inr \<lparr>exit_code = if h_listens h (h_inet_addr h host) ?p then h_dispatch h else 1,
      exit_calls = GlobalShutdown # cs, last_world = Some w, log_state = st'\<rparr>)))"
    using main_serving [OF log main_args_port [OF assms(2,3)] assms(4)] by blast
  have w: "reachable m (h_events h) w"
    using run_reachable [OF reach_init assms(5,7)] by simp
  obtain cs1 where cs1: "process_exit (h_ids h) (h_keys h) (main_handles True) ?l w = Inr (cs1 @ [BaseFree])"
    "\<And>c. count_list cs1 (ConnCall (XFreeBev c)) = (if socks w c = None then 0 else 1)"
    using process_exit_result [OF w assms(6,8,9)] by blast
  obtain cs2 where cs2: "process_exit (h_ids h) (h_keys h) (main_handles False) ?l (newServer m) = Inr (cs2 @ [BaseFree])"
    "\<And>c. count_list cs2 (ConnCall (XFreeBev c)) = 0"
    using exit_of_fresh by blast
  show ?thesis
    using main assms(7) w cs1 cs2
    by (intro exI [of _ ?p]) (simp add: htons_layout count_list_0_iff)
qed

definition demo_host :: host where
  "demo_host = \<lparr>h_order = LittleEndian, h_inet_addr = (\<lambda>s. 0), h_spdlog = plain_spdlog, h_what = ''?'',
     h_built = (''1'', ''2''), h_methods = [''epoll''], h_logins = Some [], h_listens = (\<lambda>ip p. True),
     h_sig_made = True, h_events = [(plain_env, Accepted)], h_dispatch = 0, h_ids = [0], h_keys = []\<rparr>"

theorem process_result_witness:
  "\<exists>r. process_main demo_host [''socks5'', ''0.0.0.0'', digits 1080] first_logging = Some (Inr r) \<and>
     exit_code r = 0 \<and> (\<exists>w. last_world r = Some w \<and> sessions w 0 \<noteq> None) \<and>
     (\<exists>cs. exit_calls r = GlobalShutdown # cs @ [BaseFree] \<and> count_list cs (ConnCall (XFreeBev 0)) = 1)"
proof -
  have m: "newAuthorizer (h_logins demo_host) = Some (Inr Map.empty)"
    by (simp add: demo_host_def newAuthorizer_def readFile_def readLines_eq getlines.simps)
  have "feasible (h_events demo_host) (newServer Map.empty)" "accepts (h_events demo_host) \<le> 2 ^ 32"
    "run (h_events demo_host) (newServer Map.empty) = Inr (accepted_world (newServer Map.empty))"
    "dom (mng_sessions (accepted_world (newServer Map.empty))) \<subseteq> set (h_ids demo_host)"
    "dom (srv_connections (accepted_world (newServer Map.empty))) \<subseteq> set (h_keys demo_host)"
    "sp_opens (h_spdlog demo_host) ''socks5.log''"
    by (simp_all add: demo_host_def accept_result accepts_def plain_spdlog_def)
  from process_result [OF this(6) _ _ m this(1-5), of "''0.0.0.0''" 1080 "''socks5''" first_logging]
  obtain p r cs where
    "process_main demo_host [''socks5'', ''0.0.0.0'', digits 1080] first_logging = Some (Inr r)"
    "exit_calls r = GlobalShutdown # cs @ [BaseFree]" "exit_code r = h_dispatch demo_host"
    "last_world r = Some (accepted_world (newServer Map.empty))"
    "\<forall>c. count_list cs (ConnCall (XFreeBev c)) = (if socks (accepted_world (newServer Map.empty)) c = None then 0 else 1)"
    by (auto simp: demo_host_def)
  then show ?thesis
    by (auto simp: demo_host_def)
qed

lemma newAuthorizer_returns: "newAuthorizer content \<noteq> None"
  using newAuthorizer_entries by (cases content) (force simp: newAuthorizer_def readFile_def)+

lemma process_returns: "process_main h argv st \<noteq> None"
  using newAuthorizer_returns [of "h_logins h"]
  by (auto simp: process_main_def Let_def split: prod.splits sum.splits main_result.splits option.splits)

lemma usage_exits:
  assumes "sp_opens (h_spdlog h) ''socks5.log''"
  shows "\<exists>l. process_main h [prog] st =
      Some (Inr \<lparr>exit_code = 0, exit_calls = [], last_world = None, log_state = l\<rparr>)"
    "\<exists>l. process_main h (prog # ''--help'' # args) st =
      Some (Inr \<lparr>exit_code = 0, exit_calls = [], last_world = None, log_state = l\<rparr>)"
  using initLogging_result(1) [OF assms, of st] by (auto simp: process_main_def main_args_def)

lemma main_args_text:
  assumes "host \<noteq> ''--help''"
  shows "main_args bo inet True [prog, host, port] =
    andThen (stoi port) (\<lambda>n. Inr (MainServe (inet host) (htons bo (word_of_int n))))"
  using assms by (simp add: main_args_def)

text \<open>
  C20: how the process fails, with a host and a text for the port as its arguments. Without a log file it returns 1
  before anything is created. A text that does not begin with a number, or begins with one that does not fit an
  \<open>int\<close>, and a file of logins that cannot be opened end it with an uncaught exception before the loop;
  when no listener can be made it returns an exit code; and otherwise nothing but a callback can fail:
  the process ends in a fault exactly when a callback of the loop does, with that fault. So the end
  of the process, the destruction of everything included, adds no fault of its own. Of the callbacks of
  the loop it is asked that libevent may make them on a server with the logins of the file, of the orders in which the
  tables are destroyed that they name every entry.
\<close>

theorem process_failures:
  assumes "host \<noteq> ''--help''" and "accepts (h_events h) \<le> 2 ^ 32"
    and "\<And>m. newAuthorizer (h_logins h) = Some (Inr m) \<Longrightarrow> feasible (h_events h) (newServer m)"
    and "\<And>m w. newAuthorizer (h_logins h) = Some (Inr m) \<Longrightarrow> run (h_events h) (newServer m) = Inr w \<Longrightarrow>
      dom (mng_sessions w) \<subseteq> set (h_ids h) \<and> dom (srv_connections w) \<subseteq> set (h_keys h)"
  shows "if \<not> sp_opens (h_spdlog h) ''socks5.log''
     then \<exists>l. process_main h [prog, host, port] st =
       Some (Inr \<lparr>exit_code = 1, exit_calls = [], last_world = None, log_state = l\<rparr>)
     else case stoi port of
       Inl f \<Rightarrow> process_main h [prog, host, port] st = Some (Inl f)
     | Inr n \<Rightarrow> \<exists>p. store16 (h_order h) p = store16 BigEndian (word_of_int n) \<and>
         (case h_logins h of
            None \<Rightarrow> process_main h [prog, host, port] st = Some (Inl RuntimeError)
          | Some content \<Rightarrow> \<exists>m. newAuthorizer (Some content) = Some (Inr m) \<and>
              (if h_listens h (h_inet_addr h host) p
               then \<forall>f. process_main h [prog, host, port] st = Some (Inl f) \<longleftrightarrow> run (h_events h) (newServer m) = Inl f
               else \<exists>r. process_main h [prog, host, port] st = Some (Inr r)))"
proof -
  let ?l = "lst_add (h_sig_made h) SIGINT lst_new"
  note args = main_args_text [OF assms(1), of "h_order h" "h_inet_addr h" prog port]
  consider (log) "\<not> sp_opens (h_spdlog h) ''socks5.log''"
    | (port) f where "sp_opens (h_spdlog h) ''socks5.log''" "stoi port = Inl f"
    | (none) n where "sp_opens (h_spdlog h) ''socks5.log''" "stoi port = Inr n" "h_logins h = None"
    | (serve) n content m where "sp_opens (h_spdlog h) ''socks5.log''" "stoi port = Inr n" "h_logins h = Some content"
      "newAuthorizer (Some content) = Some (Inr m)"
    using newAuthorizer_entries by (cases "h_logins h"; cases "stoi port") blast+
  then show ?thesis
  proof cases
    case log
    then show ?thesis
      using initLogging_result(2) [of h st] by (auto simp: process_main_def main_args_def)
  next
    case port
    then obtain st1 where "initLogging h st = (True, st1)"
      using initLogging_result(1) by blast
    then show ?thesis
      using port args by (simp add: process_main_def Let_def)
  next
    case none
    then obtain st1 where "initLogging h st = (True, st1)"
      using initLogging_result(1) by blast
    then have "process_main h [prog, host, port] st = Some (Inl RuntimeError)"
      using none args by (simp add: process_main_def Let_def newAuthorizer_def readFile_def)
    then show ?thesis
      using none htons_layout by auto
  next
    case serve
    obtain st1 where log: "initLogging h st = (True, st1)"
      using initLogging_result(1) [OF serve(1)] by blast
    have auth: "newAuthorizer (h_logins h) = Some (Inr m)"
      using serve by simp
    have exits: "\<exists>cs. process_exit (h_ids h) (h_keys h) (main_handles True) ?l w = Inr cs" if "run (h_events h) (newServer m) = Inr w" for w
      using process_exit_result [OF run_reachable [OF reach_init assms(3) [OF auth] that] _ assms(4) [OF auth that, THEN conjunct1]
          assms(4) [OF auth that, THEN conjunct2]] assms(2) append_Nil by metis
    let ?p = "htons (h_order h) (word_of_int n)"
    have "main_args (h_order h) (h_inet_addr h) True [prog, host, port] = Inr (MainServe (h_inet_addr h host) ?p)"
      using args serve(2) by simp
    note serving = main_serving [OF log this auth]
    have "if h_listens h (h_inet_addr h host) ?p
        then \<forall>f. process_main h [prog, host, port] st = Some (Inl f) \<longleftrightarrow> run (h_events h) (newServer m) = Inl f
        else \<exists>r. process_main h [prog, host, port] st = Some (Inr r)"
      using serving exits exit_of_fresh [of "h_ids h" "h_keys h" False ?l m]
      by (cases "run (h_events h) (newServer m)") auto
    then show ?thesis
      using serve by (simp, intro exI [of _ ?p]) (simp add: htons_layout)
  qed
qed

text \<open>A missing file of logins, a text that is no number, and a client whose connection reports two ends in one event.\<close>

theorem process_failures_witness:
  "process_main (demo_host\<lparr>h_logins := None\<rparr>) [''socks5'', ''0.0.0.0'', ''1080''] first_logging = Some (Inl RuntimeError) \<and>
   process_main demo_host [''socks5'', ''0.0.0.0'', ''x''] first_logging = Some (Inl InvalidArgument) \<and>
   process_main (demo_host\<lparr>h_events := [(plain_env, Accepted), (plain_env, SockEvent 0 0x30)]\<rparr>)
     [''socks5'', ''0.0.0.0'', ''1080''] first_logging = Some (Inl UseAfterFree)"
proof -
  let ?none = "demo_host\<lparr>h_logins := None\<rparr>"
  let ?both = "demo_host\<lparr>h_events := [(plain_env, Accepted), (plain_env, SockEvent 0 0x30)]\<rparr>"
  have n: "stoi ''1080'' = Inr 1080" "stoi ''x'' = Inl InvalidArgument"
    by (simp_all add: stoi_def sign_def is_space_def is_digit_def decimal_def digit_value_def Let_def)
  have m: "newAuthorizer (Some []) = Some (Inr Map.empty)"
    by (simp add: newAuthorizer_def readFile_def readLines_eq getlines.simps)
  have fault: "handle plain_env (SockEvent 0 0x30) (accepted_world (newServer Map.empty)) = Inl UseAfterFree"
  proof -
    let ?w = "accepted_world (newServer Map.empty)"
    let ?s = "\<lparr>s_id = 0, s_inConn = 0, s_outConn = None, s_trackerConn = 0, s_machine = WaitForGreeting, s_proxy = None\<rparr>"
    have ok: "world_ok ?w"
      by (rule reachable_ok [OF reachable_accepted]) (simp add: accepts_def)
    have "es_closed 0 ?w = Inr (kill 0 ?s ?w)"
      using closed_result [OF ok, of 0 ?s 0] by (simp add: owns_def)
    moreover have "es_closed 0 (kill 0 ?s ?w) = Inl UseAfterFree"
      by (simp add: es_closed_def es_closeConnection_def get_sock_def socks_kill owns_def)
    ultimately show ?thesis
      using handle_closing [of ?w 0 "0x30" plain_env] by (simp del: handle.simps(4))
  qed
  have acc: "accepts (h_events ?none) \<le> 2 ^ 32" "accepts (h_events demo_host) \<le> 2 ^ 32" "accepts (h_events ?both) \<le> 2 ^ 32"
    by (simp_all add: demo_host_def accepts_def)
  have "process_main ?none [''socks5'', ''0.0.0.0'', ''1080''] first_logging = Some (Inl RuntimeError)"
    using process_failures [of "''0.0.0.0''" ?none "''socks5''" "''1080''" first_logging, OF _ acc(1)] n
    by (auto simp: demo_host_def plain_spdlog_def newAuthorizer_def readFile_def)
  moreover have "feasible (h_events demo_host) (newServer m)"
      "run (h_events demo_host) (newServer m) = Inr w \<Longrightarrow>
        dom (mng_sessions w) \<subseteq> set (h_ids demo_host) \<and> dom (srv_connections w) \<subseteq> set (h_keys demo_host)" for m w
    by (auto simp: demo_host_def accept_result split: if_splits)
  with process_failures [of "''0.0.0.0''" demo_host "''socks5''" "''x''" first_logging, OF _ acc(2)] n
  have "process_main demo_host [''socks5'', ''0.0.0.0'', ''x''] first_logging = Some (Inl InvalidArgument)"
    by (simp add: demo_host_def plain_spdlog_def)
  moreover have both: "feasible (h_events ?both) (newServer Map.empty)"
    "run (h_events ?both) (newServer Map.empty) = Inl UseAfterFree" "newAuthorizer (h_logins ?both) = Some (Inr Map.empty)"
    using fault m by (simp_all add: demo_host_def accept_result del: handle.simps(4))
  have prem: "feasible (h_events ?both) (newServer m)"
    "\<And>w. run (h_events ?both) (newServer m) = Inr w \<Longrightarrow>
      dom (mng_sessions w) \<subseteq> set (h_ids ?both) \<and> dom (srv_connections w) \<subseteq> set (h_keys ?both)"
    if "newAuthorizer (h_logins ?both) = Some (Inr m)" for m
    using that both by (simp_all del: run.simps)
  have "process_main ?both [''socks5'', ''0.0.0.0'', ''1080''] first_logging = Some (Inl UseAfterFree)"
    using process_failures [of "''0.0.0.0''" ?both "''socks5''" "''1080''" first_logging, OF _ acc(3) prem] n both(2) m
    by (auto simp: demo_host_def plain_spdlog_def simp del: handle.simps run.simps feasible.simps)
  ultimately show ?thesis by blast
qed

end
