(* ===== verification/Relay.thy ===== *)
theory Relay
  imports Scenario
begin

unbundle bit_operations_syntax

text \<open>
  The relay over a whole run: as long as a session is served, whatever else the server does, the
  bytes queued on each of its connections are the bytes read from the other one.
\<close>

section \<open>Streams\<close>

text \<open>What has been queued on a connection, and what was read from \<open>c\<close> and could be queued on \<open>d\<close>.\<close>

fun queued_on :: "nat \<Rightarrow> ext_call list \<Rightarrow> bytes" where
  "queued_on c [] = []"
| "queued_on c (XQueue d buf # xs) = (if d = c then buf else []) @ queued_on c xs"
| "queued_on c (x # xs) = queued_on c xs"

fun relayed :: "nat \<Rightarrow> nat \<Rightarrow> env \<times> event \<Rightarrow> bytes" where
  "relayed c d (e, Readable r (Some buf) copied) =
     (if r = c \<and> copied = length buf \<and> env_add_ok e d buf then buf else [])"
| "relayed c d (e, ev) = []"

definition stream :: "nat \<Rightarrow> nat \<Rightarrow> (env \<times> event) list \<Rightarrow> bytes" where
  "stream c d evs = concat (map (relayed c d) evs)"

lemma stream_simps [simp]:
  "stream c d [] = []" "stream c d (x # evs) = relayed c d x @ stream c d evs"
  by (simp_all add: stream_def)

lemma queued_on_append [simp]: "queued_on c (xs @ ys) = queued_on c xs @ queued_on c ys"
  by (induction c xs rule: queued_on.induct) auto

lemma queued_on_none: "(\<And>buf. XQueue c buf \<notin> set xs) \<Longrightarrow> queued_on c xs = []"
  by (induction c xs rule: queued_on.induct) (auto 4 3)

lemma relayed_elsewhere: "event_conn ev \<noteq> Some c \<Longrightarrow> relayed c d (e, ev) = []"
  by (induction c d "(e, ev)" rule: relayed.induct) auto

section \<open>One callback\<close>

text \<open>What a callback may do to a served session that it does not end.\<close>

definition relays :: "nat \<Rightarrow> session \<Rightarrow> nat \<Rightarrow> env \<times> event \<Rightarrow> world \<Rightarrow> world \<Rightarrow> bool" where
  "relays a s c x w w' \<longleftrightarrow> sessions w' a = Some s \<and> (\<exists>cs. calls w' = calls w @ cs \<and>
     queued_on c cs = relayed (s_inConn s) c x \<and> queued_on (s_inConn s) cs = relayed c (s_inConn s) x)"

lemma relays_quiet:
  assumes "sessions w' a = Some s" "calls w' = calls w @ cs"
    and "\<And>d buf. XQueue d buf \<in> set cs \<Longrightarrow> d \<noteq> c \<and> d \<noteq> s_inConn s"
    and "relayed (s_inConn s) c x = []" "relayed c (s_inConn s) x = []"
  shows "relays a s c x w w'"
  using assms queued_on_none [of c cs] queued_on_none [of "s_inConn s" cs]
  unfolding relays_def by fastforce

lemma read_relays:
  assumes p: "proxying w a s c" and own: "d = s_inConn s \<or> d = c"
    and r: "handle e (Readable d input copied) w = Inr w'"
  shows "relays a s c (e, Readable d input copied) w w'"
proof (cases "\<exists>buf. input = Some buf \<and> copied = length buf")
  case True
  then show ?thesis
    using own r step_relay [OF p] proxyingD(2,4) [OF p]
    by (auto simp: relays_def queued_def simp del: handle.simps)
next
  case False
  have "socks w d \<noteq> None"
    using own proxyingD(6,7) [OF p] by auto
  then have "w' = w"
    using r False by (auto simp: es_onRead_def split: option.splits)
  then show ?thesis
    using False proxyingD(2) [OF p]
    by (intro relays_quiet [where cs = "[]"]) (cases input; auto)+
qed

lemma event_relays:
  assumes ok: "world_ok w" and p: "proxying w a s c" and own: "d = s_inConn s \<or> d = c"
    and poss: "possible w (SockEvent d events)" and typed: "typed_env e"
    and r: "handle e (SockEvent d events) w = Inr w'" and live: "sessions w' a \<noteq> None"
  shows "relays a s c (e, SockEvent d events) w w'"
proof -
  have k: "socks w d \<noteq> None" and owns: "owns s d"
    using own proxyingD(3,6,7) [OF p] by (auto simp: owns_def)
  obtain v where v: "es_closed d w = Inr (kill a s v)"
    using closed_result [OF ok proxyingD(2) [OF p] owns] proxyingD(5) [OF p] by simp
  have gone: "socks (kill a s v) d = None"
    using owns by (simp add: socks_kill)
  then have dead: "es_closed d (kill a s v) = Inl UseAfterFree" "es_established e d (kill a s v) = Inl UseAfterFree"
    by (simp_all add: es_closed_def es_closeConnection_def es_established_def es_updateLocalAddress_def get_sock_def)
  have skip: "skip = (\<lambda>w. Inr w)"
    by (simp add: fun_eq_iff)
  have open_: "events AND BEV_EVENT_EOF = 0" "events AND BEV_EVENT_ERROR = 0"
    using r k live v dead
    by (cases "events AND BEV_EVENT_EOF = 0"; cases "events AND BEV_EVENT_ERROR = 0";
        cases "events AND BEV_EVENT_CONNECTED = 0"; auto simp: es_onEvent_def skip)+
  show ?thesis
  proof (cases "events AND BEV_EVENT_CONNECTED = 0")
    case True
    then have "w' = w"
      using r k open_ by (auto simp: es_onEvent_def skip)
    then show ?thesis
      using proxyingD(2) [OF p] by (intro relays_quiet [where cs = "[]"]) simp_all
  next
    case False
    then obtain sa where "XConnect d sa \<in> set (calls w)"
      using poss by auto
    then have d: "d = c"
      using own world_okD(9) [OF ok proxyingD(2) [OF p]] by blast
    obtain m where m: "socks w c = Some m" "es_user m = Some (UProxy a Out)"
      using proxying_socks(2) [OF p] by blast
    have "es_established e c w = Inr w'"
      using r m(1) open_ False by (auto simp: d es_onEvent_def skip andThen_eq_Inr_iff)
    from m(1) this typed show ?thesis
    proof (rule established_start)
      fix l rem u
      assume u: "u = w\<lparr>socks := (socks w)(c \<mapsto> m\<lparr>es_local := l, es_remote := rem, es_connected := True\<rparr>)\<rparr>"
        and "(case es_user m of None \<Rightarrow> Inr u | Some user \<Rightarrow> user_onConnected e user u) = Inr w'"
      then have "w' = u"
        using m(2) proxyingD(2,5) [OF p] by (simp add: directed_onConnected_def proxy_onConnected_def)
      then show ?thesis
        using u proxyingD(2) [OF p] by (intro relays_quiet [where cs = "[]"]) simp_all
    qed
  qed
qed

text \<open>A callback elsewhere: an event of another session, a new client, a signal.\<close>

definition quiet :: "nat \<Rightarrow> session \<Rightarrow> world \<Rightarrow> world \<Rightarrow> bool" where
  "quiet a s w w' \<longleftrightarrow> sessions w' a = Some s \<and> (\<exists>cs. calls w' = calls w @ cs \<and>
     (\<forall>d buf. XQueue d buf \<in> set cs \<longrightarrow> \<not> owns s d))"

lemma quietI:
  "sessions w' a = Some s \<Longrightarrow> calls w' = calls w @ cs \<Longrightarrow> (\<And>d buf. XQueue d buf \<in> set cs \<Longrightarrow> \<not> owns s d) \<Longrightarrow>
     quiet a s w w'"
  unfolding quiet_def by blast

lemma quiet_refl [simp]: "sessions w a = Some s \<Longrightarrow> quiet a s w w"
  by (simp add: quiet_def)

lemma server_event_quiet:
  assumes ok: "world_ok w" and a: "sessions w a = Some s" and ev: "event_conn ev = None"
    and r: "handle e ev w = Inr w'" and free: "ev = Accepted \<Longrightarrow> mng_sessions w (mng_currentId w) = None"
  shows "quiet a s w w'"
proof (cases ev)
  case Accepted
  then have "w' = accepted_world w"
    using r accept_result [OF free [OF Accepted], of e] by (simp split: if_splits)
  moreover have "a \<noteq> next_session w"
    using world_okD(6) [OF ok, of a] a by auto
  ultimately show ?thesis
    using a Accepted by (intro quietI [where cs = "[XNewBev (next_sock w)]"]) simp_all
next
  case (SignalRaised n)
  then show ?thesis
    using r a by (cases "n = SIGINT") (auto simp: mng_onSignalOccured_def srv_stop_def
        intro: quietI [where cs = "[XLoopBreak]"])
qed (use ev in simp_all)

lemma elsewhere_quiet:
  assumes ok: "world_ok w" and a: "sessions w a = Some s" and poss: "possible w ev" and typed: "typed_env e"
    and r: "handle e ev w = Inr w'" and free: "ev = Accepted \<Longrightarrow> mng_sessions w (mng_currentId w) = None"
    and foreign: "\<And>d. event_conn ev = Some d \<Longrightarrow> \<not> owns s d"
  shows "quiet a s w w'"
proof (cases "event_conn ev")
  case None
  then show ?thesis
    using server_event_quiet [OF ok a _ r free] by blast
next
  case (Some d)
  obtain b t where b: "sessions w b = Some t" "owns t d" "(move e ev b)\<^sup>*\<^sup>* w w'"
    using handle_conn [OF ok poss typed Some] r by (auto simp: moves_to_def)
  then have ne: "a \<noteq> b"
    using foreign [OF Some] a by auto
  obtain cs where "calls w' = calls w @ cs" "\<forall>d buf. XQueue d buf \<in> set cs \<longrightarrow> \<not> owns s d"
    using moves_new_calls [OF b(3) ok ne a] by blast
  moreover have "sessions w' a = Some s"
    using others_keptD [of b w w' a] moves_ok [OF b(3) ok] ne a by simp
  ultimately show ?thesis
    unfolding quiet_def by blast
qed

lemma step_relays:
  assumes ok: "world_ok w" and p: "proxying w a s c" and poss: "possible w ev" and typed: "typed_env e"
    and r: "handle e ev w = Inr w'" and free: "ev = Accepted \<Longrightarrow> mng_sessions w (mng_currentId w) = None"
    and live: "sessions w' a \<noteq> None"
  shows "relays a s c (e, ev) w w'"
proof (cases "\<exists>d. event_conn ev = Some d \<and> owns s d")
  case False
  then have "quiet a s w w'"
    using elsewhere_quiet [OF ok proxyingD(2) [OF p] poss typed r free] by blast
  moreover have "event_conn ev \<noteq> Some c" "event_conn ev \<noteq> Some (s_inConn s)"
    using False proxyingD(3) [OF p] by (auto simp: owns_def)
  ultimately show ?thesis
    using proxyingD(3) [OF p] by (auto simp: quiet_def owns_def relayed_elsewhere intro!: relays_quiet)
next
  case True
  then obtain d where d: "event_conn ev = Some d" "d = s_inConn s \<or> d = c"
    using proxyingD(3) [OF p] by (auto simp: owns_def)
  show ?thesis
  proof (cases ev)
    case (Readable d' input copied)
    then show ?thesis using read_relays [OF p d(2)] r d(1) by simp
  next
    case (Writable d')
    then have "w' = w"
      using r poss by (auto simp: es_onWrite_def)
    then show ?thesis
      using Writable proxyingD(2) [OF p] by (intro relays_quiet [where cs = "[]"]) simp_all
  next
    case (SockEvent d' events)
    then show ?thesis using event_relays [OF ok p d(2) _ typed] poss r live d(1) by simp
  qed (use d(1) in simp_all)
qed

section \<open>Sessions do not come back\<close>

lemma move_next_session: "move e ev a w w' \<Longrightarrow> next_session w' = next_session w"
  by (erule moveE) (simp_all add: connecting_def proxied_def Let_def)

lemma moves_next_session: "(move e ev a)\<^sup>*\<^sup>* w w' \<Longrightarrow> next_session w' = next_session w"
  by (induction rule: rtranclp_induct) (simp_all add: move_next_session)

lemma step_dead:
  assumes ok: "world_ok w" and poss: "possible w ev" and typed: "typed_env e"
    and r: "handle e ev w = Inr w'" and free: "ev = Accepted \<Longrightarrow> mng_sessions w (mng_currentId w) = None"
  shows "next_session w \<le> next_session w'"
    "sessions w a = None \<Longrightarrow> a < next_session w \<Longrightarrow> sessions w' a = None"
proof -
  have "next_session w \<le> next_session w' \<and>
    (sessions w a = None \<and> a < next_session w \<longrightarrow> sessions w' a = None)"
  proof (rule handle_cases [OF ok poss typed r free])
    fix b t
    assume b: "sessions w b = Some t" "(move e ev b)\<^sup>*\<^sup>* w w'"
    then show ?thesis
      using others_keptD [of b w w' a] moves_ok [OF b(2) ok] moves_next_session [OF b(2)]
      by (cases "a = b") auto
  qed auto
  then show "next_session w \<le> next_session w'"
    "sessions w a = None \<Longrightarrow> a < next_session w \<Longrightarrow> sessions w' a = None"
    by auto
qed

lemma reachable_free:
  assumes "reachable m h w" "accepts (h @ (e, ev) # evs) \<le> 2 ^ 32" "ev = Accepted"
  shows "mng_sessions w (mng_currentId w) = None"
  using reachable_invariant [OF assms(1)] assms(2,3) ids_free by (auto simp: accepts_def)

lemma accepts_prefix: "accepts (h @ evs) \<le> n \<Longrightarrow> accepts h \<le> n"
  by (simp add: accepts_def)

lemma run_dead:
  "reachable m h w \<Longrightarrow> accepts (h @ evs) \<le> 2 ^ 32 \<Longrightarrow> feasible evs w \<Longrightarrow> run evs w = Inr w' \<Longrightarrow>
     sessions w a = None \<Longrightarrow> a < next_session w \<Longrightarrow> sessions w' a = None"
proof (induction evs arbitrary: h w)
  case (Cons x evs)
  obtain e ev where x: "x = (e, ev)" by fastforce
  obtain w1 where w1: "handle e ev w = Inr w1" "run evs w1 = Inr w'"
    using Cons.prems(4) by (auto simp: x andThen_eq_Inr_iff)
  have p: "possible w ev" "typed_env e" "feasible evs w1"
    using Cons.prems(3) w1 by (simp_all add: x)
  note step = step_dead [OF reachable_ok [OF Cons.prems(1) accepts_prefix [OF Cons.prems(2)]] p(1,2) w1(1)
      reachable_free [OF Cons.prems(1) Cons.prems(2) [unfolded x]]]
  have "reachable m (h @ [(e, ev)]) w1"
    using reach_step [OF Cons.prems(1) p(1,2) w1(1)] .
  moreover have "sessions w1 a = None" "a < next_session w1"
    using step Cons.prems(5,6) by auto
  ultimately show ?case
    using Cons.IH [of "h @ [(e, ev)]" w1] Cons.prems(2) p(3) w1(2) by (simp add: x)
qed simp

section \<open>A whole run\<close>

definition streams_ok :: "session \<Rightarrow> nat \<Rightarrow> (env \<times> event) list \<Rightarrow> world \<Rightarrow> world \<Rightarrow> bool" where
  "streams_ok s c evs w w' \<longleftrightarrow> (\<exists>cs. calls w' = calls w @ cs \<and>
     queued_on c cs = stream (s_inConn s) c evs \<and> queued_on (s_inConn s) cs = stream c (s_inConn s) evs)"

lemma streams_ok_Cons:
  assumes "calls w1 = calls w @ cs" "queued_on c cs = relayed (s_inConn s) c x"
    "queued_on (s_inConn s) cs = relayed c (s_inConn s) x" "streams_ok s c evs w1 w'"
  shows "streams_ok s c (x # evs) w w'"
proof -
  obtain ds where "calls w' = calls w1 @ ds" "queued_on c ds = stream (s_inConn s) c evs"
    "queued_on (s_inConn s) ds = stream c (s_inConn s) evs"
    using assms(4) unfolding streams_ok_def by blast
  with assms(1-3) have "calls w' = calls w @ (cs @ ds) \<and>
    queued_on c (cs @ ds) = stream (s_inConn s) c (x # evs) \<and>
    queued_on (s_inConn s) (cs @ ds) = stream c (s_inConn s) (x # evs)"
    by simp
  then show ?thesis
    unfolding streams_ok_def by blast
qed

lemma run_relays:
  "reachable m h w \<Longrightarrow> accepts (h @ evs) \<le> 2 ^ 32 \<Longrightarrow> feasible evs w \<Longrightarrow> run evs w = Inr w' \<Longrightarrow>
     sessions w a = Some s \<Longrightarrow> s_machine s = ProxyStarted \<Longrightarrow> s_outConn s = Some c \<Longrightarrow> sessions w' a \<noteq> None \<Longrightarrow>
     sessions w' a = Some s \<and> streams_ok s c evs w w'"
proof (induction evs arbitrary: h w)
  case Nil
  then show ?case by (simp add: streams_ok_def)
next
  case (Cons x evs)
  obtain e ev where x: "x = (e, ev)" by fastforce
  obtain w1 where w1: "handle e ev w = Inr w1" "run evs w1 = Inr w'"
    using Cons.prems(4) by (auto simp: x andThen_eq_Inr_iff)
  have p: "possible w ev" "typed_env e" "feasible evs w1"
    using Cons.prems(3) w1 by (simp_all add: x)
  have ok: "world_ok w" and free: "ev = Accepted \<Longrightarrow> mng_sessions w (mng_currentId w) = None"
    using reachable_ok [OF Cons.prems(1) accepts_prefix] reachable_free [OF Cons.prems(1)] Cons.prems(2)
    by (auto simp: x)
  have next1: "reachable m (h @ [(e, ev)]) w1" "accepts ((h @ [(e, ev)]) @ evs) \<le> 2 ^ 32"
    using reach_step [OF Cons.prems(1) p(1,2) w1(1)] Cons.prems(2) by (simp_all add: x)
  have served: "proxying w a s c"
    using started_proxying [OF ok Cons.prems(5,6)] Cons.prems(7) by (auto simp: proxying_def)
  have "a < next_session w"
    using world_okD(6) [OF ok, of a] Cons.prems(5) by (metis not_less option.distinct(1))
  then have "a < next_session w1"
    using step_dead(1) [OF ok p(1,2) w1(1) free] by simp
  then have "sessions w1 a \<noteq> None"
    using run_dead [OF next1 p(3) w1(2) _, of a] Cons.prems(8) by (cases "sessions w1 a") simp_all
  with step_relays [OF ok served p(1,2) w1(1) free] have step: "relays a s c x w w1"
    by (simp add: x)
  then obtain cs where cs: "sessions w1 a = Some s" "calls w1 = calls w @ cs"
    "queued_on c cs = relayed (s_inConn s) c x" "queued_on (s_inConn s) cs = relayed c (s_inConn s) x"
    by (auto simp: relays_def)
  from Cons.IH [OF next1 p(3) w1(2) cs(1) Cons.prems(6-8)]
  have "sessions w' a = Some s" "streams_ok s c evs w1 w'"
    by blast+
  with streams_ok_Cons [OF cs(2-4)] show ?case
    by blast
qed

section \<open>Property\<close>

text \<open>
  C7: a served session is a pair of streams. Whatever callbacks the server handles, of this session
  and of any other, new clients and signals included, if the session is still there
  afterwards, then it is unchanged, and the bytes queued meanwhile on its outgoing connection are
  exactly those read from the client that could be queued, in order, none lost, added or doubled;
  and so are the bytes queued for the client and those read from the outgoing connection.
\<close>

theorem relay_is_stream:
  assumes "reachable m h w" and "accepts (h @ evs) \<le> 2 ^ 32" and "feasible evs w" and "run evs w = Inr w'"
    and "sessions w a = Some s" and "s_machine s = ProxyStarted" and "sessions w' a \<noteq> None"
  shows "\<exists>c. s_outConn s = Some c \<and> sessions w' a = Some s \<and>
    queued_on c (new_calls w w') = stream (s_inConn s) c evs \<and>
    queued_on (s_inConn s) (new_calls w w') = stream c (s_inConn s) evs"
proof -
  obtain c where c: "s_outConn s = Some c"
    using started_proxying [OF reachable_ok [OF assms(1) accepts_prefix [OF assms(2)]] assms(5,6)]
      proxyingD(3) by blast
  from run_relays [OF assms(1-6) c assms(7)] obtain cs where
    "sessions w' a = Some s" "calls w' = calls w @ cs" "queued_on c cs = stream (s_inConn s) c evs"
    "queued_on (s_inConn s) cs = stream c (s_inConn s) evs"
    by (auto simp: streams_ok_def)
  with c show ?thesis
    by (simp add: new_calls_append)
qed

text \<open>Three reads of the session of theory \<open>Scenario\<close>, and a new client.\<close>

definition demo_traffic :: "(env \<times> event) list" where
  "demo_traffic = [(plain_env, Readable 0 (Some [1, 2]) (length [1, 2 :: byte])),
     (plain_env, Readable 1 (Some [3]) (length [3 :: byte])), (plain_env, Readable 0 (Some [4]) (length [4 :: byte])),
     (plain_env, Accepted)]"

lemma demo_traffic_run:
  defines "w3 \<equiv> queued 1 [4] (queued 0 [3] (queued 1 [1, 2] demo_served))"
  shows "run demo_traffic demo_served = Inr (accepted_world w3)" "feasible demo_traffic demo_served"
    "accepts (demo_run @ demo_traffic) \<le> 2 ^ 32"
proof -
  let ?w1 = "queued 1 [1, 2] demo_served"
  let ?w2 = "queued 0 [3] ?w1"
  have 0: "proxying demo_served 0 served_client 1"
    using started_proxying [OF reachable_ok [OF demo_served_reachable] demo_served_session demo_served_client(1)]
      demo_served_client(2) by (auto simp: proxying_def)
  then have 1: "proxying ?w1 0 served_client 1" and 2: "proxying ?w2 0 served_client 1"
    by (simp_all add: proxying_def)
  have live: "socks demo_served 0 \<noteq> None" "socks demo_served 1 \<noteq> None"
    by (simp_all add: demo_served_def)
  have r: "handle plain_env (Readable 0 (Some [1, 2]) (length [1, 2 :: byte])) demo_served = Inr ?w1"
    "handle plain_env (Readable 1 (Some [3]) (length [3 :: byte])) ?w1 = Inr ?w2"
    "handle plain_env (Readable 0 (Some [4]) (length [4 :: byte])) ?w2 = Inr w3"
    using step_relay(1) [OF 0, of plain_env "[1, 2]"] step_relay(2) [OF 1, of plain_env "[3]"]
      step_relay(1) [OF 2, of plain_env "[4]"]
    by (simp_all add: w3_def demo_served_client(3) del: handle.simps)
  have "mng_sessions w3 (mng_currentId w3) = None"
    using reachable_free [OF demo_served_reachable(1), of plain_env Accepted "[]"]
    by (simp add: w3_def accepts_def demo_run_def client_run_def)
  from accept_result [OF this, of plain_env]
  have acc: "handle plain_env Accepted w3 = Inr (accepted_world w3)"
    by simp
  show "run demo_traffic demo_served = Inr (accepted_world w3)"
    using r acc by (simp add: demo_traffic_def del: handle.simps)
  show "feasible demo_traffic demo_served"
    using r acc live by (simp add: demo_traffic_def del: handle.simps)
  show "accepts (demo_run @ demo_traffic) \<le> 2 ^ 32"
    by (simp add: accepts_def demo_run_def client_run_def demo_traffic_def)
qed

theorem relay_is_stream_witness:
  "\<exists>w'. run demo_traffic demo_served = Inr w' \<and> queued_on 1 (new_calls demo_served w') = [1, 2, 4] \<and>
     queued_on 0 (new_calls demo_served w') = [3]"
proof -
  let ?w = "accepted_world (queued 1 [4] (queued 0 [3] (queued 1 [1, 2] demo_served)))"
  have "sessions ?w 0 \<noteq> None"
    by (simp add: demo_served_session)
  from relay_is_stream [OF demo_served_reachable(1) demo_traffic_run(3,2,1) demo_served_session demo_served_client(1) this]
  have "queued_on 1 (new_calls demo_served ?w) = stream 0 1 demo_traffic"
    "queued_on 0 (new_calls demo_served ?w) = stream 1 0 demo_traffic"
    unfolding demo_served_client by blast+
  moreover have "stream 0 1 demo_traffic = [1, 2, 4]" "stream 1 0 demo_traffic = [3]"
    by (simp_all add: demo_traffic_def)
  ultimately show ?thesis
    using demo_traffic_run(1) by metis
qed

end
