(* ===== verification/ClientView.thy ===== *)
theory ClientView
  imports Relay
begin

unbundle bit_operations_syntax

text \<open>
  What a client sees: in every reachable world, all that has ever been queued on the connections of
  a session, as a function of the phase the session is in and of what has been read since.
\<close>

section \<open>The view\<close>

definition greeted :: bytes where
  "greeted = [Version5, AuthLoginPass]"

definition authenticated :: bytes where
  "authenticated = greeted @ [Version5, 0]"

text \<open>
  \<open>served_view\<close>: \<open>h\<close> ends with the event that established the outgoing connection and the callbacks
  \<open>h'\<close> since then.
\<close>

definition served_view :: "(env \<times> event) list \<Rightarrow> world \<Rightarrow> session \<Rightarrow> nat \<Rightarrow> bool" where
  "served_view h w s c \<longleftrightarrow> (\<exists>h0 e events h' l. h = h0 @ (e, SockEvent c events) # h' \<and>
     events AND BEV_EVENT_CONNECTED \<noteq> 0 \<and> getAddress (env_order e) (env_sockname e c) = Inr l \<and>
     queued_on (s_inConn s) (calls w) = authenticated @
       commandWire (env_order e) RequestGranted (addr_addr l) (addr_port l) @ stream c (s_inConn s) h' \<and>
     queued_on c (calls w) = stream (s_inConn s) c h')"

lemma served_viewI:
  assumes "events AND BEV_EVENT_CONNECTED \<noteq> 0" "getAddress (env_order e) (env_sockname e c) = Inr l"
    and "queued_on (s_inConn s) (calls w) = authenticated @
       commandWire (env_order e) RequestGranted (addr_addr l) (addr_port l) @ stream c (s_inConn s) h'"
    and "queued_on c (calls w) = stream (s_inConn s) c h'"
  shows "served_view (h0 @ (e, SockEvent c events) # h') w s c"
  using assms unfolding served_view_def by blast

definition view_ok :: "(env \<times> event) list \<Rightarrow> world \<Rightarrow> session \<Rightarrow> bool" where
  "view_ok h w s \<longleftrightarrow> (case s_machine s of
     WaitForGreeting \<Rightarrow> queued_on (s_inConn s) (calls w) = []
   | WaitForPassAuth \<Rightarrow> queued_on (s_inConn s) (calls w) = greeted
   | WaitForCommand \<Rightarrow> queued_on (s_inConn s) (calls w) = authenticated
   | WaitForProxyStart \<Rightarrow> queued_on (s_inConn s) (calls w) = authenticated \<and>
       (\<exists>c. s_outConn s = Some c \<and> queued_on c (calls w) = [])
   | ProxyStarted \<Rightarrow> (\<exists>c. s_outConn s = Some c \<and> served_view h w s c)
   | _ \<Rightarrow> False)"

text \<open>Only the machine, the connections and what is queued on them count before the session is served.\<close>

lemma view_ok_same:
  assumes "view_ok h w s" "s_machine s \<noteq> ProxyStarted"
    and "\<And>d. owns s d \<Longrightarrow> queued_on d (calls w') = queued_on d (calls w)"
  shows "view_ok h' w' s"
  using assms(1,2) assms(3) [of "s_inConn s"] assms(3) [of "the (s_outConn s)"]
  by (cases "s_machine s") (auto simp: view_ok_def owns_def)

lemma quiet_queued_on: "quiet a s w w' \<Longrightarrow> owns s d \<Longrightarrow> queued_on d (calls w') = queued_on d (calls w)"
  using queued_on_none by (fastforce simp: quiet_def)

section \<open>Fresh connections\<close>

text \<open>Nothing has been queued on a connection that does not exist yet.\<close>

definition queued_below :: "world \<Rightarrow> bool" where
  "queued_below w \<longleftrightarrow> (\<forall>c buf. XQueue c buf \<in> set (calls w) \<longrightarrow> c < next_sock w)"

lemma queued_belowD: "queued_below w \<Longrightarrow> next_sock w \<le> c \<Longrightarrow> queued_on c (calls w) = []"
  by (rule queued_on_none) (auto simp: queued_below_def not_less [symmetric])

lemma move_queued_below:
  assumes ok: "world_ok w" and mv: "move e ev a w w'" and below: "queued_below w"
  shows "queued_below w'"
proof -
  obtain cs where cs: "calls w' = calls w @ cs"
    "\<And>c buf. XQueue c buf \<in> set cs \<Longrightarrow> \<exists>s. sessions w a = Some s \<and> owns s c"
    using move_new_calls [OF ok mv] by blast
  have "next_sock w \<le> next_sock w'"
    using mv by (rule moveE) (simp_all add: connecting_def proxied_def Let_def)
  then show ?thesis
    using cs below owned_below_next [OF ok] by (fastforce simp: queued_below_def)
qed

lemma moves_queued_below: "(move e ev a)\<^sup>*\<^sup>* w w' \<Longrightarrow> world_ok w \<Longrightarrow> queued_below w \<Longrightarrow> queued_below w'"
proof (induction rule: rtranclp_induct)
  case (step y z)
  then show ?case
    using move_queued_below moves_ok by blast
qed

lemma step_queued_below:
  assumes ok: "world_ok w" and poss: "possible w ev" and typed: "typed_env e"
    and r: "handle e ev w = Inr w'" and free: "ev = Accepted \<Longrightarrow> mng_sessions w (mng_currentId w) = None"
    and below: "queued_below w"
  shows "queued_below w'"
proof (rule handle_cases [OF ok poss typed r free])
  fix b t assume "(move e ev b)\<^sup>*\<^sup>* w w'"
  then show ?thesis using moves_queued_below ok below by blast
next
  assume "w' = accepted_world w"
  then show ?thesis
    using below by (auto simp: queued_below_def less_Suc_eq)
qed (use below in \<open>simp_all add: queued_below_def\<close>)

section \<open>A callback before the session is served\<close>

text \<open>Data of the client: the machine moves on together with what has been queued.\<close>

lemma receive_view:
  assumes ok: "world_ok w" and s: "sessions w a = Some s" and np: "s_proxy s = None"
    and view: "view_ok h w s" and below: "queued_below w"
    and r: "tracker_onReceive e a buf w = Inr w'" and s': "sessions w' a = Some s'"
  shows "view_ok h' w' s'"
proof -
  have mem: "mem_ok w a s" and phase: "session_phase s"
    using world_okD(1,2) [OF ok s] by blast+
  consider "s_machine s = WaitForGreeting" | "s_machine s = WaitForPassAuth"
    | "s_machine s = WaitForCommand" "s_outConn s = None"
    | "s_machine s \<notin> {WaitForGreeting, WaitForPassAuth, WaitForCommand}"
    using phase by (cases "s_machine s") (auto simp: session_phase_def)
  then show ?thesis
  proof cases
    case 1
    from r show ?thesis
      unfolding receive_greeting [OF mem 1] Let_def
      by (rule accepted_cases) (use s' view 1 in \<open>auto simp: view_ok_def greeted_def split: if_splits\<close>)
  next
    case 2
    from r show ?thesis
      unfolding receive_passAuth [OF mem 2] Let_def
      by (rule accepted_cases) (use s' view 2 in \<open>auto simp: view_ok_def authenticated_def split: if_splits\<close>)
  next
    case 3
    have fresh: "socks w (next_sock w) = None"
      using world_okD(5) [OF ok] by simp
    from r show ?thesis
      unfolding receive_command [OF mem 3 fresh]
      by (rule accepted_cases)
        (use s' view 3 queued_belowD [OF below] in \<open>auto simp: view_ok_def connecting_def Let_def
           split: if_splits sum.splits option.splits\<close>)
  next
    case 4
    then show ?thesis
      using r receive_unexpected [OF mem 4] s' by auto
  qed
qed

text \<open>The end of one of its connections does not queue anything.\<close>

lemma disconnected_quiet: "sessions w a = Some s \<Longrightarrow> quiet a s w (disconnected c w)"
  by (cases "socks w c") (auto simp: disconnected_def intro: quietI [where cs = "[XDisable c, XCloseSocket c]"])

lemma established_view:
  assumes ok: "world_ok w" and s: "sessions w a = Some s" "s_proxy s = None" "s_outConn s = Some c"
    and view: "view_ok h w s" and r: "es_established e c w = Inr w'" and typed: "typed_env e"
    and ev: "events AND BEV_EVENT_CONNECTED \<noteq> 0" and s': "sessions w' a = Some s'"
  shows "view_ok (h0 @ [(e, SockEvent c events)]) w' s'"
proof -
  have mem: "mem_ok w a s" and st: "s_machine s = WaitForProxyStart"
    using world_okD(1,2) [OF ok s(1)] s(2,3) by (cases "s_machine s"; auto simp: session_phase_def)+
  obtain k where k: "socks w c = Some k" "es_user k = Some (USession a)"
    using pending_sock [OF ok s] by blast
  from k(1) r typed show ?thesis
  proof (rule established_start)
    fix l rem u
    let ?m = "k\<lparr>es_local := l, es_remote := rem, es_connected := True\<rparr>"
    let ?reply = "commandWire (env_order e) RequestGranted (addr_addr l) (addr_port l)"
    assume l: "wire_variant (addr_addr l)" "variant_type (addr_addr l) = addr_type l"
      and addr: "getAddress (env_order e) (env_sockname e c) = Inr l"
      and user: "(case es_user k of None \<Rightarrow> Inr u | Some user \<Rightarrow> user_onConnected e user u) = Inr w'"
      and u: "u = w\<lparr>socks := (socks w)(c \<mapsto> ?m)\<rparr>"
    have mem_u: "mem_ok u a s"
      unfolding u using update_mem_ok [OF mem s(3) k(1)] .
    obtain i where i: "socks u (s_inConn s) = Some i"
      using mem_u by (auto simp: mem_ok_def)
    have m: "socks u c = Some ?m"
      by (simp add: u)
    have w': "w' = proxied a s c i ?m (queued (s_inConn s) ?reply u)"
      using user k(2) session_onConnected_result [OF mem_u st s(3,2) i m _ l]
      by (simp add: Let_def split: if_splits)
    have ne: "c \<noteq> s_inConn s"
      using mem s(3) by (auto simp: mem_ok_def out_ok_def)
    have "calls w' = calls w @ [XQueue (s_inConn s) ?reply]"
      "s' = s\<lparr>s_machine := ProxyStarted, s_proxy := Some \<lparr>p_main = s_inConn s, p_out = c\<rparr>\<rparr>"
      using s' by (simp_all add: w' u proxied_def)
    moreover have "queued_on (s_inConn s) (calls w) = authenticated" "queued_on c (calls w) = []"
      using view st s(3) by (simp_all add: view_ok_def)
    ultimately show ?thesis
      using ne s(3) served_viewI [OF ev addr, where h' = "[]" and w = w' and s = s'] by (simp add: view_ok_def)
  qed
qed

lemma closed_inside_dies:
  assumes ok: "world_ok w" and s: "sessions w a = Some s" "s_proxy s = None"
    and closing: "events AND BEV_EVENT_CONNECTED = 0"
    and r: "handle e (SockEvent (s_inConn s) events) w = Inr w'"
  shows "w' = w \<or> sessions w' a = None"
proof -
  have own: "owns s (s_inConn s)"
    by (simp add: owns_def)
  then have live: "socks w (s_inConn s) \<noteq> None"
    using owned_sock [OF world_okD(1) [OF ok s(1)]] by blast
  have closed: "es_closed (s_inConn s) w = Inr (kill a s w)"
    using closed_result [OF ok s(1) own] s(2) by simp
  have "es_closed (s_inConn s) (kill a s w) = Inl UseAfterFree"
    using own by (simp add: es_closed_def es_closeConnection_def get_sock_def socks_kill)
  then show ?thesis
    using r closed unfolding handle_closing [OF live closing] by (auto split: if_splits)
qed

text \<open>An event on the pending connection: it may be closed, and then established, in one callback.\<close>

lemma pending_event:
  assumes ok: "world_ok w" and s: "sessions w a = Some s" "s_proxy s = None" "s_outConn s = Some c"
    and r: "handle e (SockEvent c events) w = Inr w'"
  obtains v where "world_ok v" "quiet a s w v"
    "if events AND BEV_EVENT_CONNECTED = 0 then w' = v else es_established e c v = Inr w'"
proof -
  have skip: "skip = (\<lambda>w. Inr w)"
    by (simp add: fun_eq_iff)
  have mem: "mem_ok w a s"
    using world_okD(1) [OF ok s(1)] .
  have ne: "c \<noteq> s_inConn s" and own: "owns s c"
    using mem s(3) by (auto simp: mem_ok_def out_ok_def owns_def)
  have live: "socks w c \<noteq> None"
    using owned_sock [OF mem own] by blast
  have ok1: "world_ok (disconnected c w)"
    using move_ok [OF ok move.close [OF s(1,3)]] by blast
  have closed: "es_closed c w = Inr (disconnected c w)" "es_closed c (disconnected c w) = Inr (disconnected c w)"
    using closed_result [OF ok s(1) own] closed_result [OF ok1 _ own] s ne by simp_all
  define v where "v = (if events AND BEV_EVENT_EOF = 0 \<and> events AND BEV_EVENT_ERROR = 0 then w else disconnected c w)"
  have "world_ok v" "quiet a s w v"
    using ok ok1 disconnected_quiet s(1) by (simp_all add: v_def)
  moreover have "if events AND BEV_EVENT_CONNECTED = 0 then w' = v else es_established e c v = Inr w'"
    using r live closed
    by (cases "events AND BEV_EVENT_EOF = 0"; cases "events AND BEV_EVENT_ERROR = 0";
        cases "events AND BEV_EVENT_CONNECTED = 0") (auto simp: es_onEvent_def skip v_def andThen_eq_Inr_iff)
  ultimately show ?thesis
    using that by blast
qed

lemma own_view:
  assumes ok: "world_ok w" and s: "sessions w a = Some s" "s_proxy s = None"
    and view: "view_ok h w s" and below: "queued_below w"
    and d: "event_conn ev = Some d" "owns s d" and poss: "possible w ev" and typed: "typed_env e"
    and r: "handle e ev w = Inr w'" and s': "sessions w' a = Some s'"
  shows "view_ok (h @ [(e, ev)]) w' s'"
proof -
  have st: "s_machine s \<noteq> ProxyStarted"
    using world_okD(2) [OF ok s(1)] s(2) by (auto simp: session_phase_def)
  have quiet: "view_ok h' v s" if "quiet a s w v" for v h'
    using view_ok_same [OF view st quiet_queued_on [OF that]] .
  have same: ?thesis if "w' = w"
    using quiet [OF quiet_refl [OF s(1)]] s(1) s' that by simp
  show ?thesis
  proof (cases ev)
    case (Readable d' input copied)
    show ?thesis
    proof (cases "d = s_inConn s \<and> (\<exists>buf. input = Some buf \<and> copied = length buf)")
      case True
      then show ?thesis
        using Readable d(1) r handle_client_data [OF ok s] receive_view [OF ok s view below _ s']
        by (auto simp del: handle.simps)
    next
      case False
      obtain k where k: "socks w d = Some k"
        using poss Readable d(1) by auto
      moreover have "es_user k = Some (USession a)" if "d \<noteq> s_inConn s"
        using that pending_sock [OF ok s, of d] d(2) k by (auto simp: owns_def)
      ultimately have "w' = w"
        using False r Readable d(1) s(1)
        by (cases "d = s_inConn s") (auto simp: es_onRead_def session_onReceive_def split: option.splits if_splits)
      then show ?thesis by (rule same)
    qed
  next
    case (Writable d')
    then have "w' = w"
      using r poss by (auto simp: es_onWrite_def)
    then show ?thesis by (rule same)
  next
    case (SockEvent d' events)
    show ?thesis
    proof (cases "d = s_inConn s")
      case True
      then have "events AND BEV_EVENT_CONNECTED = 0"
        using poss SockEvent d(1) world_okD(9) [OF ok s(1)] by auto
      with closed_inside_dies [OF ok s this] have "w' = w"
        using r SockEvent d(1) True s' by fastforce
      then show ?thesis by (rule same)
    next
      case False
      then have c: "s_outConn s = Some d"
        using d(2) by (simp add: owns_def)
      have "handle e (SockEvent d events) w = Inr w'"
        using r SockEvent d(1) by simp
      then obtain v where v: "world_ok v" "quiet a s w v"
        "if events AND BEV_EVENT_CONNECTED = 0 then w' = v else es_established e d v = Inr w'"
        by (rule pending_event [OF ok s c])
      have "sessions v a = Some s"
        using v(2) by (simp add: quiet_def)
      then show ?thesis
        using v(3) quiet [OF v(2)] s' SockEvent d(1)
          established_view [OF v(1) _ s(2) c quiet [OF v(2)] _ typed _ s', of events]
        by (auto split: if_splits)
    qed
  qed (use d in simp_all)
qed

section \<open>Every reachable world\<close>

lemma served_view_step:
  assumes "served_view h w s c" "relays a s c x w w'"
  shows "served_view (h @ [x]) w' s c"
proof -
  obtain h0 e events h' l where h: "h = h0 @ (e, SockEvent c events) # h'"
    "events AND BEV_EVENT_CONNECTED \<noteq> 0" "getAddress (env_order e) (env_sockname e c) = Inr l"
    "queued_on (s_inConn s) (calls w) = authenticated @
       commandWire (env_order e) RequestGranted (addr_addr l) (addr_port l) @ stream c (s_inConn s) h'"
    "queued_on c (calls w) = stream (s_inConn s) c h'"
    using assms(1) unfolding served_view_def by blast
  have "stream c' d (h' @ [x]) = stream c' d h' @ relayed c' d x" for c' d
    by (simp add: stream_def)
  then have "served_view (h0 @ (e, SockEvent c events) # (h' @ [x])) w' s c"
    using assms(2) h(4,5) by (intro served_viewI [OF h(2,3)]) (auto simp: relays_def)
  then show ?thesis
    by (simp add: h(1))
qed

lemma step_view:
  assumes ok: "world_ok w" and poss: "possible w ev" and typed: "typed_env e"
    and r: "handle e ev w = Inr w'" and free: "ev = Accepted \<Longrightarrow> mng_sessions w (mng_currentId w) = None"
    and s: "sessions w a = Some s" and view: "view_ok h w s" and below: "queued_below w"
    and s': "sessions w' a = Some s'"
  shows "view_ok (h @ [(e, ev)]) w' s'"
proof (cases "s_machine s = ProxyStarted")
  case True
  then obtain c where c: "s_outConn s = Some c" "served_view h w s c" and p: "proxying w a s c"
    using view started_proxying [OF ok s True] proxyingD(3) by (auto simp: view_ok_def)
  have "relays a s c (e, ev) w w'"
    using step_relays [OF ok p poss typed r free] s' by simp
  with c s' True show ?thesis
    using served_view_step [OF c(2)] by (auto simp: view_ok_def relays_def)
next
  case False
  then have np: "s_proxy s = None"
    using world_okD(1,2) [OF ok s] by (cases "s_machine s") (auto simp: session_phase_def mem_ok_def out_ok_def)
  show ?thesis
  proof (cases "\<exists>d. event_conn ev = Some d \<and> owns s d")
    case True
    then show ?thesis
      using own_view [OF ok s np view below _ _ poss typed r s'] by blast
  next
    case none: False
    then have q: "quiet a s w w'"
      using elsewhere_quiet [OF ok s poss typed r free] by blast
    then show ?thesis
      using view_ok_same [OF view False quiet_queued_on [OF q]] s' by (simp add: quiet_def)
  qed
qed

lemma step_new:
  assumes ok: "world_ok w" and poss: "possible w ev" and typed: "typed_env e"
    and r: "handle e ev w = Inr w'" and free: "ev = Accepted \<Longrightarrow> mng_sessions w (mng_currentId w) = None"
    and new: "sessions w a = None" and below: "queued_below w" and s': "sessions w' a = Some s'"
  shows "view_ok h w' s'"
proof (rule handle_cases [OF ok poss typed r free])
  fix b t assume b: "sessions w b = Some t" "(move e ev b)\<^sup>*\<^sup>* w w'"
  then show ?thesis
    using others_keptD [of b w w' a] moves_ok [OF b(2) ok] new s' by (cases "a = b") auto
next
  assume "w' = accepted_world w"
  then show ?thesis
    using new s' queued_belowD [OF below, of "next_sock w"] by (auto simp: view_ok_def split: if_splits)
qed (use new s' in simp_all)

lemma reachable_view:
  "reachable m h w \<Longrightarrow> accepts h \<le> 2 ^ 32 \<Longrightarrow>
     queued_below w \<and> (\<forall>a s. sessions w a = Some s \<longrightarrow> view_ok h w s)"
proof (induction rule: reachable.induct)
  case reach_init
  then show ?case by (simp add: queued_below_def)
next
  case (reach_step h w ev e w')
  have le: "accepts h \<le> 2 ^ 32"
    using accepts_prefix [OF reach_step.prems] .
  have ok: "world_ok w"
    using reachable_ok [OF reach_step.hyps(1) le] .
  have free: "ev = Accepted \<Longrightarrow> mng_sessions w (mng_currentId w) = None"
    using reachable_free [OF reach_step.hyps(1), of e ev "[]"] reach_step.prems by simp
  have below: "queued_below w" and view: "\<And>a s. sessions w a = Some s \<Longrightarrow> view_ok h w s"
    using reach_step.IH le by blast+
  note step = ok reach_step.hyps(2-4) free
  have "view_ok (h @ [(e, ev)]) w' s'" if s': "sessions w' a = Some s'" for a s'
  proof (cases "sessions w a")
    case None
    then show ?thesis
      using step_new [OF step _ below s'] by blast
  next
    case (Some s)
    then show ?thesis
      using step_view [OF step Some view [OF Some] below s'] by blast
  qed
  then show ?case
    using step_queued_below [OF step below] by blast
qed

section \<open>Property\<close>

text \<open>
  C8: everything a client ever gets. In every reachable world and for every live session, what has
  been queued on the client's connection since it was accepted is: nothing while the greeting is
  awaited, then the choice of the user/password method, then the acceptance of the login, and
  once the session is served, the granting reply with the local address of the outgoing connection
  and behind it exactly the bytes read from that connection since, in order. Nothing has been queued on the
  outgoing connection before the session is served, and since then exactly the bytes
  read from the client.
\<close>

theorem client_view:
  assumes "reachable m h w" and "accepts h \<le> 2 ^ 32" and "sessions w a = Some s"
  shows "view_ok h w s"
  using reachable_view [OF assms(1,2)] assms(3) by blast

theorem client_view_witness:
  "\<exists>l :: SocksAddress. queued_on 0 (calls demo_served) = [5, 2, 5, 0] @
     commandWire LittleEndian RequestGranted (addr_addr l) (addr_port l) \<and> queued_on 1 (calls demo_served) = []"
proof -
  have "view_ok demo_run demo_served served_client"
    by (rule client_view [OF demo_served_reachable demo_served_session])
  then have "served_view demo_run demo_served served_client 1"
    by (simp add: view_ok_def demo_served_client)
  then obtain h0 e events h' and l :: SocksAddress where h: "demo_run = h0 @ (e, SockEvent 1 events) # h'"
    "queued_on 0 (calls demo_served) = authenticated @
       commandWire (env_order e) RequestGranted (addr_addr l) (addr_port l) @ stream 1 0 h'"
    "queued_on 1 (calls demo_served) = stream 0 1 h'"
    unfolding served_view_def demo_served_client by blast
  have "e = plain_env" "h' = []"
    using h(1) by (auto simp: demo_run_def client_run_def append_eq_Cons_conv Cons_eq_append_conv)
  with h(2,3) show ?thesis
    by (auto simp: authenticated_def greeted_def)
qed

end
