(* ===== verification/Faults.thy ===== *)
theory Faults
  imports Behaviour
begin

unbundle bit_operations_syntax

text \<open>
  All that goes wrong in the running server: which callbacks, in which reachable worlds, run into undefined
  behaviour or a failed assertion, whatever libevent and the system answer.
\<close>

section \<open>The fault of a callback\<close>

text \<open>
  Data of a client in each state of the handshake. A reply that cannot be queued ends the session,
  and the code goes on with it; only after an accepted login nothing is done with it any more. A command
  that is valid and cannot be carried out leads to a reply without an address, which cannot be encoded; a
  bufferevent that cannot be made is used all the same.
\<close>

definition data_fault :: "env \<Rightarrow> world \<Rightarrow> session \<Rightarrow> bytes \<Rightarrow> fault option" where
  "data_fault e w s buf =
     (case s_machine s of
        WaitForGreeting \<Rightarrow>
          (case accepted (decodeGreeting buf newGreetingMsg) of
             None \<Rightarrow> None
           | Some m \<Rightarrow>
               if env_add_ok e (s_inConn s)
                    [Version5, if AuthLoginPass \<in> set (gm_authMethods m) then AuthLoginPass else NoAvailableMethod]
               then None else Some UseAfterFree)
      | WaitForPassAuth \<Rightarrow>
          (case accepted (decodeUserPass buf newUserPassAuthMsg) of
             None \<Rightarrow> None
           | Some m \<Rightarrow>
               if authUserPassword (mng_logins w) (up_user m) (up_password m) \<or> env_add_ok e (s_inConn s) [Version5, 1]
               then None else Some UseAfterFree)
      | WaitForCommand \<Rightarrow>
          (case accepted (decodeCommand (env_order e) buf newCommandMsg) of
             None \<Rightarrow> None
           | Some m \<Rightarrow>
               if cm_command m = TCPStream \<and> \<not> env_bev_new e then Some NullDeref
               else if cm_command m = TCPStream \<and>
                 (case convertAddrToStorage (env_order e) (command_address m) of
                    Inr (Some sa) \<Rightarrow> env_connect_ok e (next_sock w) sa | _ \<Rightarrow> False)
               then None else Some UseAfterFree)
      | _ \<Rightarrow> None)"

text \<open>
  An established connection: an address of an unknown family fails an assertion; the granting reply, which
  a session that is served already does not send, may not be queued.
\<close>

definition established_fault :: "env \<Rightarrow> session \<Rightarrow> nat \<Rightarrow> fault option" where
  "established_fault e s c =
     (case getAddress (env_order e) (env_sockname e c) of
        Inl f \<Rightarrow> Some f
      | Inr l \<Rightarrow>
          (case getAddress (env_order e) (env_peername e c) of
             Inl f \<Rightarrow> Some f
           | Inr _ \<Rightarrow>
               if s_proxy s = None \<and>
                 \<not> env_add_ok e (s_inConn s) (commandWire (env_order e) RequestGranted (addr_addr l) (addr_port l))
               then Some UseAfterFree else None))"

definition several_events :: "u16 \<Rightarrow> bool" where
  "several_events events \<longleftrightarrow>
     events AND BEV_EVENT_EOF \<noteq> 0 \<and> events AND BEV_EVENT_ERROR \<noteq> 0 \<or>
     events AND BEV_EVENT_CONNECTED \<noteq> 0 \<and> (events AND BEV_EVENT_EOF \<noteq> 0 \<or> events AND BEV_EVENT_ERROR \<noteq> 0)"

text \<open>\<open>session_fault e w s ev\<close>: the callback \<open>ev\<close> on a connection of the session \<open>s\<close>.\<close>

fun session_fault :: "env \<Rightarrow> world \<Rightarrow> session \<Rightarrow> event \<Rightarrow> fault option" where
  "session_fault e w s (Readable c (Some buf) copied) =
     (if c = s_inConn s \<and> copied = length buf \<and> s_proxy s = None then data_fault e w s buf else None)"
| "session_fault e w s (SockEvent c events) =
     (if several_events events \<and> \<not> (s_proxy s = None \<and> s_outConn s = Some c) then Some UseAfterFree
      else if events AND BEV_EVENT_CONNECTED \<noteq> 0 then established_fault e s c
      else None)"
| "session_fault e w s ev = None"

section \<open>Data\<close>

lemma client_data_fault:
  assumes ok: "world_ok w" and s: "sessions w a = Some s"
  shows "tracker_onReceive e a buf w = Inl f \<longleftrightarrow> data_fault e w s buf = Some f"
proof -
  have mem: "mem_ok w a s" and phase: "session_phase s"
    using world_okD(1,2) [OF ok s] by blast+
  have fresh: "socks w (next_sock w) = None"
    using world_okD(5) [OF ok] by simp
  consider "s_machine s = WaitForGreeting" | "s_machine s = WaitForPassAuth"
    | "s_machine s = WaitForCommand" "s_outConn s = None"
    | "s_machine s \<notin> {WaitForGreeting, WaitForPassAuth, WaitForCommand}"
    using phase by (cases "s_machine s") (auto simp: session_phase_def)
  then show ?thesis
  proof cases
    case 1
    then show ?thesis
      using receive_greeting [OF mem 1] by (auto simp: data_fault_def Let_def split: option.splits)
  next
    case 2
    then show ?thesis
      using receive_passAuth [OF mem 2] by (auto simp: data_fault_def Let_def split: option.splits)
  next
    case 3
    then show ?thesis
      using receive_command [OF mem 3 fresh] by (auto simp: data_fault_def split: option.splits sum.splits)
  next
    case 4
    then show ?thesis
      using receive_unexpected [OF mem 4] by (cases "s_machine s") (simp_all add: data_fault_def)
  qed
qed

lemma read_faults_iff:
  assumes ok: "world_ok w" and s: "sessions w a = Some s" "owns s c"
  shows "handle e (Readable c input copied) w = Inl f \<longleftrightarrow> session_fault e w s (Readable c input copied) = Some f"
proof -
  have mem: "mem_ok w a s"
    using world_okD(1) [OF ok s(1)] .
  obtain k where k: "socks w c = Some k"
    using owned_sock [OF mem s(2)] by auto
  show ?thesis
  proof (cases "\<exists>buf. input = Some buf \<and> copied = length buf")
    case False
    with k show ?thesis
      by (cases input) (auto simp: es_onRead_def)
  next
    case True
    then obtain buf where buf: "input = Some buf" "copied = length buf"
      by blast
    consider "c = s_inConn s" "s_proxy s = None" | "c \<noteq> s_inConn s" "s_proxy s = None"
      | d where "proxying w a s d" "c = s_inConn s \<or> c = d"
      using mem s(2) by (auto simp: owns_def proxying_def mem_ok_def out_ok_def split: option.splits)
    then show ?thesis
    proof cases
      case 1
      then show ?thesis
        using handle_client_data [OF ok s(1) 1(2)] client_data_fault [OF ok s(1)] buf
        by (simp del: handle.simps)
    next
      case 2
      then have "es_user k = Some (USession a)"
        using pending_sock [OF ok s(1) 2(2), of c] k s(2) by (auto simp: owns_def)
      with 2 k buf s(1) show ?thesis
        by (simp add: es_onRead_def session_onReceive_def)
    next
      case 3
      then show ?thesis
        using step_relay [OF 3(1), of e buf] proxyingD(5) [OF 3(1)] buf
        by (auto simp del: handle.simps)
    qed
  qed
qed

section \<open>Events\<close>

text \<open>The addresses, then the user of the connection.\<close>

lemma established_result:
  assumes "socks w c = Some k" "es_user k = Some u"
  shows "es_established e c w =
    (case getAddress (env_order e) (env_sockname e c) of
       Inl f \<Rightarrow> Inl f
     | Inr l \<Rightarrow>
         (case getAddress (env_order e) (env_peername e c) of
            Inl f \<Rightarrow> Inl f
          | Inr r \<Rightarrow> user_onConnected e u
              (w\<lparr>socks := (socks w)(c \<mapsto> k\<lparr>es_local := l, es_remote := r, es_connected := True\<rparr>)\<rparr>)))"
  using assms
  by (auto simp: es_established_def es_updateLocalAddress_def es_updateRemoteAddress_def split: sum.splits)

lemma established_fault_iff:
  assumes ok: "world_ok w" and s: "sessions w a = Some s" "s_outConn s = Some c" and typed: "typed_env e"
  shows "es_established e c w = Inl f \<longleftrightarrow> established_fault e s c = Some f"
proof (cases "s_proxy s")
  case None
  have mem: "mem_ok w a s" and st: "s_machine s = WaitForProxyStart"
    using world_okD(1,2) [OF ok s(1)] s(2) None by (cases "s_machine s"; auto simp: session_phase_def)+
  obtain i m where k: "socks w (s_inConn s) = Some i" "socks w c = Some m" "es_user m = Some (USession a)"
    using client_sock [OF ok s(1) None] pending_sock [OF ok s(1) None s(2)] by blast
  have ne: "c \<noteq> s_inConn s"
    using mem s(2) by (auto simp: mem_ok_def out_ok_def)
  have "user_onConnected e (USession a) (w\<lparr>socks := (socks w)(c \<mapsto> m\<lparr>es_local := l, es_remote := r, es_connected := True\<rparr>)\<rparr>) = Inl f \<longleftrightarrow>
      f = UseAfterFree \<and> \<not> env_add_ok e (s_inConn s) (commandWire (env_order e) RequestGranted (addr_addr l) (addr_port l))"
    if l: "getAddress (env_order e) (env_sockname e c) = Inr l" for l r
  proof -
    let ?w = "w\<lparr>socks := (socks w)(c \<mapsto> m\<lparr>es_local := l, es_remote := r, es_connected := True\<rparr>)\<rparr>"
    have "mem_ok ?w a s"
      using update_mem_ok [OF mem s(2) k(2)] .
    moreover have "wire_variant (addr_addr l)" "variant_type (addr_addr l) = addr_type l"
      using getAddress_wf [OF l] typed by (simp_all add: typed_env_def wf_address_def)
    ultimately show ?thesis
      using session_onConnected_result [of ?w a s c i _ l e] st s(2) None k(1,2) ne by (auto simp: Let_def)
  qed
  then show ?thesis
    unfolding established_result [OF k(2,3)] established_fault_def using None by (auto split: sum.splits)
next
  case (Some p)
  then have p: "proxying w a s c"
    using world_okD(1) [OF ok s(1)] s(2) by (simp add: proxying_def)
  obtain m where m: "socks w c = Some m" "es_user m = Some (UProxy a Out)"
    using proxying_socks(2) [OF p] by blast
  show ?thesis
    unfolding established_result [OF m] established_fault_def
    using Some proxyingD(2,5) [OF p]
    by (auto simp: directed_onConnected_def proxy_onConnected_def split: sum.splits)
qed

lemma dead_sock:
  assumes "socks w c = None"
  shows "es_closed c w = Inl UseAfterFree" "es_established e c w = Inl UseAfterFree"
  using assms by (simp_all add: es_closed_def es_closeConnection_def es_established_def
      es_updateLocalAddress_def get_sock_def)

lemma event_faults_iff:
  assumes ok: "world_ok w" and typed: "typed_env e"
    and s: "sessions w a = Some s" "owns s c" and p: "possible w (SockEvent c events)"
  shows "handle e (SockEvent c events) w = Inl f \<longleftrightarrow> session_fault e w s (SockEvent c events) = Some f"
proof -
  have skip: "skip = (\<lambda>w. Inr w)"
    by (simp add: fun_eq_iff)
  have mem: "mem_ok w a s"
    using world_okD(1) [OF ok s(1)] .
  have live: "socks w c \<noteq> None"
    using p by simp
  show ?thesis
  proof (cases "s_proxy s = None \<and> s_outConn s = Some c")
    case True
    then have ne: "c \<noteq> s_inConn s"
      using mem by (auto simp: mem_ok_def out_ok_def)
    have closed: "es_closed c v = Inr (disconnected c v)" if "world_ok v" "sessions v a = Some s" for v
      using closed_result [OF that s(2)] True ne by simp
    have ok1: "world_ok (disconnected c w)"
      using move_ok [OF ok move.close [OF s(1)]] True by blast
    have est: "es_established e c v = Inl f \<longleftrightarrow> established_fault e s c = Some f"
      if "world_ok v" "sessions v a = Some s" for v
      using established_fault_iff [OF that _ typed] True by blast
    show ?thesis
      using True live closed [OF ok s(1)] closed [OF ok1] est [OF ok s(1)] est [OF ok1] s(1)
      by (cases "events AND BEV_EVENT_EOF = 0"; cases "events AND BEV_EVENT_ERROR = 0";
          cases "events AND BEV_EVENT_CONNECTED = 0") (auto simp: es_onEvent_def skip)
  next
    case False
    then obtain v where v: "es_closed c w = Inr (kill a s v)"
      using closed_result [OF ok s] s(2) by (cases "s_proxy s") (auto simp: owns_def)
    have gone: "socks (kill a s v) c = None"
      using s(2) by (simp add: socks_kill)
    have est: "es_established e c w = Inl f \<longleftrightarrow> established_fault e s c = Some f"
      if up: "events AND BEV_EVENT_CONNECTED \<noteq> 0"
    proof -
      obtain sa where "XConnect c sa \<in> set (calls w)"
        using p up by auto
      then have "s_outConn s = Some c"
        using s(2) world_okD(9) [OF ok s(1)] by (auto simp: owns_def)
      then show ?thesis
        using established_fault_iff [OF ok s(1) _ typed] by blast
    qed
    show ?thesis
      using False live v dead_sock [OF gone] est
      by (cases "events AND BEV_EVENT_EOF = 0"; cases "events AND BEV_EVENT_ERROR = 0";
          cases "events AND BEV_EVENT_CONNECTED = 0") (auto simp: es_onEvent_def skip several_events_def)
  qed
qed

section \<open>Property\<close>



end
