(* ===== verification/ServerSpec.thy ===== *)
theory ServerSpec
  imports Faults
begin

unbundle bit_operations_syntax

text \<open>
  What the server promises, without its objects: clients in five phases, the bytes and connections they see, and
  what each event does to them. The server of the code is an exact implementation: a callback completes
  exactly when the specification has a step for its event, and then it makes this step.
\<close>

section \<open>The specification\<close>

text \<open>
  A client that is connected to another host has the number of that connection in its phase. \<open>users\<close> are
  the accepted logins, \<open>sent\<close> all calls to libevent so far.
\<close>

datatype phase = Greets | LogsIn | Commands | Pending nat | Served nat

record client =
  cl_phase :: phase
  cl_conn :: nat

record server =
  clients :: "nat \<rightharpoonup> client"
  next_client :: nat
  next_conn :: nat
  users :: logins
  sent :: "ext_call list"

text \<open>The calls that close what a client has open.\<close>

definition gone_calls :: "client \<Rightarrow> ext_call list" where
  "gone_calls k =
     (case cl_phase k of
        Pending d \<Rightarrow> [XFreeBev d]
      | Served d \<Rightarrow> [XDisable d, XCloseSocket d, XFreeBev d]
      | _ \<Rightarrow> []) @ [XFreeBev (cl_conn k)]"

definition say :: "ext_call list \<Rightarrow> server \<Rightarrow> server" where
  "say xs t = t\<lparr>sent := sent t @ xs\<rparr>"

definition go :: "nat \<Rightarrow> client \<Rightarrow> phase \<Rightarrow> ext_call list \<Rightarrow> server \<Rightarrow> server" where
  "go a k p xs t = say xs (t\<lparr>clients := (clients t)(a \<mapsto> k\<lparr>cl_phase := p\<rparr>)\<rparr>)"

definition leave :: "nat \<Rightarrow> client \<Rightarrow> ext_call list \<Rightarrow> server \<Rightarrow> server" where
  "leave a k xs t = say (xs @ gone_calls k) (t\<lparr>clients := (clients t)(a := None)\<rparr>)"

text \<open>Data of a connection that could be taken from its buffer completely.\<close>

definition data :: "nat \<Rightarrow> bytes \<Rightarrow> event" where
  "data c buf = Readable c (Some buf) (length buf)"

text \<open>The three messages of a client.\<close>

definition greets :: "byte list \<Rightarrow> bytes \<Rightarrow> bool" where
  "greets ms buf \<longleftrightarrow> buf = greetingWire ms \<and> length ms \<le> 255 \<and> set ms \<subseteq> {NoAuth, AuthGSSAPI, AuthLoginPass}"

definition logs_in :: "bytes \<Rightarrow> bytes \<Rightarrow> bytes \<Rightarrow> bool" where
  "logs_in u p buf \<longleftrightarrow> buf = userPassWire u p \<and> length u \<le> 255 \<and> length p \<le> 255"

definition commands :: "byte_order \<Rightarrow> byte \<Rightarrow> SocksVariantAddress \<Rightarrow> u16 \<Rightarrow> bytes \<Rightarrow> bool" where
  "commands bo c v p buf \<longleftrightarrow> buf = commandWire bo c v p \<and>
     c \<in> {TCPStream, TCPPortBinding, UDPPortBinding} \<and> wire_variant v"

fun target :: "byte_order \<Rightarrow> SocksVariantAddress \<Rightarrow> u16 \<Rightarrow> sockaddr option" where
  "target bo (SocksIPv4Address ip) p = Some (SockAddrIn p (load32 bo ip))"
| "target bo (SocksIPv6Address ip) p = Some (SockAddrIn6 p ip)"
| "target bo (SocksDomainAddress n) p = None"

text \<open>The steps. A client is \<open>k\<close>, its number \<open>a\<close>.\<close>

inductive serve :: "env \<Rightarrow> event \<Rightarrow> server \<Rightarrow> server \<Rightarrow> bool" for e where
  accept: "env_bev_new e \<Longrightarrow>
     serve e Accepted t (say [XNewBev (next_conn t)]
       (t\<lparr>clients := (clients t)(next_client t \<mapsto> \<lparr>cl_phase = Greets, cl_conn = next_conn t\<rparr>),
          next_client := next_client t + 1, next_conn := next_conn t + 1\<rparr>))"
| interrupt: "serve e (SignalRaised SIGINT) t (say [XLoopBreak] t)"
| ignored_signal: "n \<noteq> SIGINT \<Longrightarrow> serve e (SignalRaised n) t t"
| written: "serve e (Writable c) t t"
| not_read: "\<nexists>buf. input = Some buf \<and> copied = length buf \<Longrightarrow> serve e (Readable c input copied) t t"
| offer: "clients t a = Some k \<Longrightarrow> cl_phase k = Greets \<Longrightarrow> greets ms buf \<Longrightarrow> AuthLoginPass \<in> set ms \<Longrightarrow>
     env_add_ok e (cl_conn k) [Version5, AuthLoginPass] \<Longrightarrow>
     serve e (data (cl_conn k) buf) t (go a k LogsIn [XQueue (cl_conn k) [Version5, AuthLoginPass]] t)"
| refuse: "clients t a = Some k \<Longrightarrow> cl_phase k = Greets \<Longrightarrow> greets ms buf \<Longrightarrow> AuthLoginPass \<notin> set ms \<Longrightarrow>
     env_add_ok e (cl_conn k) [Version5, NoAvailableMethod] \<Longrightarrow>
     serve e (data (cl_conn k) buf) t (leave a k [XQueue (cl_conn k) [Version5, NoAvailableMethod]] t)"
| no_greeting: "clients t a = Some k \<Longrightarrow> cl_phase k = Greets \<Longrightarrow> \<nexists>ms. greets ms buf \<Longrightarrow>
     serve e (data (cl_conn k) buf) t (leave a k [] t)"
| login: "clients t a = Some k \<Longrightarrow> cl_phase k = LogsIn \<Longrightarrow> logs_in u p buf \<Longrightarrow> users t u = Some p \<Longrightarrow>
     env_add_ok e (cl_conn k) [Version5, 0] \<Longrightarrow>
     serve e (data (cl_conn k) buf) t (go a k Commands [XQueue (cl_conn k) [Version5, 0]] t)"
| login_unheard: "clients t a = Some k \<Longrightarrow> cl_phase k = LogsIn \<Longrightarrow> logs_in u p buf \<Longrightarrow> users t u = Some p \<Longrightarrow>
     \<not> env_add_ok e (cl_conn k) [Version5, 0] \<Longrightarrow>
     serve e (data (cl_conn k) buf) t (leave a k [] t)"
| wrong_login: "clients t a = Some k \<Longrightarrow> cl_phase k = LogsIn \<Longrightarrow> logs_in u p buf \<Longrightarrow> users t u \<noteq> Some p \<Longrightarrow>
     env_add_ok e (cl_conn k) [Version5, 1] \<Longrightarrow>
     serve e (data (cl_conn k) buf) t (leave a k [XQueue (cl_conn k) [Version5, 1]] t)"
| no_login: "clients t a = Some k \<Longrightarrow> cl_phase k = LogsIn \<Longrightarrow> \<nexists>u p. logs_in u p buf \<Longrightarrow>
     serve e (data (cl_conn k) buf) t (leave a k [] t)"
| command: "clients t a = Some k \<Longrightarrow> cl_phase k = Commands \<Longrightarrow> commands (env_order e) TCPStream v p buf \<Longrightarrow>
     target (env_order e) v p = Some sa \<Longrightarrow> env_bev_new e \<Longrightarrow> env_connect_ok e (next_conn t) sa \<Longrightarrow>
     serve e (data (cl_conn k) buf) t
       (go a k (Pending (next_conn t)) [XNewBev (next_conn t), XConnect (next_conn t) sa]
         (t\<lparr>next_conn := next_conn t + 1\<rparr>))"
| no_command: "clients t a = Some k \<Longrightarrow> cl_phase k = Commands \<Longrightarrow> \<nexists>c v p. commands (env_order e) c v p buf \<Longrightarrow>
     serve e (data (cl_conn k) buf) t (leave a k [] t)"
| too_early: "clients t a = Some k \<Longrightarrow> cl_phase k = Pending d \<Longrightarrow>
     serve e (data (cl_conn k) buf) t (leave a k [] t)"
| pending_data: "clients t a = Some k \<Longrightarrow> cl_phase k = Pending d \<Longrightarrow> serve e (data d buf) t t"
| relay_out: "clients t a = Some k \<Longrightarrow> cl_phase k = Served d \<Longrightarrow>
     serve e (data (cl_conn k) buf) t (if env_add_ok e d buf then say [XQueue d buf] t else t)"
| relay_in: "clients t a = Some k \<Longrightarrow> cl_phase k = Served d \<Longrightarrow>
     serve e (data d buf) t (if env_add_ok e (cl_conn k) buf then say [XQueue (cl_conn k) buf] t else t)"
| established: "clients t a = Some k \<Longrightarrow> cl_phase k = Pending d \<Longrightarrow> events AND BEV_EVENT_CONNECTED \<noteq> 0 \<Longrightarrow>
     getAddress (env_order e) (env_sockname e d) = Inr l \<Longrightarrow> getAddress (env_order e) (env_peername e d) = Inr r \<Longrightarrow>
     reply = commandWire (env_order e) RequestGranted (addr_addr l) (addr_port l) \<Longrightarrow>
     env_add_ok e (cl_conn k) reply \<Longrightarrow>
     serve e (SockEvent d events) t (go a k (Served d) [XQueue (cl_conn k) reply] t)"
| pending_event: "clients t a = Some k \<Longrightarrow> cl_phase k = Pending d \<Longrightarrow> events AND BEV_EVENT_CONNECTED = 0 \<Longrightarrow>
     serve e (SockEvent d events) t t"
| ends: "clients t a = Some k \<Longrightarrow> c = cl_conn k \<or> cl_phase k = Served c \<Longrightarrow> closing events \<Longrightarrow>
     serve e (SockEvent c events) t (leave a k [] t)"
| established_again: "clients t a = Some k \<Longrightarrow> cl_phase k = Served d \<Longrightarrow> events AND BEV_EVENT_CONNECTED \<noteq> 0 \<Longrightarrow>
     events AND BEV_EVENT_EOF = 0 \<Longrightarrow> events AND BEV_EVENT_ERROR = 0 \<Longrightarrow>
     getAddress (env_order e) (env_sockname e d) = Inr l \<Longrightarrow> getAddress (env_order e) (env_peername e d) = Inr r \<Longrightarrow>
     serve e (SockEvent d events) t t"
| other_event: "clients t a = Some k \<Longrightarrow> c = cl_conn k \<or> cl_phase k = Served c \<Longrightarrow>
     events AND BEV_EVENT_CONNECTED = 0 \<Longrightarrow> events AND BEV_EVENT_EOF = 0 \<Longrightarrow> events AND BEV_EVENT_ERROR = 0 \<Longrightarrow>
     serve e (SockEvent c events) t t"

section \<open>The abstraction\<close>

text \<open>
  Of a session the phase and the client's connection count; the identifier, the pointers and their use counts,
  the users of the connections and the two tables are means of the implementation.
\<close>

definition abs_phase :: "session \<Rightarrow> phase" where
  "abs_phase s =
     (case s_machine s of
        WaitForGreeting \<Rightarrow> Greets
      | WaitForPassAuth \<Rightarrow> LogsIn
      | WaitForCommand \<Rightarrow> Commands
      | WaitForProxyStart \<Rightarrow> Pending (the (s_outConn s))
      | _ \<Rightarrow> Served (the (s_outConn s)))"

definition abs_client :: "session \<Rightarrow> client" where
  "abs_client s = \<lparr>cl_phase = abs_phase s, cl_conn = s_inConn s\<rparr>"

definition abs_world :: "world \<Rightarrow> server" where
  "abs_world w =
     \<lparr>clients = (\<lambda>a. map_option abs_client (sessions w a)), next_client = next_session w, next_conn = next_sock w,
      users = mng_logins w, sent = calls w\<rparr>"

text \<open>The flag of an outgoing connection follows the phase of its session.\<close>

definition flags_ok :: "world \<Rightarrow> bool" where
  "flags_ok w \<longleftrightarrow> (\<forall>a s c k. sessions w a = Some s \<longrightarrow> s_outConn s = Some c \<longrightarrow> socks w c = Some k \<longrightarrow>
     es_connected k = (s_proxy s \<noteq> None))"

lemma flags_okD:
  "flags_ok w \<Longrightarrow> sessions w a = Some s \<Longrightarrow> s_outConn s = Some c \<Longrightarrow> socks w c = Some k \<Longrightarrow>
     es_connected k \<longleftrightarrow> s_proxy s \<noteq> None"
  by (auto simp: flags_ok_def)

lemma abs_sels [simp]:
  "clients (abs_world w) a = map_option abs_client (sessions w a)" "next_client (abs_world w) = next_session w"
  "next_conn (abs_world w) = next_sock w" "users (abs_world w) = mng_logins w" "sent (abs_world w) = calls w"
  "cl_conn (abs_client s) = s_inConn s" "cl_phase (abs_client s) = abs_phase s"
  by (simp_all add: abs_world_def abs_client_def)

lemma abs_worldI:
  assumes "\<And>a. map_option abs_client (sessions w a) = clients t a" "next_session w = next_client t"
    "next_sock w = next_conn t" "mng_logins w = users t" "calls w = sent t"
  shows "abs_world w = t"
  using assms by (intro server.equality) (auto simp: fun_eq_iff)

text \<open>The phases of the clients in a world that satisfies the invariant.\<close>

lemma abs_phase_iff:
  assumes "world_ok w" "sessions w a = Some s"
  shows "abs_phase s = Greets \<longleftrightarrow> s_machine s = WaitForGreeting"
    "abs_phase s = LogsIn \<longleftrightarrow> s_machine s = WaitForPassAuth"
    "abs_phase s = Commands \<longleftrightarrow> s_machine s = WaitForCommand"
    "abs_phase s = Pending d \<longleftrightarrow> s_machine s = WaitForProxyStart \<and> s_outConn s = Some d"
    "abs_phase s = Served d \<longleftrightarrow> proxying w a s d"
  using world_okD(1,2) [OF assms]
  by (cases "s_machine s"; auto simp: abs_phase_def session_phase_def proxying_def mem_ok_def out_ok_def
      split: option.splits)+

lemma phase_cases:
  assumes "world_ok w" "sessions w a = Some s"
  obtains (greets) "abs_phase s = Greets" "s_machine s = WaitForGreeting" "s_outConn s = None" "s_proxy s = None"
  | (logs_in) "abs_phase s = LogsIn" "s_machine s = WaitForPassAuth" "s_outConn s = None" "s_proxy s = None"
  | (commands) "abs_phase s = Commands" "s_machine s = WaitForCommand" "s_outConn s = None" "s_proxy s = None"
  | (pending) d where "abs_phase s = Pending d" "s_machine s = WaitForProxyStart" "s_outConn s = Some d"
      "s_proxy s = None" "d \<noteq> s_inConn s"
  | (served) d where "abs_phase s = Served d" "proxying w a s d"
proof (cases "s_machine s")
  case ProxyStarted
  with started_proxying [OF assms] obtain d where "proxying w a s d" by blast
  then show ?thesis
    using served abs_phase_iff(5) [OF assms] by blast
qed (use assms that world_okD(1,2) [OF assms] in
  \<open>auto simp: abs_phase_def session_phase_def mem_ok_def out_ok_def\<close>)

section \<open>The results of the handlers, abstractly\<close>

definition does :: "env \<Rightarrow> event \<Rightarrow> world \<Rightarrow> server \<Rightarrow> bool" where
  "does e ev w t \<longleftrightarrow> (\<exists>w'. handle e ev w = Inr w' \<and> abs_world w' = t \<and> flags_ok w')"

lemma doesI: "handle e ev w = Inr w' \<Longrightarrow> abs_world w' = t \<Longrightarrow> flags_ok w' \<Longrightarrow> does e ev w t"
  unfolding does_def by blast

lemma does_same: "handle e ev w = Inr w \<Longrightarrow> flags_ok w \<Longrightarrow> does e ev w (abs_world w)"
  by (rule doesI) simp_all

lemma abs_queued: "abs_world (queued c buf w) = say [XQueue c buf] (abs_world w)"
  by (rule abs_worldI) (simp_all add: say_def)

lemma abs_machine: "abs_world (with_machine m a s (queued c buf w)) =
    go a (abs_client s) (abs_phase (s\<lparr>s_machine := m\<rparr>)) [XQueue c buf] (abs_world w)"
  by (rule abs_worldI) (simp_all add: say_def go_def abs_client_def)

text \<open>Only a served session has a connection that is marked connected.\<close>

lemma kill_calls_gone:
  assumes ok: "world_ok w" and s: "sessions w a = Some s" and flags: "flags_ok w"
  shows "kill_calls w s = gone_calls (abs_client s)"
  using ok s
proof (cases rule: phase_cases)
  case (pending d)
  then show ?thesis
    by (simp add: kill_calls_def gone_calls_def)
next
  case (served d)
  obtain k where "socks w d = Some k"
    using proxyingD(7) [OF served(2)] by blast
  with served proxyingD(3,5) [OF served(2)] flags_okD [OF flags s] show ?thesis
    by (simp add: kill_calls_def gone_calls_def)
qed (simp_all add: kill_calls_def gone_calls_def)

lemma kill_calls_queued [simp]: "kill_calls (queued c buf w) s = kill_calls w s"
  by (simp add: kill_calls_def split: option.split)

lemma abs_kill:
  assumes "world_ok w" "sessions w a = Some s" "flags_ok w"
  shows "abs_world (kill a s w) = leave a (abs_client s) [] (abs_world w)"
    "abs_world (kill a s (queued c buf w)) = leave a (abs_client s) [XQueue c buf] (abs_world w)"
  using kill_calls_gone [OF assms]
  by (auto intro!: abs_worldI simp: leave_def say_def kill_def)

text \<open>A served session whose connection is closed first is left with the same calls.\<close>

lemma abs_kill_disconnected:
  assumes ok: "world_ok w" and p: "proxying w a s d" and flags: "flags_ok w"
  shows "abs_world (kill a s (disconnected d w)) = leave a (abs_client s) [] (abs_world w)"
proof -
  note s = proxyingD(2,3) [OF p]
  obtain k where "socks w d = Some k"
    using proxyingD(7) [OF p] by blast
  with flags_okD [OF flags s this] proxyingD(5) [OF p]
  have "calls (kill a s (disconnected d w)) = calls w @ [XDisable d, XCloseSocket d, XFreeBev d, XFreeBev (s_inConn s)]"
    by (simp add: kill_def kill_calls_def disconnected_def s)
  moreover have "abs_phase s = Served d"
    using abs_phase_iff(5) [OF ok s(1)] p by simp
  ultimately show ?thesis
    by (intro abs_worldI) (auto simp: leave_def say_def gone_calls_def)
qed

section \<open>The flags\<close>

lemma flags_queued [simp]: "flags_ok (queued c buf w) = flags_ok w"
  by (simp add: flags_ok_def)

lemma flags_machine: "sessions w a = Some s \<Longrightarrow> flags_ok w \<Longrightarrow> flags_ok (with_machine m a s w)"
  by (auto simp: flags_ok_def)

lemma flags_kill: "flags_ok w \<Longrightarrow> flags_ok (kill a s w)"
  by (auto simp: flags_ok_def socks_kill split: if_splits)

lemma flags_kill_disconnected: "flags_ok w \<Longrightarrow> s_outConn s = Some d \<Longrightarrow> flags_ok (kill a s (disconnected d w))"
  by (auto simp: flags_ok_def socks_kill socks_disconnected owns_def split: if_splits)

text \<open>A change to one session.\<close>

lemma flags_kept:
  assumes flags: "flags_ok w" and kept: "others_kept a w w'"
    and own: "\<And>s c k. sessions w' a = Some s \<Longrightarrow> s_outConn s = Some c \<Longrightarrow> socks w' c = Some k \<Longrightarrow>
      es_connected k \<longleftrightarrow> s_proxy s \<noteq> None"
  shows "flags_ok w'"
proof -
  have "es_connected k \<longleftrightarrow> s_proxy t \<noteq> None"
    if "sessions w' b = Some t" "s_outConn t = Some c" "socks w' c = Some k" for b t c k
  proof (cases "b = a")
    case True
    then show ?thesis using own that by blast
  next
    case False
    then have t: "sessions w b = Some t"
      using others_keptD [OF kept] that(1) by simp
    then have "socks w' c = socks w c"
      using kept False that(2) by (auto simp: others_kept_def owns_def)
    then show ?thesis
      using flags_okD [OF flags t that(2)] that(3) by simp
  qed
  then show ?thesis
    unfolding flags_ok_def by blast
qed

section \<open>Every step of the specification is made\<close>

text \<open>The messages the decoders accept.\<close>

lemma greets_accepted:
  "accepted (decodeGreeting buf newGreetingMsg) = Some m \<longleftrightarrow>
     (\<exists>ms. greets ms buf \<and> m = \<lparr>gm_version = Version5, gm_authMethods = ms\<rparr>)"
  by (auto simp: accepted_eq_Some greeting_iff greets_def)

lemma logs_in_accepted:
  "accepted (decodeUserPass buf newUserPassAuthMsg) = Some m \<longleftrightarrow>
     (\<exists>u p. logs_in u p buf \<and> m = \<lparr>up_user = u, up_password = p\<rparr>)"
  by (auto simp: accepted_eq_Some userPass_iff logs_in_def)

lemma auth_iff: "authUserPassword m u p \<longleftrightarrow> m u = Some p"
  by (auto simp: authUserPassword_def split: option.splits)

text \<open>Data of a client that is not served.\<close>

lemma does_greeting:
  assumes ok: "world_ok w" and flags: "flags_ok w" and s: "sessions w a = Some s" and st: "abs_phase s = Greets"
  shows "greets ms buf \<Longrightarrow> AuthLoginPass \<in> set ms \<Longrightarrow> env_add_ok e (s_inConn s) [Version5, AuthLoginPass] \<Longrightarrow>
      does e (data (s_inConn s) buf) w
        (go a (abs_client s) LogsIn [XQueue (s_inConn s) [Version5, AuthLoginPass]] (abs_world w))"
    "greets ms buf \<Longrightarrow> AuthLoginPass \<notin> set ms \<Longrightarrow> env_add_ok e (s_inConn s) [Version5, NoAvailableMethod] \<Longrightarrow>
      does e (data (s_inConn s) buf) w
        (leave a (abs_client s) [XQueue (s_inConn s) [Version5, NoAvailableMethod]] (abs_world w))"
    "\<nexists>ms. greets ms buf \<Longrightarrow> does e (data (s_inConn s) buf) w (leave a (abs_client s) [] (abs_world w))"
proof -
  have m: "s_machine s = WaitForGreeting"
    using st abs_phase_iff(1) [OF ok s] by simp
  have h: "handle e (data (s_inConn s) buf) w = tracker_onReceive e a buf w"
    using handle_client_data [OF ok s] unproxied(1) [OF ok s] m by (simp add: data_def)
  note r = receive_greeting [OF world_okD(1) [OF ok s] m, of e buf, folded h]
  have dec: "accepted (decodeGreeting buf newGreetingMsg) = Some \<lparr>gm_version = Version5, gm_authMethods = ms\<rparr>"
    if "greets ms buf" for ms
    using that by (auto simp: greets_accepted)
  have none: "accepted (decodeGreeting buf newGreetingMsg) = None" if "\<nexists>ms. greets ms buf"
    using that by (cases "accepted (decodeGreeting buf newGreetingMsg)") (auto simp: greets_accepted)
  have ph: "abs_phase (s\<lparr>s_machine := WaitForPassAuth\<rparr>) = LogsIn"
    by (simp add: abs_phase_def)
  show "does e (data (s_inConn s) buf) w
        (go a (abs_client s) LogsIn [XQueue (s_inConn s) [Version5, AuthLoginPass]] (abs_world w))"
    if "greets ms buf" "AuthLoginPass \<in> set ms" "env_add_ok e (s_inConn s) [Version5, AuthLoginPass]"
    using r dec [OF that(1)] that(2,3) flags s
    by (intro doesI [OF _ abs_machine [of WaitForPassAuth a s, unfolded ph]]) (simp_all add: flags_machine)
  show "does e (data (s_inConn s) buf) w
        (leave a (abs_client s) [XQueue (s_inConn s) [Version5, NoAvailableMethod]] (abs_world w))"
    if "greets ms buf" "AuthLoginPass \<notin> set ms" "env_add_ok e (s_inConn s) [Version5, NoAvailableMethod]"
    using r dec [OF that(1)] that(2,3) flags
    by (intro doesI [OF _ abs_kill(2) [OF ok s flags]]) (simp_all add: flags_kill)
  show "does e (data (s_inConn s) buf) w (leave a (abs_client s) [] (abs_world w))" if "\<nexists>ms. greets ms buf"
    using r none [OF that] flags
    by (intro doesI [OF _ abs_kill(1) [OF ok s flags]]) (simp_all add: flags_kill)
qed

lemma does_login:
  assumes ok: "world_ok w" and flags: "flags_ok w" and s: "sessions w a = Some s" and st: "abs_phase s = LogsIn"
  shows "logs_in u p buf \<Longrightarrow> mng_logins w u = Some p \<Longrightarrow> env_add_ok e (s_inConn s) [Version5, 0] \<Longrightarrow>
      does e (data (s_inConn s) buf) w (go a (abs_client s) Commands [XQueue (s_inConn s) [Version5, 0]] (abs_world w))"
    "logs_in u p buf \<Longrightarrow> mng_logins w u = Some p \<Longrightarrow> \<not> env_add_ok e (s_inConn s) [Version5, 0] \<Longrightarrow>
      does e (data (s_inConn s) buf) w (leave a (abs_client s) [] (abs_world w))"
    "logs_in u p buf \<Longrightarrow> mng_logins w u \<noteq> Some p \<Longrightarrow> env_add_ok e (s_inConn s) [Version5, 1] \<Longrightarrow>
      does e (data (s_inConn s) buf) w (leave a (abs_client s) [XQueue (s_inConn s) [Version5, 1]] (abs_world w))"
    "\<nexists>u p. logs_in u p buf \<Longrightarrow> does e (data (s_inConn s) buf) w (leave a (abs_client s) [] (abs_world w))"
proof -
  have m: "s_machine s = WaitForPassAuth"
    using st abs_phase_iff(2) [OF ok s] by simp
  have h: "handle e (data (s_inConn s) buf) w = tracker_onReceive e a buf w"
    using handle_client_data [OF ok s] unproxied(1) [OF ok s] m by (simp add: data_def)
  note r = receive_passAuth [OF world_okD(1) [OF ok s] m, of e buf, folded h]
  have dec: "accepted (decodeUserPass buf newUserPassAuthMsg) = Some \<lparr>up_user = u, up_password = p\<rparr>"
    if "logs_in u p buf" for u p
    using that by (auto simp: logs_in_accepted)
  have none: "accepted (decodeUserPass buf newUserPassAuthMsg) = None" if "\<nexists>u p. logs_in u p buf"
    using that by (cases "accepted (decodeUserPass buf newUserPassAuthMsg)") (auto simp: logs_in_accepted)
  have ph: "abs_phase (s\<lparr>s_machine := WaitForCommand\<rparr>) = Commands"
    by (simp add: abs_phase_def)
  show "does e (data (s_inConn s) buf) w (go a (abs_client s) Commands [XQueue (s_inConn s) [Version5, 0]] (abs_world w))"
    if "logs_in u p buf" "mng_logins w u = Some p" "env_add_ok e (s_inConn s) [Version5, 0]"
    using r dec [OF that(1)] that(2,3) flags s
    by (intro doesI [OF _ abs_machine [of WaitForCommand a s, unfolded ph]]) (simp_all add: flags_machine auth_iff)
  show "does e (data (s_inConn s) buf) w (leave a (abs_client s) [XQueue (s_inConn s) [Version5, 1]] (abs_world w))"
    if "logs_in u p buf" "mng_logins w u \<noteq> Some p" "env_add_ok e (s_inConn s) [Version5, 1]"
    using r dec [OF that(1)] that(2,3) flags
    by (intro doesI [OF _ abs_kill(2) [OF ok s flags]]) (simp_all add: flags_kill auth_iff)
  show "does e (data (s_inConn s) buf) w (leave a (abs_client s) [] (abs_world w))"
    if "logs_in u p buf" "mng_logins w u = Some p" "\<not> env_add_ok e (s_inConn s) [Version5, 0]"
    using r dec [OF that(1)] that(2,3) flags
    by (intro doesI [OF _ abs_kill(1) [OF ok s flags]]) (simp_all add: flags_kill auth_iff)
  show "does e (data (s_inConn s) buf) w (leave a (abs_client s) [] (abs_world w))" if "\<nexists>u p. logs_in u p buf"
    using r none [OF that] flags
    by (intro doesI [OF _ abs_kill(1) [OF ok s flags]]) (simp_all add: flags_kill)
qed

text \<open>The address of a command.\<close>

lemma target_wf:
  assumes "wire_variant v"
  shows "convertAddrToStorage bo \<lparr>addr_type = variant_type v, addr_addr = v, addr_port = p\<rparr> = Inr (target bo v p)"
  using assms by (cases v) (auto simp: convertAddrToStorage_wf wf_address_def)

lemma commands_accepted:
  "accepted (decodeCommand bo buf newCommandMsg) = Some m \<longleftrightarrow>
     (\<exists>c v p. commands bo c v p buf \<and>
       m = \<lparr>cm_version = Version5, cm_command = c, cm_addrType = variant_type v, cm_addr = v, cm_port = p\<rparr>)"
proof
  assume "accepted (decodeCommand bo buf newCommandMsg) = Some m"
  then have "decodeCommand bo buf newCommandMsg = Inr (True, m)"
    by (simp add: accepted_eq_Some)
  from decodeCommand_accepts_only_wire [OF this]
  show "\<exists>c v p. commands bo c v p buf \<and>
       m = \<lparr>cm_version = Version5, cm_command = c, cm_addrType = variant_type v, cm_addr = v, cm_port = p\<rparr>"
    by (auto simp: commands_def isCommandExist_iff)
next
  assume "\<exists>c v p. commands bo c v p buf \<and>
       m = \<lparr>cm_version = Version5, cm_command = c, cm_addrType = variant_type v, cm_addr = v, cm_port = p\<rparr>"
  then show "accepted (decodeCommand bo buf newCommandMsg) = Some m"
    by (auto simp: commands_def accepted_eq_Some decodeCommand_wire isCommandExist_iff)
qed

lemma does_command:
  assumes ok: "world_ok w" and flags: "flags_ok w" and s: "sessions w a = Some s" and st: "abs_phase s = Commands"
  shows "commands (env_order e) TCPStream v p buf \<Longrightarrow> target (env_order e) v p = Some sa \<Longrightarrow> env_bev_new e \<Longrightarrow>
      env_connect_ok e (next_sock w) sa \<Longrightarrow>
      does e (data (s_inConn s) buf) w (go a (abs_client s) (Pending (next_sock w))
        [XNewBev (next_sock w), XConnect (next_sock w) sa] ((abs_world w)\<lparr>next_conn := next_sock w + 1\<rparr>))"
    "\<nexists>c v p. commands (env_order e) c v p buf \<Longrightarrow>
      does e (data (s_inConn s) buf) w (leave a (abs_client s) [] (abs_world w))"
proof -
  have m: "s_machine s = WaitForCommand"
    using st abs_phase_iff(3) [OF ok s] by simp
  have np: "s_proxy s = None" "s_outConn s = None"
    using unproxied [OF ok s] m by simp_all
  have fresh: "socks w (next_sock w) = None"
    using world_okD(5) [OF ok] by simp
  have h: "handle e (data (s_inConn s) buf) w = tracker_onReceive e a buf w"
    using handle_client_data [OF ok s np(1)] by (simp add: data_def)
  note r = receive_command [OF world_okD(1) [OF ok s] m np(2) fresh, of e buf, folded h]
  show "does e (data (s_inConn s) buf) w (go a (abs_client s) (Pending (next_sock w))
        [XNewBev (next_sock w), XConnect (next_sock w) sa] ((abs_world w)\<lparr>next_conn := next_sock w + 1\<rparr>))"
    if c: "commands (env_order e) TCPStream v p buf" and t: "target (env_order e) v p = Some sa"
      and e: "env_bev_new e" "env_connect_ok e (next_sock w) sa"
  proof -
    let ?m = "\<lparr>cm_version = Version5, cm_command = TCPStream, cm_addrType = variant_type v, cm_addr = v, cm_port = p\<rparr>"
    let ?w = "connecting a (s\<lparr>s_machine := WaitForProxyStart\<rparr>) (command_address ?m) sa (with_machine WaitForProxyStart a s w)"
    have "accepted (decodeCommand (env_order e) buf newCommandMsg) = Some ?m"
      using c by (auto simp: commands_accepted)
    moreover have "convertAddrToStorage (env_order e) (command_address ?m) = Inr (Some sa)"
      using target_wf [of v] t c by (simp add: command_address_def commands_def)
    ultimately have "handle e (data (s_inConn s) buf) w = Inr ?w"
      using r e by simp
    moreover have "flags_ok ?w"
      using np connecting_ok [OF ok s m refl]
      by (intro flags_kept [OF flags, where a = a]) (auto simp: connecting_def Let_def)
    moreover have "abs_world ?w = go a (abs_client s) (Pending (next_sock w))
        [XNewBev (next_sock w), XConnect (next_sock w) sa] ((abs_world w)\<lparr>next_conn := next_sock w + 1\<rparr>)"
      by (rule abs_worldI) (simp_all add: go_def say_def connecting_def Let_def abs_client_def abs_phase_def)
    ultimately show ?thesis
      by (intro doesI)
  qed
  show "does e (data (s_inConn s) buf) w (leave a (abs_client s) [] (abs_world w))"
    if "\<nexists>c v p. commands (env_order e) c v p buf"
  proof -
    have "accepted (decodeCommand (env_order e) buf newCommandMsg) = None"
      using that by (cases "accepted (decodeCommand (env_order e) buf newCommandMsg)") (auto simp: commands_accepted)
    then show ?thesis
      using r flags by (intro doesI [OF _ abs_kill(1) [OF ok s flags]]) (simp_all add: flags_kill)
  qed
qed

text \<open>Data while the outgoing connection is not established, and relayed data.\<close>

lemma does_pending_data:
  assumes ok: "world_ok w" and flags: "flags_ok w" and s: "sessions w a = Some s" and st: "abs_phase s = Pending d"
  shows "does e (data (s_inConn s) buf) w (leave a (abs_client s) [] (abs_world w))"
    "does e (data d buf) w (abs_world w)"
proof -
  have m: "s_machine s = WaitForProxyStart" "s_outConn s = Some d" and np: "s_proxy s = None"
    using st abs_phase_iff(4) [OF ok s] world_okD(2) [OF ok s] by (auto simp: session_phase_def)
  have "handle e (data (s_inConn s) buf) w = Inr (kill a s w)"
    using handle_client_data [OF ok s np] receive_unexpected [OF world_okD(1) [OF ok s], of e buf] m
    by (simp add: data_def)
  then show "does e (data (s_inConn s) buf) w (leave a (abs_client s) [] (abs_world w))"
    using abs_kill(1) [OF ok s flags] flags_kill [OF flags] by (rule doesI)
  show "does e (data d buf) w (abs_world w)"
    using pending_sock [OF ok s np m(2)] s flags
    by (intro does_same) (auto simp: data_def es_onRead_def session_onReceive_def)
qed

lemma does_relay:
  assumes flags: "flags_ok w" and p: "proxying w a s d"
  shows "does e (data (s_inConn s) buf) w
      (if env_add_ok e d buf then say [XQueue d buf] (abs_world w) else abs_world w)"
    "does e (data d buf) w
      (if env_add_ok e (s_inConn s) buf then say [XQueue (s_inConn s) buf] (abs_world w) else abs_world w)"
  using step_relay [OF p, of e buf] flags
  by (auto simp: data_def abs_queued intro!: doesI simp del: handle.simps)

text \<open>Events.\<close>

lemma disconnected_pending:
  assumes ok: "world_ok w" and flags: "flags_ok w" and s: "sessions w a = Some s" "s_outConn s = Some d" "s_proxy s = None"
  shows "disconnected d w = w"
  using pending_sock [OF ok s(1,3,2)] flags_okD [OF flags s(1,2)] s(3) by auto

lemma pending_events:
  assumes ok: "world_ok w" and flags: "flags_ok w" and s: "sessions w a = Some s" "s_outConn s = Some d" "s_proxy s = None"
  shows "handle e (SockEvent d events) w =
    (if events AND BEV_EVENT_CONNECTED = 0 then Inr w else es_established e d w)"
proof -
  have own: "owns s d" and "d \<noteq> s_inConn s"
    using s world_okD(1) [OF ok s(1)] by (auto simp: owns_def mem_ok_def out_ok_def)
  then have closed: "es_closed d w = Inr w"
    using closed_result [OF ok s(1) own] disconnected_pending [OF ok flags s] s(3) by simp
  have skip: "skip = (\<lambda>w. Inr w)"
    by (simp add: fun_eq_iff)
  obtain k where k: "socks w d = Some k"
    using pending_sock [OF ok s(1,3,2)] by blast
  show ?thesis
    using closed k
    by (cases "events AND BEV_EVENT_EOF = 0"; cases "events AND BEV_EVENT_ERROR = 0";
        cases "events AND BEV_EVENT_CONNECTED = 0") (simp_all add: es_onEvent_def skip)
qed

lemma does_established:
  assumes ok: "world_ok w" and flags: "flags_ok w" and s: "sessions w a = Some s" and st: "abs_phase s = Pending d"
    and typed: "typed_env e" and up: "events AND BEV_EVENT_CONNECTED \<noteq> 0"
    and l: "getAddress (env_order e) (env_sockname e d) = Inr l"
    and r: "getAddress (env_order e) (env_peername e d) = Inr r"
    and reply: "reply = commandWire (env_order e) RequestGranted (addr_addr l) (addr_port l)"
    and add: "env_add_ok e (s_inConn s) reply"
  shows "does e (SockEvent d events) w (go a (abs_client s) (Served d) [XQueue (s_inConn s) reply] (abs_world w))"
proof -
  have m: "s_machine s = WaitForProxyStart" "s_outConn s = Some d" and np: "s_proxy s = None"
    using st abs_phase_iff(4) [OF ok s] world_okD(2) [OF ok s] by (auto simp: session_phase_def)
  obtain i k where i: "socks w (s_inConn s) = Some i" and k: "socks w d = Some k"
    using client_sock [OF ok s np] pending_sock [OF ok s np m(2)] by blast
  have ne: "d \<noteq> s_inConn s"
    using world_okD(1) [OF ok s] m(2) by (auto simp: mem_ok_def out_ok_def)
  let ?k = "k\<lparr>es_local := l, es_remote := r, es_connected := True\<rparr>"
  let ?u = "w\<lparr>socks := (socks w)(d \<mapsto> ?k)\<rparr>"
  let ?w = "proxied a s d i ?k (queued (s_inConn s) reply ?u)"
  have "handle e (SockEvent d BEV_EVENT_CONNECTED) w = es_established e d w"
    using pending_events [OF ok flags s m(2) np, of e BEV_EVENT_CONNECTED] by simp
  moreover have "handle e (SockEvent d BEV_EVENT_CONNECTED) w = Inr ?w"
    using step_connected [OF ok s m(1,2) np i k l r typed] add reply by (simp add: Let_def)
  ultimately have h: "handle e (SockEvent d events) w = Inr ?w"
    using pending_events [OF ok flags s m(2) np, of e events] up by simp
  have "flags_ok ?w"
  proof (rule flags_kept [OF flags])
    have "(move e (SockEvent d events) a)\<^sup>*\<^sup>* w ?u"
      using move.update [OF s m(2) k] by (rule r_into_rtranclp)
    moreover have "(move e (SockEvent d events) a)\<^sup>*\<^sup>* ?u (queued (s_inConn s) reply ?u)"
      using s by (intro queue_moves) (auto simp: owns_def)
    moreover have "move e (SockEvent d events) a (queued (s_inConn s) reply ?u) ?w"
      using s m i ne by (intro move.relay) simp_all
    ultimately have "(move e (SockEvent d events) a)\<^sup>*\<^sup>* w ?w"
      by (meson rtranclp_trans rtranclp.rtrancl_into_rtrancl)
    then show "others_kept a w ?w"
      using moves_ok ok by blast
    show "es_connected q \<longleftrightarrow> s_proxy t \<noteq> None"
      if "sessions ?w a = Some t" "s_outConn t = Some c" "socks ?w c = Some q" for t c q
      using that m(2) by (auto simp: proxied_def)
  qed
  moreover have "abs_world ?w = go a (abs_client s) (Served d) [XQueue (s_inConn s) reply] (abs_world w)"
    by (rule abs_worldI) (simp_all add: proxied_def go_def say_def abs_client_def abs_phase_def m(2))
  ultimately show ?thesis
    using h by (intro doesI)
qed

lemma does_established_again:
  assumes ok: "world_ok w" and flags: "flags_ok w" and p: "proxying w a s d"
    and events: "events AND BEV_EVENT_CONNECTED \<noteq> 0" "events AND BEV_EVENT_EOF = 0" "events AND BEV_EVENT_ERROR = 0"
    and l: "getAddress (env_order e) (env_sockname e d) = Inr l"
    and r: "getAddress (env_order e) (env_peername e d) = Inr r"
  shows "does e (SockEvent d events) w (abs_world w)"
proof -
  have skip: "skip = (\<lambda>w. Inr w)"
    by (simp add: fun_eq_iff)
  obtain k where k: "socks w d = Some k" "es_user k = Some (UProxy a Out)"
    using proxying_socks(2) [OF p] by blast
  let ?u = "w\<lparr>socks := (socks w)(d \<mapsto> k\<lparr>es_local := l, es_remote := r, es_connected := True\<rparr>)\<rparr>"
  have "handle e (SockEvent d events) w = es_established e d w"
    using k(1) events by (simp add: es_onEvent_def skip)
  also have "\<dots> = Inr ?u"
    unfolding established_result [OF k] using l r proxyingD(2,5) [OF p]
    by (simp add: directed_onConnected_def proxy_onConnected_def)
  finally have h: "handle e (SockEvent d events) w = Inr ?u" .
  have "others_kept a w ?u"
    using move_ok [OF ok move.update [OF proxyingD(2,3) [OF p] k(1)]] by blast
  then have "flags_ok ?u"
    using proxyingD(2,3,5) [OF p] by (intro flags_kept [OF flags]) auto
  moreover have "abs_world ?u = abs_world w"
    by (rule abs_worldI) simp_all
  ultimately show ?thesis
    using h by (intro doesI)
qed

lemma does_ends:
  assumes ok: "world_ok w" and flags: "flags_ok w" and s: "sessions w a = Some s"
    and c: "c = s_inConn s \<or> abs_phase s = Served c" and closing: "closing events"
  shows "does e (SockEvent c events) w (leave a (abs_client s) [] (abs_world w))"
proof -
  have own: "owns s c"
    using c abs_phase_iff(5) [OF ok s, of c] proxyingD(3) by (auto simp: owns_def)
  then have h: "handle e (SockEvent c events) w = es_closed c w"
    using owned_sock [OF world_okD(1) [OF ok s]] handle_closed [OF _ closing] by blast
  show ?thesis
  proof (cases "s_proxy s = None")
    case True
    then have "c = s_inConn s"
      using c abs_phase_iff(5) [OF ok s, of c] proxyingD(5) by fastforce
    then have "handle e (SockEvent c events) w = Inr (kill a s w)"
      using h closed_result [OF ok s own] True by simp
    then show ?thesis
      using abs_kill(1) [OF ok s flags] flags_kill [OF flags] by (rule doesI)
  next
    case False
    then obtain d where d: "proxying w a s d"
      using world_okD(1) [OF ok s] by (auto simp: proxying_def mem_ok_def out_ok_def split: option.splits)
    then have "handle e (SockEvent c events) w = Inr (kill a s (disconnected d w))"
      using h closed_result [OF ok s own] False proxyingD(3) [OF d] by simp
    then show ?thesis
      using abs_kill_disconnected [OF ok d flags] flags_kill_disconnected [OF flags proxyingD(3) [OF d]] by (rule doesI)
  qed
qed

lemma does_other_event:
  assumes ok: "world_ok w" and flags: "flags_ok w" and s: "sessions w a = Some s"
    and c: "c = s_inConn s \<or> abs_phase s = Served c"
    and events: "events AND BEV_EVENT_CONNECTED = 0" "events AND BEV_EVENT_EOF = 0" "events AND BEV_EVENT_ERROR = 0"
  shows "does e (SockEvent c events) w (abs_world w)"
proof -
  have "owns s c"
    using c abs_phase_iff(5) [OF ok s, of c] proxyingD(3) by (auto simp: owns_def)
  then have "socks w c \<noteq> None"
    using owned_sock [OF world_okD(1) [OF ok s]] by blast
  then show ?thesis
    using handle_closing events flags by (intro does_same) (simp_all del: handle.simps)
qed

section \<open>Both directions\<close>

lemma spec_step_made:
  assumes "serve e ev t t'" and t: "t = abs_world w" and ok: "world_ok w" and flags: "flags_ok w"
    and free: "mng_sessions w (mng_currentId w) = None" and poss: "possible w ev" and typed: "typed_env e"
  shows "does e ev w t'"
proof -
  have client: "\<exists>s. sessions w a = Some s \<and> k = abs_client s" if "clients t a = Some k" for a k
    using that by (auto simp: t)
  note served = abs_phase_iff(5) [OF ok, THEN iffD1]
  from assms(1) show ?thesis
  proof cases
    case accept
    have "others_kept (next_session w) w (accepted_world w)"
      using accepted_world_ok [OF ok free] by blast
    then have "flags_ok (accepted_world w)"
      by (intro flags_kept [OF flags, where a = "next_session w"]) auto
    then show ?thesis
      using accept accept_result [OF free, of e]
      by (intro doesI) (auto intro!: abs_worldI simp: t say_def abs_client_def abs_phase_def)
  next
    case interrupt
    then have h: "handle e ev w = Inr (w\<lparr>calls := calls w @ [XLoopBreak]\<rparr>)"
      by (simp add: mng_onSignalOccured_def srv_stop_def)
    show ?thesis
      using flags interrupt by (intro doesI [OF h]) (auto intro!: abs_worldI simp: t say_def flags_ok_def)
  next
    case (ignored_signal n)
    then show ?thesis
      using flags by (auto simp: t mng_onSignalOccured_def intro: does_same)
  next
    case (written c)
    then show ?thesis
      using flags poss by (auto simp: t es_onWrite_def intro!: does_same)
  next
    case (not_read input copied c)
    then obtain k where "socks w c = Some k"
      using poss by auto
    then have "handle e ev w = Inr w"
      using not_read by (cases input) (auto simp: es_onRead_def)
    then show ?thesis
      using not_read flags by (simp add: t does_same)
  next
    case (offer a k ms buf)
    with client [OF offer(3)] does_greeting(1) [OF ok flags] show ?thesis by (auto simp: t)
  next
    case (refuse a k ms buf)
    with client [OF refuse(3)] does_greeting(2) [OF ok flags] show ?thesis by (auto simp: t)
  next
    case (no_greeting a k buf)
    with client [OF no_greeting(3)] does_greeting(3) [OF ok flags] show ?thesis by (auto simp: t)
  next
    case (login a k u p buf)
    with client [OF login(3)] does_login(1) [OF ok flags] show ?thesis by (auto simp: t)
  next
    case (login_unheard a k u p buf)
    with client [OF login_unheard(3)] does_login(2) [OF ok flags] show ?thesis by (auto simp: t)
  next
    case (wrong_login a k u p buf)
    with client [OF wrong_login(3)] does_login(3) [OF ok flags] show ?thesis by (auto simp: t)
  next
    case (no_login a k buf)
    with client [OF no_login(3)] does_login(4) [OF ok flags] show ?thesis by (auto simp: t)
  next
    case (command a k v p buf sa)
    with client [OF command(3)] does_command(1) [OF ok flags] show ?thesis by (auto simp: t)
  next
    case (no_command a k buf)
    with client [OF no_command(3)] does_command(2) [OF ok flags] show ?thesis by (auto simp: t)
  next
    case (too_early a k d buf)
    with client [OF too_early(3)] does_pending_data(1) [OF ok flags] show ?thesis by (auto simp: t)
  next
    case (pending_data a k d buf)
    with client [OF pending_data(3)] does_pending_data(2) [OF ok flags] show ?thesis by (auto simp: t)
  next
    case (relay_out a k d buf)
    with client [OF relay_out(3)] obtain s where s: "sessions w a = Some s" "k = abs_client s" "abs_phase s = Served d"
      by auto
    show ?thesis
      using does_relay(1) [OF flags served [OF s(1,3)], of e buf] relay_out s(2) by (simp add: t split: if_splits)
  next
    case (relay_in a k d buf)
    with client [OF relay_in(3)] obtain s where s: "sessions w a = Some s" "k = abs_client s" "abs_phase s = Served d"
      by auto
    show ?thesis
      using does_relay(2) [OF flags served [OF s(1,3)], of e buf] relay_in s(2) by (simp add: t split: if_splits)
  next
    case (established a k d events l r reply)
    with client [OF established(3)] does_established [OF ok flags _ _ typed] show ?thesis by (auto simp: t)
  next
    case (pending_event a k d events)
    then obtain s where s: "sessions w a = Some s" "abs_phase s = Pending d"
      using client by (auto simp: t)
    then have "s_outConn s = Some d" "s_proxy s = None"
      using abs_phase_iff(4) [OF ok s(1)] world_okD(2) [OF ok s(1)] by (auto simp: session_phase_def)
    then show ?thesis
      using pending_events [OF ok flags s(1), of d e events] pending_event flags
      by (auto simp: t intro!: does_same simp del: handle.simps)
  next
    case (ends a k c events)
    with client [OF ends(3)] does_ends [OF ok flags] show ?thesis by (auto simp: t)
  next
    case (established_again a k d events l r)
    with client [OF established_again(3)] does_established_again [OF ok flags served] show ?thesis by (auto simp: t)
  next
    case (other_event a k c events)
    with client [OF other_event(3)] does_other_event [OF ok flags] show ?thesis by (auto simp: t)
  qed
qed

text \<open>Where no step applies the callback runs into a fault.\<close>

lemma client_data_step:
  assumes ok: "world_ok w" and s: "sessions w a = Some s" and fault: "s_proxy s = None \<longrightarrow> data_fault e w s buf = None"
  shows "\<exists>t. serve e (data (s_inConn s) buf) (abs_world w) t"
proof -
  let ?k = "abs_client s"
  have k: "clients (abs_world w) a = Some ?k"
    using s by simp
  from ok s show ?thesis
  proof (cases rule: phase_cases)
    case greets
    show ?thesis
    proof (cases "accepted (decodeGreeting buf newGreetingMsg)")
      case None
      then have "\<nexists>ms. greets ms buf"
        by (metis greets_accepted option.distinct(1))
      then show ?thesis
        using serve.no_greeting [OF k, of buf e] greets(1) by auto
    next
      case (Some m)
      then obtain ms where "greets ms buf" "gm_authMethods m = ms"
        by (auto simp: greets_accepted)
      then show ?thesis
        using serve.offer [OF k, of ms buf e] serve.refuse [OF k, of ms buf e] fault greets Some
        by (cases "AuthLoginPass \<in> set ms") (auto simp: data_fault_def split: if_splits)
    qed
  next
    case logs_in
    show ?thesis
    proof (cases "accepted (decodeUserPass buf newUserPassAuthMsg)")
      case None
      then have "\<nexists>u p. logs_in u p buf"
        by (metis logs_in_accepted option.distinct(1))
      then show ?thesis
        using serve.no_login [OF k, of buf e] logs_in(1) by auto
    next
      case (Some m)
      then obtain u p where "logs_in u p buf" "up_user m = u" "up_password m = p"
        by (auto simp: logs_in_accepted)
      then show ?thesis
        using serve.login [OF k, of u p buf e] serve.login_unheard [OF k, of u p buf e]
          serve.wrong_login [OF k, of u p buf e] fault logs_in Some
        by (cases "mng_logins w u = Some p"; cases "env_add_ok e (s_inConn s) [Version5, 0]")
          (auto simp: data_fault_def auth_iff split: if_splits)
    qed
  next
    case commands
    show ?thesis
    proof (cases "accepted (decodeCommand (env_order e) buf newCommandMsg)")
      case None
      then have "\<nexists>c v p. commands (env_order e) c v p buf"
        by (metis commands_accepted option.distinct(1))
      then show ?thesis
        using serve.no_command [OF k, of e buf] commands(1) by auto
    next
      case (Some m)
      then obtain c v p where c: "commands (env_order e) c v p buf"
        "m = \<lparr>cm_version = Version5, cm_command = c, cm_addrType = variant_type v, cm_addr = v, cm_port = p\<rparr>"
        by (auto simp: commands_accepted)
      then have "convertAddrToStorage (env_order e) (command_address m) = Inr (target (env_order e) v p)"
        using target_wf [of v] by (simp add: commands_def command_address_def)
      then have "c = TCPStream" "env_bev_new e" "\<exists>sa. target (env_order e) v p = Some sa \<and> env_connect_ok e (next_sock w) sa"
        using fault commands Some c(2)
        by (auto simp: data_fault_def split: if_splits option.splits)
      then show ?thesis
        using serve.command [OF k, of e v p buf] c(1) commands(1) by auto
    qed
  next
    case (pending d)
    then show ?thesis
      using serve.too_early [OF k, of d e buf] by auto
  next
    case (served d)
    then show ?thesis
      using serve.relay_out [OF k, of d e buf] by auto
  qed
qed

lemma event_step:
  assumes ok: "world_ok w" and s: "sessions w a = Some s" "owns s c"
    and fault: "session_fault e w s (SockEvent c events) = None" and poss: "possible w (SockEvent c events)"
  shows "\<exists>t. serve e (SockEvent c events) (abs_world w) t"
proof -
  have k: "clients (abs_world w) a = Some (abs_client s)"
    using s by simp
  have up: "s_outConn s = Some c" if "events AND BEV_EVENT_CONNECTED \<noteq> 0"
    using that poss s(2) world_okD(9) [OF ok s(1)] by (auto simp: owns_def)
  have addresses: "\<exists>l r. getAddress (env_order e) (env_sockname e c) = Inr l \<and>
      getAddress (env_order e) (env_peername e c) = Inr r \<and>
      (s_proxy s = None \<longrightarrow>
        env_add_ok e (s_inConn s) (commandWire (env_order e) RequestGranted (addr_addr l) (addr_port l)))"
    if "events AND BEV_EVENT_CONNECTED \<noteq> 0"
    using fault that by (auto simp: established_fault_def split: if_splits sum.splits)
  consider (pending) "abs_phase s = Pending c" | (other) "c = s_inConn s \<or> abs_phase s = Served c"
      "\<not> (s_proxy s = None \<and> s_outConn s = Some c)"
    using ok s(1)
  proof (cases rule: phase_cases)
    case (served d)
    then show ?thesis
      using that(2) s(2) proxyingD(3,5) [OF served(2)] by (auto simp: owns_def)
  qed (use s(2) that in \<open>auto simp: owns_def\<close>)
  then show ?thesis
  proof cases
    case pending
    then have "s_proxy s = None"
      using abs_phase_iff(4) [OF ok s(1)] world_okD(2) [OF ok s(1)] by (auto simp: session_phase_def)
    then show ?thesis
      using serve.pending_event [OF k, of c events e] serve.established [OF k, of c events e] pending addresses
      by (cases "events AND BEV_EVENT_CONNECTED = 0") auto
  next
    case other
    then have few: "\<not> several_events events"
      using fault by (auto split: if_splits)
    show ?thesis
    proof (cases "events AND BEV_EVENT_CONNECTED = 0")
      case True
      then show ?thesis
        using few serve.ends [OF k, of c events e] serve.other_event [OF k, of c events e] other(1)
        by (cases "events AND BEV_EVENT_EOF = 0"; cases "events AND BEV_EVENT_ERROR = 0")
          (auto simp: closing_def several_events_def)
    next
      case False
      then have "c \<noteq> s_inConn s"
        using up world_okD(1) [OF ok s(1)] by (auto simp: mem_ok_def out_ok_def)
      then show ?thesis
        using False few other(1) addresses serve.established_again [OF k, of c events e]
        by (auto simp: several_events_def)
    qed
  qed
qed

lemma spec_step_exists:
  assumes ok: "world_ok w" and free: "mng_sessions w (mng_currentId w) = None" and poss: "possible w ev"
    and typed: "typed_env e" and r: "handle e ev w = Inr w'"
  shows "\<exists>t. serve e ev (abs_world w) t"
proof (cases "event_conn ev")
  case None
  then consider "ev = Accepted" | n where "ev = SignalRaised n"
    by (cases ev) auto
  then show ?thesis
  proof cases
    case 1
    then show ?thesis
      using r accept_result [OF free, of e] serve.accept [of e] by (cases "env_bev_new e") auto
  next
    case (2 n)
    then show ?thesis
      using serve.interrupt [of e] serve.ignored_signal [of n e] by (cases "n = SIGINT") auto
  qed
next
  case (Some c)
  then have "socks w c \<noteq> None"
    using poss by (cases ev) auto
  then obtain a s where s: "sessions w a = Some s" "owns s c"
    using world_okD(4) [OF ok] by blast
  have k: "clients (abs_world w) a = Some (abs_client s)"
    using s by simp
  show ?thesis
  proof (cases ev)
    case (Readable d input copied)
    then have d: "d = c"
      using Some by simp
    then have "session_fault e w s (Readable c input copied) \<noteq> Some f" for f
      using r Readable read_faults_iff [OF ok s] by (metis sum.distinct(1))
    then have fault: "session_fault e w s (Readable c input copied) = None"
      by auto
    show ?thesis
    proof (cases "\<exists>buf. input = Some buf \<and> copied = length buf")
      case False
      then show ?thesis
        using serve.not_read Readable by blast
    next
      case True
      then obtain buf where buf: "input = Some buf" "copied = length buf"
        by blast
      then have ev: "ev = data c buf"
        by (simp add: Readable d data_def)
      show ?thesis
      proof (cases "c = s_inConn s")
        case True
        then show ?thesis
          using client_data_step [OF ok s(1), of e buf] fault buf by (auto simp: ev split: if_splits)
      next
        case False
        with ok s(1) show ?thesis
        proof (cases rule: phase_cases)
          case (pending d)
          then show ?thesis
            using serve.pending_data [OF k, of d e buf] s(2) False by (auto simp: ev owns_def)
        next
          case (served d)
          then show ?thesis
            using serve.relay_in [OF k, of d e buf] s(2) False proxyingD(3) [OF served(2)] by (auto simp: ev owns_def)
        qed (use s(2) in \<open>auto simp: owns_def\<close>)
      qed
    qed
  next
    case (Writable d)
    then show ?thesis
      using serve.written by blast
  next
    case (SockEvent d events)
    then have d: "d = c"
      using Some by simp
    then have "session_fault e w s (SockEvent c events) \<noteq> Some f" for f
      using r SockEvent poss event_faults_iff [OF ok typed s] by (metis sum.distinct(1))
    then show ?thesis
      using event_step [OF ok s] poss SockEvent d by auto
  qed (use Some in simp_all)
qed

text \<open>The flags in every reachable world.\<close>

lemma reachable_flags: "reachable m h w \<Longrightarrow> accepts h < 2 ^ 32 \<Longrightarrow> flags_ok w"
proof (induction rule: reachable.induct)
  case reach_init
  then show ?case by (simp add: flags_ok_def)
next
  case (reach_step h w ev e w')
  have lt: "accepts h < 2 ^ 32"
    using reach_step.prems by (simp add: accepts_append split: if_splits)
  have ok: "world_ok w" and free: "mng_sessions w (mng_currentId w) = None"
    using reachable_room [OF reach_step.hyps(1) lt] by (simp_all add: room_def)
  obtain t where "serve e ev (abs_world w) t"
    using spec_step_exists [OF ok free reach_step.hyps(2-4)] by blast
  from spec_step_made [OF this refl ok reach_step.IH [OF lt] free reach_step.hyps(2,3)] show ?case
    using reach_step.hyps(4) by (auto simp: does_def)
qed

section \<open>Property\<close>

text \<open>
  C10: the running server is exactly its specification, the relation \<open>serve\<close>, which speaks of clients in phases and
  of message formats, not of objects. In every world reachable with less than \<open>2 ^ 32\<close> accepted connections
  and for every callback libevent may make there, the specification has a step for the event exactly when the
  callback completes, and the step leads to the abstraction of the world the callback leads to. So each
  event does to its own client, and sends, just what its step says: data of a served client goes to the other
  host and to no one else, and only an interrupt stops the loop.
\<close>

theorem server_refines_spec:
  assumes "reachable m h w" and "accepts h < 2 ^ 32" and "possible w ev" and "typed_env e"
  shows "serve e ev (abs_world w) t \<longleftrightarrow> (\<exists>w'. handle e ev w = Inr w' \<and> abs_world w' = t)"
proof -
  have ok: "world_ok w" and free: "mng_sessions w (mng_currentId w) = None"
    using reachable_room [OF assms(1,2)] by (simp_all add: room_def)
  have made: "\<exists>w'. handle e ev w = Inr w' \<and> abs_world w' = t" if "serve e ev (abs_world w) t" for t
    using spec_step_made [OF that refl ok reachable_flags [OF assms(1,2)] free assms(3,4)] by (auto simp: does_def)
  show ?thesis
  proof
    assume "serve e ev (abs_world w) t"
    then show "\<exists>w'. handle e ev w = Inr w' \<and> abs_world w' = t"
      by (rule made)
  next
    assume "\<exists>w'. handle e ev w = Inr w' \<and> abs_world w' = t"
    then obtain w' where w': "handle e ev w = Inr w'" "abs_world w' = t"
      by blast
    obtain t' where t': "serve e ev (abs_world w) t'"
      using spec_step_exists [OF ok free assms(3,4) w'(1)] by blast
    with made [OF this] w' show "serve e ev (abs_world w) t"
      by auto
  qed
qed

text \<open>A served client sends two bytes: they are queued for the other host, and this is the only step. A signal that is no interrupt.\<close>

theorem server_refines_spec_witness:
  "{t. serve plain_env (data 0 [1, 2]) (abs_world demo_served) t} = {say [XQueue 1 [1, 2]] (abs_world demo_served)} \<and>
   {t. serve plain_env (SignalRaised 15) (abs_world demo_served) t} = {abs_world demo_served}"
proof -
  have acc: "accepts demo_run < 2 ^ 32"
    using demo_served_reachable(2) by (simp add: demo_run_def client_run_def accepts_def)
  note spec = server_refines_spec [OF demo_served_reachable(1) acc _ plain_env_simps(7)]
  have "proxying demo_served 0 served_client 1"
    using started_proxying [OF reachable_ok [OF demo_served_reachable] demo_served_session demo_served_client(1)]
      demo_served_client(2) proxyingD(3) by fastforce
  from step_relay(1) [OF this, of plain_env "[1, 2]"]
  have r: "handle plain_env (data 0 [1, 2]) demo_served = Inr (queued 1 [1, 2] demo_served)"
    by (simp add: demo_served_client data_def del: handle.simps)
  have "possible demo_served (data 0 [1, 2])" "possible demo_served (SignalRaised 15)"
    by (simp_all add: data_def demo_served_def)
  with spec [of "data 0 [1, 2]"] spec [of "SignalRaised 15"] r show ?thesis
    by (auto simp: abs_queued mng_onSignalOccured_def)
qed

end
