(* ===== verification/Messages.thy ===== *)
theory Messages
  imports Codec
begin

text \<open>
  The public classes \<open>SocksEncoder\<close> and \<open>SocksDecoder\<close>: the overloads of \<open>encode\<close> and \<open>decode\<close>, one for
  each type of message, which forward to the implementation classes. What one side writes the
  other side reads, and takes for nothing else.
\<close>

section \<open>The overloads\<close>

datatype client_message =
    GreetingMessage SocksGreetingMsg
  | LoginMessage SocksUserPassAuthMsg
  | CommandMessage SocksCommandMsg

datatype socks_message =
    FromClient client_message
  | GreetingReply SocksGreetingMsgResp
  | LoginReply SocksUserPassAuthMsgResp
  | CommandReply SocksCommandMsgResp

fun encode :: "byte_order \<Rightarrow> socks_message \<Rightarrow> bytes \<Rightarrow> (bool \<times> bytes) res" where
  "encode bo (FromClient (GreetingMessage msg)) buf = encodeGreeting msg buf"
| "encode bo (GreetingReply msg) buf = encodeGreetingResp msg buf"
| "encode bo (FromClient (LoginMessage msg)) buf = encodeUserPass msg buf"
| "encode bo (LoginReply msg) buf = encodeUserPassResp msg buf"
| "encode bo (FromClient (CommandMessage msg)) buf = encodeCommand bo msg buf"
| "encode bo (CommandReply msg) buf = encodeCommandResp bo msg buf"

text \<open>The second argument is the object the decoder fills; its type chooses the overload.\<close>

definition filled :: "('a \<Rightarrow> client_message) \<Rightarrow> (bool \<times> 'a) res \<Rightarrow> (bool \<times> client_message) res" where
  "filled f r = andThen r (\<lambda>(ok, msg). Inr (ok, f msg))"

fun decode :: "byte_order \<Rightarrow> bytes \<Rightarrow> client_message \<Rightarrow> (bool \<times> client_message) res" where
  "decode bo buf (GreetingMessage msg) = filled GreetingMessage (decodeGreeting buf msg)"
| "decode bo buf (LoginMessage msg) = filled LoginMessage (decodeUserPass buf msg)"
| "decode bo buf (CommandMessage msg) = filled CommandMessage (decodeCommand bo buf msg)"

lemma accepted_filled: "accepted (filled f r) = map_option f (accepted r)"
  by (auto simp: accepted_def filled_def split: sum.splits)

section \<open>Messages of clients\<close>

datatype message_kind = Greeting | Login | Command

fun kind_of :: "client_message \<Rightarrow> message_kind" where
  "kind_of (GreetingMessage msg) = Greeting"
| "kind_of (LoginMessage msg) = Login"
| "kind_of (CommandMessage msg) = Command"

fun fresh_message :: "message_kind \<Rightarrow> client_message" where
  "fresh_message Greeting = GreetingMessage newGreetingMsg"
| "fresh_message Login = LoginMessage newUserPassAuthMsg"
| "fresh_message Command = CommandMessage newCommandMsg"

fun valid_message :: "client_message \<Rightarrow> bool" where
  "valid_message (GreetingMessage msg) \<longleftrightarrow> valid_greeting msg"
| "valid_message (LoginMessage msg) \<longleftrightarrow> valid_userPass msg"
| "valid_message (CommandMessage msg) \<longleftrightarrow> valid_command msg"

text \<open>The three wire formats have no buffer in common.\<close>

lemma greeting_not_command:
  assumes "length ms \<le> 255" "isCommandExist c" "wire_variant v"
  shows "greetingWire ms \<noteq> commandWire bo c v p"
proof
  assume eq: "greetingWire ms = commandWire bo c v p"
  then have "greetingWire ms ! 1 = commandWire bo c v p ! 1"
    by simp
  then have "c = of_nat (length ms)"
    by (simp add: greetingWire_def commandWire_def)
  moreover have "c \<in> {1, 2, 3}"
    using assms(2) by (simp add: isCommandExist_iff)
  ultimately have "length ms \<le> 3"
    using assms(1) by (auto dest: arg_cong [where f = unat] simp: unat_of_nat)
  moreover have "length (greetingWire ms) = length ms + 2"
    by (simp add: greetingWire_def)
  moreover have "7 \<le> length (commandWire bo c v p)"
    using assms(3) by (cases v) (simp_all add: commandWire_def)
  ultimately show False
    using eq by simp
qed

lemma login_differs:
  "userPassWire u p \<noteq> greetingWire ms" "userPassWire u p \<noteq> commandWire bo c v q"
  by (simp_all add: userPassWire_def greetingWire_def commandWire_def)

lemma accepted_greeting: "accepted (decodeGreeting buf newGreetingMsg) = Some m \<Longrightarrow>
    \<exists>ms. length ms \<le> 255 \<and> buf = greetingWire ms"
  by (auto simp: accepted_eq_Some greeting_iff)

lemma accepted_userPass: "accepted (decodeUserPass buf newUserPassAuthMsg) = Some m \<Longrightarrow>
    \<exists>u p. buf = userPassWire u p"
  by (auto simp: accepted_eq_Some userPass_iff)

lemma accepted_command: "accepted (decodeCommand bo buf newCommandMsg) = Some m \<Longrightarrow>
    \<exists>c v p. isCommandExist c \<and> wire_variant v \<and> buf = commandWire bo c v p"
  using decodeCommand_accepts_only_wire by (fastforce simp: accepted_eq_Some)

lemma accepted_by_one:
  assumes "accepted (decode bo buf (fresh_message k)) = Some m"
    and "accepted (decode bo buf (fresh_message k')) = Some m'"
  shows "k = k'"
  using assms
  by (cases k; cases k')
    (auto simp: accepted_filled login_differs login_differs [symmetric] greeting_not_command
      greeting_not_command [symmetric] dest!: accepted_greeting accepted_userPass accepted_command)

section \<open>Property\<close>

text \<open>
  C15: the protocol of a client is unambiguous. Every valid greeting, login message or command is
  encoded, by a host of either byte order; the result is decoded to the same message by the overload
  for its kind; and the overloads for the two other kinds refuse it.
\<close>

theorem messages_round_trip:
  assumes "valid_message m"
  shows "\<exists>wire. encode bo (FromClient m) [] = Inr (True, wire) \<and>
    (\<forall>k. accepted (decode bo wire (fresh_message k)) = (if k = kind_of m then Some m else None))"
proof -
  have "\<exists>wire. encode bo (FromClient m) [] = Inr (True, wire) \<and>
      accepted (decode bo wire (fresh_message (kind_of m))) = Some m"
    using assms gc.round_trip uc.round_trip cc.round_trip [where bo = bo]
    by (cases m) (auto simp: accepted_filled accepted_eq_Some bind_eq_Some_conv)
  then obtain wire where "encode bo (FromClient m) [] = Inr (True, wire)"
    "accepted (decode bo wire (fresh_message (kind_of m))) = Some m"
    by blast
  then show ?thesis
    using accepted_by_one [of bo wire] by (metis option.exhaust)
qed

theorem messages_round_trip_witness:
  "\<exists>wire. encode BigEndian (FromClient (LoginMessage \<lparr>up_user = [104], up_password = [116]\<rparr>)) [] = Inr (True, wire) \<and>
     accepted (decode BigEndian wire (LoginMessage newUserPassAuthMsg)) =
       Some (LoginMessage \<lparr>up_user = [104], up_password = [116]\<rparr>) \<and>
     accepted (decode BigEndian wire (GreetingMessage newGreetingMsg)) = None"
proof -
  have "valid_message (LoginMessage \<lparr>up_user = [104], up_password = [116]\<rparr>)"
    by (simp add: valid_userPass_def wrongString_def)
  from messages_round_trip [OF this, of BigEndian] obtain wire where w:
    "encode BigEndian (FromClient (LoginMessage \<lparr>up_user = [104], up_password = [116]\<rparr>)) [] = Inr (True, wire)"
    "\<And>k. accepted (decode BigEndian wire (fresh_message k)) =
       (if k = Login then Some (LoginMessage \<lparr>up_user = [104], up_password = [116]\<rparr>) else None)"
    by auto
  show ?thesis
    using w(1) w(2) [of Login] w(2) [of Greeting] by auto
qed

end
