(* ===== verification/TestVectors.thy ===== *)
theory TestVectors
  imports Handshake InetUtils EventLoop
begin

text \<open>
  The unit tests of the repository, \<open>src/Tests\<close>, on the model: every lemma has the name of a test
  and states what it expects, for a host of either byte order where the order matters. They do
  not show more than the properties of \<open>Codec\<close> and \<open>Handshake\<close> do; they tie the model
  to what its authors expect of the program.
\<close>

section \<open>\<open>SocksDecoderTest.cpp\<close>\<close>

text \<open>The result \<open>false\<close>, whatever has been stored.\<close>

definition rejected :: "(bool \<times> 'a) res \<Rightarrow> bool" where
  "rejected r \<longleftrightarrow> (case r of Inl f \<Rightarrow> False | Inr (ok, x) \<Rightarrow> \<not> ok)"

lemmas evaluate = codec_defs rejected_def newGreetingMsg_def newUserPassAuthMsg_def newCommandMsg_def
  isVersionSupport_def isAuthMethodExist_def isCommandExist_def isAddressTypeExist_def
  vec_at_def vec_range_def vec_put_def vec_resize_def load16_def store16_def htons_def swap16_def
  join16_def hi16_def lo16_def unat_of_nat store32_load32 decodeMethods.simps wrongString_def Let_def

lemma EmptyBuffer:
  "\<exists>m. decodeGreeting [] newGreetingMsg = Inr (False, m)"
  "\<exists>m. decodeUserPass [] newUserPassAuthMsg = Inr (False, m)"
  "\<exists>m. decodeCommand bo [] newCommandMsg = Inr (False, m)"
  by (simp_all add: evaluate)

lemma GreetingMsgSuccess:
  "decodeGreeting [5, 3, 0, 1, 2] newGreetingMsg = Inr (True,
    \<lparr>gm_version = Version5, gm_authMethods = [NoAuth, AuthGSSAPI, AuthLoginPass]\<rparr>)"
  by (simp_all add: evaluate)

lemma GreetingMsgWrongVersion:
  "rejected (decodeGreeting [4, 3, 0, 2, 1] newGreetingMsg)"
  by (simp_all add: evaluate)

lemma GreetingMsgMissedMethod:
  "rejected (decodeGreeting [5, 3, 0, 2] newGreetingMsg)"
  by (simp_all add: evaluate)

lemma GreetingMsgExcessMethods:
  "rejected (decodeGreeting [5, 3, 0, 2, 1, 0xff, 0xff, 0xff] newGreetingMsg)"
  by (simp_all add: evaluate)

lemma GreetingMsgIncompleteMethod:
  "rejected (decodeGreeting [5] newGreetingMsg)"
  by (simp_all add: evaluate)

lemma GreetingMsgGarbageMethods:
  "rejected (decodeGreeting [5, 3, 0xff, 0xff, 0xff] newGreetingMsg)"
  by (simp_all add: evaluate)

lemma UserPassMsgSuccess:
  "decodeUserPass [1, 3, 97, 115, 100, 3, 113, 119, 101] newUserPassAuthMsg =
    Inr (True, \<lparr>up_user = [97, 115, 100], up_password = [113, 119, 101]\<rparr>)"
  by (simp_all add: evaluate)

lemma UserPassMsgEmptyUserPass:
  "decodeUserPass [1, 0, 0] newUserPassAuthMsg = Inr (True, \<lparr>up_user = [], up_password = []\<rparr>)"
  by (simp_all add: evaluate)

lemma UserPassMsgWrongVersion:
  "rejected (decodeUserPass [2, 3, 97, 115, 100, 3, 113, 119, 101] newUserPassAuthMsg)"
  by (simp_all add: evaluate)

lemma UserPassMsgOverlength:
  "rejected (decodeUserPass [1, 3, 97, 115, 100, 102, 3, 113, 119, 101] newUserPassAuthMsg)"
  by (simp_all add: evaluate)

lemma UserPassMsgLackingOfPasswordSymbols:
  "rejected (decodeUserPass [1, 3, 97, 115, 100, 3, 113, 119] newUserPassAuthMsg)"
  by (simp_all add: evaluate)

lemma UserPassMsgWrongNameLength:
  "rejected (decodeUserPass [1, 8, 97, 115, 100, 102, 3, 113, 119, 101] newUserPassAuthMsg)"
  by (simp_all add: evaluate)

lemma ConnRequestIPv4TCPPortBindSuccess:
  "decodeCommand BigEndian [5, 2, 0, 1, 0x1a, 0x2b, 0x3c, 0x4d, 0x11, 0x22] newCommandMsg = Inr (True,
    \<lparr>cm_version = Version5, cm_command = TCPPortBinding, cm_addrType = IPv4Addr,
     cm_addr = SocksIPv4Address [0x1a, 0x2b, 0x3c, 0x4d], cm_port = htons BigEndian 0x1122\<rparr>)"
  "decodeCommand LittleEndian [5, 2, 0, 1, 0x1a, 0x2b, 0x3c, 0x4d, 0x11, 0x22] newCommandMsg = Inr (True,
    \<lparr>cm_version = Version5, cm_command = TCPPortBinding, cm_addrType = IPv4Addr,
     cm_addr = SocksIPv4Address [0x1a, 0x2b, 0x3c, 0x4d], cm_port = htons LittleEndian 0x1122\<rparr>)"
  by (simp_all add: evaluate)

lemma ConnRequestDomainTCPStreamSuccess:
  "decodeCommand BigEndian [5, 1, 0, 3, 0xb, 101, 120, 97, 109, 112, 108, 101, 46, 99, 111, 109, 0x22, 0x33] newCommandMsg = Inr (True,
    \<lparr>cm_version = Version5, cm_command = TCPStream, cm_addrType = DomainAddr,
     cm_addr = SocksDomainAddress
       [101, 120, 97, 109, 112, 108, 101, 46, 99, 111, 109], cm_port = htons BigEndian 0x2233\<rparr>)"
  "decodeCommand LittleEndian [5, 1, 0, 3, 0xb, 101, 120, 97, 109, 112, 108, 101, 46, 99, 111, 109, 0x22, 0x33] newCommandMsg = Inr (True,
    \<lparr>cm_version = Version5, cm_command = TCPStream, cm_addrType = DomainAddr,
     cm_addr = SocksDomainAddress
       [101, 120, 97, 109, 112, 108, 101, 46, 99, 111, 109], cm_port = htons LittleEndian 0x2233\<rparr>)"
  by (simp_all add: evaluate)

lemma ConnRequestIPv6UdpPortSuccess:
  "decodeCommand BigEndian [5, 3, 0, 4, 0, 1, 2, 3, 4, 5, 6, 7, 8, 9, 0xa, 0xb, 0xc, 0xd, 0xe, 0xf, 0x33, 0x44] newCommandMsg = Inr (True,
    \<lparr>cm_version = Version5, cm_command = UDPPortBinding, cm_addrType = IPv6Addr,
     cm_addr = SocksIPv6Address
       [0, 1, 2, 3, 4, 5, 6, 7, 8, 9, 0xa, 0xb, 0xc, 0xd, 0xe, 0xf], cm_port = htons BigEndian 0x3344\<rparr>)"
  "decodeCommand LittleEndian [5, 3, 0, 4, 0, 1, 2, 3, 4, 5, 6, 7, 8, 9, 0xa, 0xb, 0xc, 0xd, 0xe, 0xf, 0x33, 0x44] newCommandMsg = Inr (True,
    \<lparr>cm_version = Version5, cm_command = UDPPortBinding, cm_addrType = IPv6Addr,
     cm_addr = SocksIPv6Address
       [0, 1, 2, 3, 4, 5, 6, 7, 8, 9, 0xa, 0xb, 0xc, 0xd, 0xe, 0xf], cm_port = htons LittleEndian 0x3344\<rparr>)"
  by (simp_all add: evaluate)

lemma ConnRequestWrongVersion:
  "rejected (decodeCommand BigEndian [3, 2, 0, 1, 0x1a, 0x2b, 0x3c, 0x4d, 0x11, 0x22] newCommandMsg)"
  "rejected (decodeCommand LittleEndian [3, 2, 0, 1, 0x1a, 0x2b, 0x3c, 0x4d, 0x11, 0x22] newCommandMsg)"
  by (simp_all add: evaluate)

lemma ConnRequestIPv4MissIPAddressByte:
  "rejected (decodeCommand BigEndian [5, 2, 0, 1, 0x1a, 0x2b, 0x3c, 0x11, 0x22] newCommandMsg)"
  "rejected (decodeCommand LittleEndian [5, 2, 0, 1, 0x1a, 0x2b, 0x3c, 0x11, 0x22] newCommandMsg)"
  by (simp_all add: evaluate)

lemma ConnRequestDomainMissDomainByte:
  "rejected (decodeCommand BigEndian [5, 1, 0, 3, 0xb, 101, 120, 97, 109, 112, 108, 101, 46, 99, 111, 0x22, 0x33] newCommandMsg)"
  "rejected (decodeCommand LittleEndian [5, 1, 0, 3, 0xb, 101, 120, 97, 109, 112, 108, 101, 46, 99, 111, 0x22, 0x33] newCommandMsg)"
  by (simp_all add: evaluate)

lemma ConnRequestIPv6MissAddrByte:
  "rejected (decodeCommand BigEndian [5, 3, 0, 4, 0, 1, 2, 3, 4, 5, 6, 8, 9, 0xa, 0xb, 0xc, 0xd, 0xe, 0xf, 0x33, 0x44] newCommandMsg)"
  "rejected (decodeCommand LittleEndian [5, 3, 0, 4, 0, 1, 2, 3, 4, 5, 6, 8, 9, 0xa, 0xb, 0xc, 0xd, 0xe, 0xf, 0x33, 0x44] newCommandMsg)"
  by (simp_all add: evaluate)

lemma ConnRequestMissPort:
  "rejected (decodeCommand BigEndian [5, 2, 0, 1, 0x1a, 0x2b, 0x3c, 0x4d] newCommandMsg)"
  "rejected (decodeCommand LittleEndian [5, 2, 0, 1, 0x1a, 0x2b, 0x3c, 0x4d] newCommandMsg)"
  by (simp_all add: evaluate)

lemma ConnRequestWrongCommandCode:
  "rejected (decodeCommand BigEndian [5, 0xff, 0, 1, 0x1a, 0x2b, 0x3c, 0x4d, 0x11, 0x22] newCommandMsg)"
  "rejected (decodeCommand LittleEndian [5, 0xff, 0, 1, 0x1a, 0x2b, 0x3c, 0x4d, 0x11, 0x22] newCommandMsg)"
  by (simp_all add: evaluate)

lemma ConnRequestReservedFieldUse:
  "rejected (decodeCommand BigEndian [5, 2, 1, 1, 0x1a, 0x2b, 0x3c, 0x4d, 0x11, 0x22] newCommandMsg)"
  "rejected (decodeCommand LittleEndian [5, 2, 1, 1, 0x1a, 0x2b, 0x3c, 0x4d, 0x11, 0x22] newCommandMsg)"
  by (simp_all add: evaluate)

lemma ConnRequestWrongAddressType:
  "rejected (decodeCommand BigEndian [5, 2, 0, 0xff, 0x1a, 0x2b, 0x3c, 0x4d, 0x11, 0x22] newCommandMsg)"
  "rejected (decodeCommand LittleEndian [5, 2, 0, 0xff, 0x1a, 0x2b, 0x3c, 0x4d, 0x11, 0x22] newCommandMsg)"
  by (simp_all add: evaluate)

section \<open>\<open>SocksEncoderTest.cpp\<close>\<close>

lemma WrongVersion:
  "rejected (encodeGreetingResp \<lparr>gr_version = 0xf1, gr_authMethod = a\<rparr> [])"
  "rejected (encodeUserPassResp \<lparr>ur_version = 0xf2, ur_status = s\<rparr> [])"
  "rejected (encodeCommandResp bo \<lparr>cr_version = 0xf3, cr_status = s, cr_addrType = t, cr_addr = v, cr_port = p\<rparr> [])"
  by (simp_all add: evaluate)

lemma GreetingSuccess:
  "encodeGreetingResp \<lparr>gr_version = 5, gr_authMethod = 0\<rparr> [] = Inr (True, [Version5, NoAuth])"
  by (simp_all add: evaluate)

lemma GreetingNoAvailableMethods:
  "encodeGreetingResp \<lparr>gr_version = 5, gr_authMethod = 0xff\<rparr> [] = Inr (True, [Version5, NoAvailableMethod])"
  by (simp_all add: evaluate)

lemma GreetingUnknownMethod:
  "rejected (encodeGreetingResp \<lparr>gr_version = 5, gr_authMethod = 0x33\<rparr> [])"
  by (simp_all add: evaluate)

lemma UserPassAuthSuccess:
  "encodeUserPassResp \<lparr>ur_version = 5, ur_status = 0\<rparr> [] = Inr (True, [Version5, 0])"
  by (simp_all add: evaluate)

lemma UserPassAuthFailStatus:
  "encodeUserPassResp \<lparr>ur_version = 5, ur_status = 1\<rparr> [] = Inr (True, [Version5, 1])"
  by (simp_all add: evaluate)

lemma CommandIPv4Success:
  "encodeCommandResp BigEndian \<lparr>cr_version = 5, cr_status = 0, cr_addrType = IPv4Addr,
     cr_addr = SocksIPv4Address [0x1a, 0x2b, 0x3c, 0x4d], cr_port = htons BigEndian 0xaabb\<rparr> [] =
    Inr (True, [5, 0, 0, 1, 0x1a, 0x2b, 0x3c, 0x4d, 0xaa, 0xbb])"
  "encodeCommandResp LittleEndian \<lparr>cr_version = 5, cr_status = 0, cr_addrType = IPv4Addr,
     cr_addr = SocksIPv4Address [0x1a, 0x2b, 0x3c, 0x4d], cr_port = htons LittleEndian 0xaabb\<rparr> [] =
    Inr (True, [5, 0, 0, 1, 0x1a, 0x2b, 0x3c, 0x4d, 0xaa, 0xbb])"
  by (simp_all add: evaluate)

lemma CommandDomainSuccess:
  "encodeCommandResp BigEndian \<lparr>cr_version = 5, cr_status = 0, cr_addrType = DomainAddr,
     cr_addr = SocksDomainAddress
       [101, 120, 97, 109, 112, 108, 101, 46, 99, 111, 109], cr_port = htons BigEndian 0xa1b2\<rparr> [] =
    Inr (True, [5, 0, 0, 3, 0xb, 101, 120, 97, 109, 112, 108, 101, 46, 99, 111, 109, 0xa1, 0xb2])"
  "encodeCommandResp LittleEndian \<lparr>cr_version = 5, cr_status = 0, cr_addrType = DomainAddr,
     cr_addr = SocksDomainAddress
       [101, 120, 97, 109, 112, 108, 101, 46, 99, 111, 109], cr_port = htons LittleEndian 0xa1b2\<rparr> [] =
    Inr (True, [5, 0, 0, 3, 0xb, 101, 120, 97, 109, 112, 108, 101, 46, 99, 111, 109, 0xa1, 0xb2])"
  by (simp_all add: evaluate)

lemma CommandIPv6Success:
  "encodeCommandResp BigEndian \<lparr>cr_version = 5, cr_status = 0, cr_addrType = IPv6Addr,
     cr_addr = SocksIPv6Address
       [0, 1, 2, 3, 4, 5, 6, 7, 8, 9, 0xa, 0xb, 0xc, 0xd, 0xe, 0xf], cr_port = htons BigEndian 0xa2b3\<rparr> [] =
    Inr (True, [5, 0, 0, 4, 0, 1, 2, 3, 4, 5, 6, 7, 8, 9, 0xa, 0xb, 0xc, 0xd, 0xe, 0xf, 0xa2, 0xb3])"
  "encodeCommandResp LittleEndian \<lparr>cr_version = 5, cr_status = 0, cr_addrType = IPv6Addr,
     cr_addr = SocksIPv6Address
       [0, 1, 2, 3, 4, 5, 6, 7, 8, 9, 0xa, 0xb, 0xc, 0xd, 0xe, 0xf], cr_port = htons LittleEndian 0xa2b3\<rparr> [] =
    Inr (True, [5, 0, 0, 4, 0, 1, 2, 3, 4, 5, 6, 7, 8, 9, 0xa, 0xb, 0xc, 0xd, 0xe, 0xf, 0xa2, 0xb3])"
  by (simp_all add: evaluate)

lemma CommandIPv4ErrorStatus:
  "encodeCommandResp BigEndian \<lparr>cr_version = 5, cr_status = GeneralFailure, cr_addrType = IPv4Addr,
     cr_addr = SocksIPv4Address [0, 0, 0, 0], cr_port = 0\<rparr> [] =
    Inr (True, [5, 1, 0, 1, 0, 0, 0, 0, 0, 0])"
  "encodeCommandResp LittleEndian \<lparr>cr_version = 5, cr_status = GeneralFailure, cr_addrType = IPv4Addr,
     cr_addr = SocksIPv4Address [0, 0, 0, 0], cr_port = 0\<rparr> [] =
    Inr (True, [5, 1, 0, 1, 0, 0, 0, 0, 0, 0])"
  by (simp_all add: evaluate)

text \<open>The tests use two particular names of 255 and of more bytes; the length is what counts.\<close>

lemma CommandDomain255Symbols:
  assumes "length domain = 255"
  shows "encodeCommandResp bo \<lparr>cr_version = 5, cr_status = 0, cr_addrType = DomainAddr,
     cr_addr = SocksDomainAddress domain, cr_port = htons bo 0xa4b5\<rparr> [] =
    Inr (True, [5, 0, 0, 3, 0xff] @ domain @ [0xa4, 0xb5])"
  using assms
  by (simp add: encodeCommandResp_wire commandWire_def htons_layout) (simp add: store16_def hi16_def lo16_def)

lemma CommandTooLongDomain:
  assumes "255 < length domain"
  shows "rejected (encodeCommandResp bo \<lparr>cr_version = 5, cr_status = 0, cr_addrType = DomainAddr,
     cr_addr = SocksDomainAddress domain, cr_port = 0xa3b4\<rparr> [])"
  using assms by (simp add: evaluate)

lemma GreetingMsg:
  "encodeGreeting \<lparr>gm_version = 5, gm_authMethods = [NoAuth, AuthLoginPass]\<rparr> [] =
    Inr (True, [Version5, 2, NoAuth, AuthLoginPass])"
  by (simp_all add: evaluate)

lemma UserAuthMsg:
  "encodeUserPass \<lparr>up_user = [117, 115, 101, 114],
     up_password = [112, 97, 115, 115, 119, 111, 114, 100]\<rparr> [] =
    Inr (True, [1, 4, 117, 115, 101, 114, 8, 112, 97, 115, 115, 119, 111, 114, 100])"
  by (simp_all add: evaluate)

lemma CommandIPv4Msg:
  "encodeCommand BigEndian \<lparr>cm_version = 5, cm_command = TCPStream, cm_addrType = IPv4Addr,
     cm_addr = SocksIPv4Address [0xde, 0xad, 0xbe, 0xef], cm_port = 0xf00d\<rparr> [] =
    Inr (True, [5, 1, 0, 1, 0xde, 0xad, 0xbe, 0xef] @ store16 BigEndian 0xf00d)"
  "encodeCommand LittleEndian \<lparr>cm_version = 5, cm_command = TCPStream, cm_addrType = IPv4Addr,
     cm_addr = SocksIPv4Address [0xde, 0xad, 0xbe, 0xef], cm_port = 0xf00d\<rparr> [] =
    Inr (True, [5, 1, 0, 1, 0xde, 0xad, 0xbe, 0xef] @ store16 LittleEndian 0xf00d)"
  by (simp_all add: evaluate)

section \<open>\<open>StateMachineTest.cpp\<close>\<close>

definition calls_of :: "recorder res \<Rightarrow> owner_call list" where
  "calls_of r = (case r of Inl f \<Rightarrow> [] | Inr w \<Rightarrow> rec_calls w)"

lemmas run_machine = evaluate calls_of_def feedAll_def newMachine_def processBuffer_def processGreetingMsg_def
  processPassAuthMsg_def processPassAuthResult_def processCommandMsg_def processStartProxyResult_def
  commandWire_def

lemma GreetingOnly:
  "calls_of (feedAll BigEndian [Buffer [5, 3, 0, 2, 1]]) =
    [CGreetingResponse AuthLoginPass]"
  "calls_of (feedAll LittleEndian [Buffer [5, 3, 0, 2, 1]]) =
    [CGreetingResponse AuthLoginPass]"
  by (simp_all add: run_machine)

lemma AuthenticationRequest:
  "calls_of (feedAll BigEndian [Buffer [5, 3, 0, 2, 1],
      Buffer [1, 5, 104, 101, 108, 108, 111, 5, 116, 104, 101, 114, 101]]) =
    [CGreetingResponse AuthLoginPass,
     CRequestPassAuth [104, 101, 108, 108, 111] [116, 104, 101, 114, 101]]"
  "calls_of (feedAll LittleEndian [Buffer [5, 3, 0, 2, 1],
      Buffer [1, 5, 104, 101, 108, 108, 111, 5, 116, 104, 101, 114, 101]]) =
    [CGreetingResponse AuthLoginPass,
     CRequestPassAuth [104, 101, 108, 108, 111] [116, 104, 101, 114, 101]]"
  by (simp_all add: run_machine)

lemma AuthenticationSuccess:
  "calls_of (feedAll BigEndian [Buffer [5, 3, 0, 2, 1],
      Buffer [1, 5, 104, 101, 108, 108, 111, 5, 116, 104, 101, 114, 101],
      PassAuthResult True]) =
    [CGreetingResponse AuthLoginPass,
     CRequestPassAuth [104, 101, 108, 108, 111] [116, 104, 101, 114, 101],
     CPassAuthResponse 0]"
  "calls_of (feedAll LittleEndian [Buffer [5, 3, 0, 2, 1],
      Buffer [1, 5, 104, 101, 108, 108, 111, 5, 116, 104, 101, 114, 101],
      PassAuthResult True]) =
    [CGreetingResponse AuthLoginPass,
     CRequestPassAuth [104, 101, 108, 108, 111] [116, 104, 101, 114, 101],
     CPassAuthResponse 0]"
  by (simp_all add: run_machine)

lemma CommandRequest:
  "calls_of (feedAll BigEndian [Buffer [5, 3, 0, 2, 1],
      Buffer [1, 5, 104, 101, 108, 108, 111, 5, 116, 104, 101, 114, 101],
      PassAuthResult True,
      Buffer (commandWire BigEndian TCPStream (SocksIPv4Address [0xde, 0xad, 0xbe, 0xef]) 35555)]) =
    [CGreetingResponse AuthLoginPass,
     CRequestPassAuth [104, 101, 108, 108, 111] [116, 104, 101, 114, 101],
     CPassAuthResponse 0,
     CStartProxy TCPStream
        \<lparr>addr_type = IPv4Addr, addr_addr = SocksIPv4Address [0xde, 0xad, 0xbe, 0xef], addr_port = 35555\<rparr>]"
  "calls_of (feedAll LittleEndian [Buffer [5, 3, 0, 2, 1],
      Buffer [1, 5, 104, 101, 108, 108, 111, 5, 116, 104, 101, 114, 101],
      PassAuthResult True,
      Buffer (commandWire LittleEndian TCPStream (SocksIPv4Address [0xde, 0xad, 0xbe, 0xef]) 35555)]) =
    [CGreetingResponse AuthLoginPass,
     CRequestPassAuth [104, 101, 108, 108, 111] [116, 104, 101, 114, 101],
     CPassAuthResponse 0,
     CStartProxy TCPStream
        \<lparr>addr_type = IPv4Addr, addr_addr = SocksIPv4Address [0xde, 0xad, 0xbe, 0xef], addr_port = 35555\<rparr>]"
  by (simp_all add: run_machine)

lemma CommandRequestSuccess:
  "calls_of (feedAll BigEndian [Buffer [5, 3, 0, 2, 1],
      Buffer [1, 5, 104, 101, 108, 108, 111, 5, 116, 104, 101, 114, 101],
      PassAuthResult True,
      Buffer (commandWire BigEndian TCPStream (SocksIPv4Address [0xde, 0xad, 0xbe, 0xef]) 35555),
      StartProxyResult RequestGranted
        \<lparr>addr_type = IPv4Addr, addr_addr = SocksIPv4Address [0xde, 0xad, 0xf0, 0xd], addr_port = 56333\<rparr>]) =
    [CGreetingResponse AuthLoginPass,
     CRequestPassAuth [104, 101, 108, 108, 111] [116, 104, 101, 114, 101],
     CPassAuthResponse 0,
     CStartProxy TCPStream
        \<lparr>addr_type = IPv4Addr, addr_addr = SocksIPv4Address [0xde, 0xad, 0xbe, 0xef], addr_port = 35555\<rparr>,
     CCommandResponse RequestGranted
        \<lparr>addr_type = IPv4Addr, addr_addr = SocksIPv4Address [0xde, 0xad, 0xf0, 0xd], addr_port = 56333\<rparr>]"
  "calls_of (feedAll LittleEndian [Buffer [5, 3, 0, 2, 1],
      Buffer [1, 5, 104, 101, 108, 108, 111, 5, 116, 104, 101, 114, 101],
      PassAuthResult True,
      Buffer (commandWire LittleEndian TCPStream (SocksIPv4Address [0xde, 0xad, 0xbe, 0xef]) 35555),
      StartProxyResult RequestGranted
        \<lparr>addr_type = IPv4Addr, addr_addr = SocksIPv4Address [0xde, 0xad, 0xf0, 0xd], addr_port = 56333\<rparr>]) =
    [CGreetingResponse AuthLoginPass,
     CRequestPassAuth [104, 101, 108, 108, 111] [116, 104, 101, 114, 101],
     CPassAuthResponse 0,
     CStartProxy TCPStream
        \<lparr>addr_type = IPv4Addr, addr_addr = SocksIPv4Address [0xde, 0xad, 0xbe, 0xef], addr_port = 35555\<rparr>,
     CCommandResponse RequestGranted
        \<lparr>addr_type = IPv4Addr, addr_addr = SocksIPv4Address [0xde, 0xad, 0xf0, 0xd], addr_port = 56333\<rparr>]"
  by (simp_all add: run_machine)

lemma AuthRejected:
  "calls_of (feedAll BigEndian [Buffer [5, 3, 0, 2, 1],
      Buffer [1, 5, 104, 101, 108, 108, 111, 5, 116, 104, 101, 114, 101],
      PassAuthResult False]) =
    [CGreetingResponse AuthLoginPass,
     CRequestPassAuth [104, 101, 108, 108, 111] [116, 104, 101, 114, 101],
     CPassAuthResponse 1]"
  "calls_of (feedAll LittleEndian [Buffer [5, 3, 0, 2, 1],
      Buffer [1, 5, 104, 101, 108, 108, 111, 5, 116, 104, 101, 114, 101],
      PassAuthResult False]) =
    [CGreetingResponse AuthLoginPass,
     CRequestPassAuth [104, 101, 108, 108, 111] [116, 104, 101, 114, 101],
     CPassAuthResponse 1]"
  by (simp_all add: run_machine)

lemma CommandWithoutAuth:
  "\<exists>r. calls_of (feedAll BigEndian [Buffer [5, 3, 0, 2, 1], Buffer (commandWire BigEndian TCPStream (SocksIPv4Address [0xde, 0xad, 0xbe, 0xef]) 35555)]) = [CGreetingResponse AuthLoginPass, CProtocolError r]"
  "\<exists>r. calls_of (feedAll LittleEndian [Buffer [5, 3, 0, 2, 1], Buffer (commandWire LittleEndian TCPStream (SocksIPv4Address [0xde, 0xad, 0xbe, 0xef]) 35555)]) = [CGreetingResponse AuthLoginPass, CProtocolError r]"
  by (simp_all add: run_machine)

section \<open>\<open>InConnTrackerTest.cpp\<close>\<close>

text \<open>
  The constructor makes the tracker the user of the connection; when that user is told of the end, all
  it does is to call \<open>onConnTrackerDestroy\<close>.
\<close>

lemma ImmediateDisconnect:
  assumes "sessions w a = Some s" "socks w c = Some k"
  shows "\<exists>w' k' user. tracker_new a c w = Inr w' \<and> socks w' c = Some k' \<and> es_user k' = Some user \<and>
    user_onConnectionClosed user w' = onConnTrackerDestroy a w'"
  using assms by (simp add: tracker_new_def ptr_copy_def es_setUser_def tracker_onConnectionClosed_def tracker_destroySelf_def)

end
