(* ===== verification/ExceptionStream.thy ===== *)
theory ExceptionStream
  imports Prelude
begin

text \<open>
  \<open>libratel/ExceptionStream.h\<close>: an exception whose message is written with \<open><<\<close>. The stream is its
  text and the position of the next character; writing replaces what is there. A stream that is
  constructed from a text starts at its beginning. How a value is formatted is a matter of the
  standard library, so values are given by their texts, \<open>dec\<close> being that of a number.
\<close>

section \<open>Streams\<close>

record ostringstream =
  ss_text :: string
  ss_pos :: nat

definition emptyStream :: ostringstream where
  "emptyStream = \<lparr>ss_text = [], ss_pos = 0\<rparr>"

definition streamOf :: "string \<Rightarrow> ostringstream" where
  "streamOf s = \<lparr>ss_text = s, ss_pos = 0\<rparr>"

definition ss_put :: "ostringstream \<Rightarrow> string \<Rightarrow> ostringstream" where
  "ss_put s val = \<lparr>ss_text = take (ss_pos s) (ss_text s) @ val @ drop (ss_pos s + length val) (ss_text s),
     ss_pos = ss_pos s + length val\<rparr>"

section \<open>The exception\<close>

text \<open>\<open>es_base\<close> is the message of the base class, \<open>es_str\<close> the text \<open>what\<close> returned last.\<close>

record ExceptionStream =
  es_base :: string
  es_strm :: ostringstream
  es_str :: string

definition newExceptionStream :: "(int \<Rightarrow> string) \<Rightarrow> string \<Rightarrow> int \<Rightarrow> string \<Rightarrow> ExceptionStream" where
  "newExceptionStream dec file line func =
     \<lparr>es_base = [],
      es_strm = foldl ss_put emptyStream [''File: '', file, '', line: '', dec line, '', func: '', func,
        '' '' @ [CHR 0x27]],
      es_str = []\<rparr>"

definition copyExceptionStream :: "ExceptionStream \<Rightarrow> ExceptionStream" where
  "copyExceptionStream rhs =
     \<lparr>es_base = ss_text (es_strm rhs) @ [CHR 0x27], es_strm = streamOf (ss_text (es_strm rhs)),
      es_str = ss_text (es_strm rhs)\<rparr>"

definition ex_put :: "ExceptionStream \<Rightarrow> string \<Rightarrow> ExceptionStream" where
  "ex_put e val = e\<lparr>es_strm := ss_put (es_strm e) val\<rparr>"

definition ex_what :: "ExceptionStream \<Rightarrow> string \<times> ExceptionStream" where
  "ex_what e =
     (let e = e\<lparr>es_str := ss_text (es_strm e) @ [CHR 0x27]\<rparr> in (es_str e, e))"

text \<open>
  \<open>RATEL_THROW(type) << a << b\<close>: the operand of \<open>throw\<close> is the reference that \<open><<\<close> returns, so the
  exception object is a copy.
\<close>

definition thrown :: "(int \<Rightarrow> string) \<Rightarrow> string \<Rightarrow> int \<Rightarrow> string \<Rightarrow> string list \<Rightarrow> ExceptionStream" where
  "thrown dec file line func vals =
     copyExceptionStream (foldl ex_put (newExceptionStream dec file line func) vals)"

text \<open>\<open>RATEL_THROW_IF\<close>: the exception, if the condition holds.\<close>

definition thrown_if ::
    "bool \<Rightarrow> (int \<Rightarrow> string) \<Rightarrow> string \<Rightarrow> int \<Rightarrow> string \<Rightarrow> string list \<Rightarrow> ExceptionStream option" where
  "thrown_if c dec file line func vals = (if \<not> c then None else Some (thrown dec file line func vals))"

section \<open>Messages\<close>

lemma put_at_end:
  "ss_pos s = length (ss_text s) \<Longrightarrow>
     ss_put s val = \<lparr>ss_text = ss_text s @ val, ss_pos = length (ss_text s @ val)\<rparr>"
  by (simp add: ss_put_def)

lemma puts_at_end:
  "ss_pos s = length (ss_text s) \<Longrightarrow> foldl ss_put s vals =
     \<lparr>ss_text = ss_text s @ concat vals, ss_pos = length (ss_text s @ concat vals)\<rparr>"
  by (induction vals arbitrary: s) (simp_all add: put_at_end)

lemma ex_puts: "foldl ex_put e vals = e\<lparr>es_strm := foldl ss_put (es_strm e) vals\<rparr>"
  by (induction vals arbitrary: e) (simp_all add: ex_put_def)

text \<open>
  The exception that is caught says where it was thrown and everything that was written to it, in
  order and with nothing lost, both as the stream and, when it is caught as its base class by
  value, through the base class; asking twice gives the same text. Writing to the caught object, however,
  overwrites the beginning of the text.
\<close>

theorem thrown_message:
  "fst (ex_what (thrown dec file line func vals)) =
     ''File: '' @ file @ '', line: '' @ dec line @ '', func: '' @ func @ '' '' @ [CHR 0x27] @
     concat vals @ [CHR 0x27] \<and>
   es_base (thrown dec file line func vals) = fst (ex_what (thrown dec file line func vals)) \<and>
   fst (ex_what (snd (ex_what (thrown dec file line func vals)))) =
     fst (ex_what (thrown dec file line func vals)) \<and>
   (let shown = fst (ex_what (thrown dec file line func vals))
    in length more_text < length shown \<longrightarrow>
       fst (ex_what (ex_put (thrown dec file line func vals) more_text)) =
         more_text @ drop (length more_text) shown)"
proof -
  let ?head = "''File: '' @ file @ '', line: '' @ dec line @ '', func: '' @ func @ '' '' @ [CHR 0x27]"
  have "es_strm (newExceptionStream dec file line func) =
      \<lparr>ss_text = ?head, ss_pos = length ?head\<rparr>"
    by (simp add: newExceptionStream_def emptyStream_def put_at_end)
  then have "ss_text (foldl ss_put (es_strm (newExceptionStream dec file line func)) vals) =
      ?head @ concat vals"
    by (simp add: puts_at_end)
  then obtain t where t: "t = ?head @ concat vals"
    "ss_text (foldl ss_put (es_strm (newExceptionStream dec file line func)) vals) = t"
    by blast
  define e where "e = thrown dec file line func vals"
  have e: "es_strm e = streamOf t" "es_base e = t @ [CHR 0x27]"
    by (simp_all add: e_def thrown_def ex_puts copyExceptionStream_def t(2))
  have shown: "fst (ex_what e) = t @ [CHR 0x27]" "fst (ex_what (snd (ex_what e))) = t @ [CHR 0x27]"
    by (simp_all add: ex_what_def e streamOf_def)
  have overwritten: "fst (ex_what (ex_put e more_text)) = more_text @ drop (length more_text) (t @ [CHR 0x27])"
    if "length more_text < length (t @ [CHR 0x27])"
    using that by (simp add: ex_what_def ex_put_def e streamOf_def ss_put_def)
  have text_eq: "t @ [CHR 0x27] = ?head @ concat vals @ [CHR 0x27]"
    by (simp add: t(1))
  show ?thesis
    unfolding e_def [symmetric] shown e(2) Let_def
    by (intro conjI refl impI) (fact text_eq [simplified append_assoc] | erule overwritten)+
qed

end
