(* ===== verification/OptionalTypes.thy ===== *)
theory OptionalTypes
  imports Optional
begin

text \<open>
  Which constructors of \<open>libratel/Optional.h\<close> take part in overload resolution: the conditions
  of their \<open>enable_if\<close>, over the traits of the standard library, which are parameters. A type \<open>U\<close> that
  is deduced from an argument \<open>U &&\<close> is \<open>Reference t\<close> for an lvalue of type \<open>t\<close> and the type itself
  otherwise, so that \<open>U &&\<close> and \<open>U\<close> have the same traits.
\<close>

section \<open>Conditions\<close>

record type_traits =
  is_constructible :: "ctype \<Rightarrow> ctype \<Rightarrow> bool"   \<comment> \<open>the second from the first\<close>
  is_convertible :: "ctype \<Rightarrow> ctype \<Rightarrow> bool"     \<comment> \<open>the first to the second\<close>

definition const_ref :: "ctype \<Rightarrow> ctype" where
  "const_ref t = Reference (CvQualified t)"

definition value_allowed :: "ctype \<Rightarrow> ctype \<Rightarrow> ctype \<Rightarrow> bool" where
  "value_allowed nullOptT inPlaceT t =
     and_traits [not_trait (remove_cv t = nullOptT), not_trait (remove_cv t = inPlaceT),
       not_trait (case t of Reference _ \<Rightarrow> True | _ \<Rightarrow> False)]"

definition from_value_enabled :: "type_traits \<Rightarrow> ctype \<Rightarrow> ctype \<Rightarrow> bool" where
  "from_value_enabled T t u =
     and_traits [not_trait (t = u), is_constructible T t u, is_convertible T u t]"

definition from_value_explicit_enabled :: "type_traits \<Rightarrow> ctype \<Rightarrow> ctype \<Rightarrow> bool" where
  "from_value_explicit_enabled T t u =
     and_traits [not_trait (t = u), is_constructible T t u, not_trait (is_convertible T u t)]"

definition from_copy_enabled :: "type_traits \<Rightarrow> ctype \<Rightarrow> ctype \<Rightarrow> bool" where
  "from_copy_enabled T t u =
     and_traits [not_trait (t = u),
       not_trait (is_constructible T t (const_ref (GlobalOptional u))),
       not_trait (is_convertible T (const_ref (GlobalOptional u)) t),
       is_constructible T t (const_ref u), is_convertible T (const_ref u) t]"

definition from_move_enabled :: "type_traits \<Rightarrow> ctype \<Rightarrow> ctype \<Rightarrow> bool" where
  "from_move_enabled T t u =
     and_traits [not_trait (t = u),
       not_trait (is_constructible T t (GlobalOptional u)),
       not_trait (is_convertible T (GlobalOptional u) t),
       is_constructible T t u, is_convertible T u t]"

definition from_move_explicit_enabled :: "type_traits \<Rightarrow> ctype \<Rightarrow> ctype \<Rightarrow> bool" where
  "from_move_explicit_enabled T t u =
     and_traits [not_trait (t = u),
       not_trait (is_constructible T t (GlobalOptional u)),
       not_trait (is_convertible T (GlobalOptional u) t),
       is_constructible T t u, not_trait (is_convertible T u t)]"

lemmas enabled_defs = from_value_enabled_def from_value_explicit_enabled_def from_copy_enabled_def
  from_move_enabled_def from_move_explicit_enabled_def and_traits_all not_trait_def

section \<open>Exclusion\<close>

text \<open>
  For an argument of one type at most one of these constructors is enabled, with \<open>explicit\<close> decided by
  convertibility, except that nothing takes a constant optional whose values
  convert explicitly only.
\<close>

lemma value_constructors:
  "from_value_enabled T t u \<or> from_value_explicit_enabled T t u \<longleftrightarrow> t \<noteq> u \<and> is_constructible T t u"
  "\<not> (from_value_enabled T t u \<and> from_value_explicit_enabled T t u)"
  by (auto simp: enabled_defs)

lemma optional_constructors:
  "from_copy_enabled T t u \<Longrightarrow> \<not> from_value_enabled T t (const_ref (GlobalOptional u)) \<and>
     \<not> from_value_explicit_enabled T t (const_ref (GlobalOptional u))"
  "from_move_enabled T t u \<or> from_move_explicit_enabled T t u \<Longrightarrow>
     \<not> from_value_enabled T t (GlobalOptional u) \<and> \<not> from_value_explicit_enabled T t (GlobalOptional u)"
  "\<not> (from_move_enabled T t u \<and> from_move_explicit_enabled T t u)"
  by (auto simp: enabled_defs)

lemma const_optional_not_taken:
  assumes "is_constructible T t (const_ref u)" "\<not> is_convertible T (const_ref u) t"
    and "\<not> is_constructible T t (const_ref (GlobalOptional u))"
  shows "\<not> from_copy_enabled T t u" "\<not> from_value_enabled T t (const_ref (GlobalOptional u))"
    "\<not> from_value_explicit_enabled T t (const_ref (GlobalOptional u))"
  using assms by (auto simp: enabled_defs)

section \<open>Optionals of \<open>bool\<close>\<close>

text \<open>
  \<open>operator bool\<close> is explicit: \<open>bool\<close> is constructible from an optional and no optional is converted to
  it. So the explicit constructor from a value takes a non-constant optional of \<open>bool\<close>; it binds
  to \<open>Optional<bool> &\<close>, which the copy constructor reaches by adding \<open>const\<close> only.
\<close>

definition explicit_bool :: "type_traits \<Rightarrow> ctype \<Rightarrow> bool" where
  "explicit_bool T b \<longleftrightarrow> (\<forall>t. is_constructible T b (Reference (GlobalOptional t)) \<and>
     \<not> is_convertible T (Reference (GlobalOptional t)) b)"

lemma bool_optional_is_a_value:
  assumes "explicit_bool T (Named n)"
  shows "from_value_explicit_enabled T (Named n) (Reference (GlobalOptional (Named n)))"
  using assms by (simp add: explicit_bool_def enabled_defs)

text \<open>That constructor stores whether there is a value, where a copy has the value.\<close>

lemma bool_optional_copied:
  "opt_copy (opt_of False) = Inr (opt_of False)" "opt_from_value opt_bool (opt_of False) = opt_of True"
  "opt_copy opt_empty = Inr (opt_empty :: bool Optional)" "opt_from_value opt_bool (opt_empty :: bool Optional) = opt_of False"
  by (simp_all add: opt_copy_def opt_from_value_def opt_bool_def opt_of_def opt_empty_def isEngaged_def
      opt_get_def opt_construct_def)

end
