(* ===== verification/Spec2Isabelle.thy ===== *)
theory Spec2Isabelle
  imports Handshake Behaviour Serialization EventSocket NQSignals ServerLoop ExSockets Process
    ClientView ServerSpec Messages TestVectors ExceptionStream CallTypes OptionalTypes
begin

text \<open>
  A model of the SOCKS5 proxy \<open>socks5_proxy\<close> and of its support library \<open>libratel\<close>.

  \<^bold>\<open>The program.\<close> The server accepts TCP connections, speaks SOCKS5 with user/password
  authentication to each client, opens the connection the client asks for and relays bytes both
  ways until one side ends. It is one thread driven by libevent:
  \<^item> \<open>main.cpp\<close> reads host and port and runs a \<open>SessionMng\<close>, which owns the \<open>EventTcpServer\<close>, the
    login file and the table of \<open>Session\<close>s, one per accepted connection;
  \<^item> a \<open>Session\<close> has an \<open>InConnTracker\<close>, the user of the client's connection during the
    handshake, which decodes what arrives through a \<open>StateMachine\<close> and answers through the
    encoder;
  \<^item> when the machine accepts a command, the session asks the server for an outgoing connection,
    becomes its user, and once it is established hands both connections to a \<open>TcpStreamProxy\<close>
    of two \<open>DirectedProxyConnection\<close>s;
  \<^item> whoever sees an end or an error calls back into \<open>SessionMng\<close>, which deletes the session.

  \<^bold>\<open>The model.\<close> A C++ operation is a function over an explicit state that ends in a fault or a
  result (\<open>Prelude\<close>: \<open>fault\<close>, \<open>res\<close>, \<open>andThen\<close>, \<open>seqs\<close>); a fault is an access outside a buffer, a
  member of a destroyed object, a failed assertion or an exception. Integers have their width, a
  \<open>memcpy\<close> between bytes and integers goes through the byte order of the host, which is an
  argument everywhere. Theories and code:
  \<^item> \<open>SocksTypes\<close>, \<open>Wire\<close>: \<open>SocksTypes.h\<close>, \<open>SocksCommon.cpp\<close> and the wire format;
    \<open>SocksDecoder\<close>, \<open>SocksEncoder\<close>: the implementation classes of the files of these names;
    \<open>Codec\<close>: both together; \<open>Messages\<close>: their public classes with the overloads.
  \<^item> \<open>StateMachine\<close>: \<open>StateMachine.cpp\<close> over an owner that holds the state; \<open>Handshake\<close>: the
    machine with a recording owner, the specification \<open>spec_step\<close> of the handshake, refinement;
    \<open>ServerSpec\<close>: the specification \<open>serve\<close> of the whole server.
  \<^item> \<open>StringUtils\<close>, \<open>Authorizer\<close>: \<open>libratel/StringUtils.cpp\<close>, \<open>SocksLoginPassAuthorizer.cpp\<close>.
  \<^item> \<open>EventSocketCommon\<close>: the address conversions of \<open>Event/EventSocketCommon.cpp\<close>.
  \<^item> \<open>World\<close>: the heap (connections with their use counts, sessions, tables) and the calls made to
    libevent and the system; \<open>EventSocketConnected\<close>, \<open>InConnTracker\<close>, \<open>Session\<close>,
    \<open>TcpStreamProxy\<close>: the methods of these classes; \<open>Lifetime\<close>: creation and destruction,
    with the server's table of connections; \<open>EventLoop\<close>: the callbacks of libevent, \<open>handle\<close> for
    one of them and \<open>run\<close> for a sequence.
  \<^item> \<open>Optional\<close>, \<open>OptionalTypes\<close> (the conditions of its constructors), \<open>MemReader\<close>, \<open>MemWriter\<close>,
    \<open>Serialization\<close>, \<open>ConcurrentQueue\<close>: the files of \<open>libratel\<close>; \<open>EventSocket\<close>: the class of
    \<open>Event/EventSocket.cpp\<close>, which the server does not construct; \<open>InetUtils\<close>: the file of that name.
  \<^item> \<open>Process\<close>: \<open>main\<close> of \<open>main.cpp\<close> from the arguments to the exit code, over \<open>Startup\<close> (its
    arguments, signals, \<open>run\<close>), \<open>Handles\<close> (who owns the objects of libevent), \<open>Decimal\<close> (\<open>stoi\<close>
    and printed numbers), \<open>Logging\<close> (\<open>LoggerAdapter.cpp\<close>: loggers and the sinks they share), \<open>LogText\<close> (the
    texts of addresses, identifiers and byte vectors) and \<open>Teardown\<close> (the destructors of the manager's tables).
  \<^item> \<open>SignalConnections\<close>, \<open>NQSignals\<close>: the optional signal and slot library \<open>libratel/NQSignals\<close>,
    which keeps the slots of each signal and which delivers emitted signals from a queue;
    \<open>CallTypes\<close>: the types of its calls, which \<open>Callback\<close> forgets.
  \<^item> \<open>Sockets\<close>: \<open>libratel/TcpSocket.cpp\<close> and the class \<open>BaseSocket\<close>, over a list of system calls;
    \<open>TcpServer\<close>, \<open>ServerLoop\<close>, \<open>ExSockets\<close>: the threaded server and the registered sockets of
    \<open>libratel/TcpServer.cpp\<close>, which the build leaves out; \<open>ExceptionStream\<close>: exception texts.
  \<^item> \<open>TestVectors\<close>: what the repository's unit tests of decoder, encoder, machine and tracker expect.

  \<^bold>\<open>The environment.\<close> libevent and the operating system are not code of the repository. What they
  answer during one callback is a record \<open>env\<close>: whether a bufferevent can be made, whether data can
  be queued, whether a connection attempt starts, and the two addresses of a descriptor. The
  callbacks they make are the \<open>event\<close>s. \<open>possible\<close> says that libevent reports events of live
  connections only, \<open>typed_env\<close> that an IPv6 address the system reports has sixteen bytes.
  \<open>reachable m h w\<close>: the callbacks \<open>h\<close> of such environments have taken a new server with the logins
  \<open>m\<close> to the world \<open>w\<close> without a fault; \<open>accepts h\<close> is how many connections they accepted.

  For the socket classes the system is a record \<open>os\<close> that answers each call and may depend on all
  calls before; \<open>fcntl_contract\<close>, \<open>select_contract\<close> and \<open>rcvbuf_contract\<close> state what POSIX documents of
  it, \<open>recv_answers\<close> names the answers of one pass, \<open>accept_contract\<close> says that an accepted
  descriptor fits into a set, \<open>recv_contract\<close> that \<open>recv\<close> fills no more than its buffer. For \<open>main\<close> the rest of the system is a record \<open>host\<close>, and the
  logging library is the record \<open>spdlog\<close>, with \<open>spdlog_ok\<close> for what is relied on. \<open>std::hash\<close> is
  the record \<open>hasher\<close>, the traits of types are the record \<open>type_traits\<close>. The users of a
  server or of a socket are functions from the events so far to what they do.

  \<^bold>\<open>What is shown.\<close>
  \<^item> Decoding: no buffer makes a decoder fault, and the accepted buffers are exactly those of the
    wire format (\<open>SocksDecoder\<close>, \<open>Codec\<close>); encoding and decoding invert each other, and no message
    is taken for one of another kind (\<open>Messages\<close>).
  \<^item> The handshake: for every sequence of inputs the code does what the specification \<open>spec_step\<close> does,
    whose steps are labelled with the inputs and of which there is one for each input; no proxy without a
    positive verdict on a login; it only moves forward; data that comes early is an error; what its owner is
    given is well typed and comes from an input (\<open>Handshake\<close>).
  \<^item> The heap: \<open>world_ok\<close> (exact use counts, every connection used by its own session, each session
    with the objects of its phase) holds in all reachable worlds; the proof takes every callback that
    completes apart into \<open>move\<close>s of one session (\<open>Server\<close>, \<open>Callbacks\<close>, \<open>Reachable\<close>, \<open>Safety\<close>). From it:
    sessions do not touch each other, and every outgoing connection goes to an address an authenticated
    client of that session has asked for.
  \<^item> The server as a whole: \<open>serve\<close>, a step relation over clients in phases whose steps are labelled with the
    callbacks, has a step for a callback exactly when the callback completes, and its step leads to the
    abstraction of the world the callback leads to (\<open>ServerSpec\<close>).
  \<^item> Behaviour: a whole session, from accept to close and on a server in any reachable world, with the exact
    calls to libevent; relaying, over any run of all sessions, as two streams; everything a client ever gets, as
    a function of the phase of its session; the end of a session frees all it
    had (\<open>Steps\<close>, \<open>Scenario\<close>, \<open>Behaviour\<close>, \<open>Relay\<close>, \<open>ClientView\<close>). \<open>Faults\<close> lists, as an equivalence over all
    callbacks in reachable worlds and all answers of libevent, everything that leads to a fault: a bufferevent
    that cannot be made, an answer that cannot be queued and ends or changes the phase of its session, a valid command that cannot be
    carried out, two flags in one event, and an address of an unknown family.
  \<^item> The process: which address and port it listens on, its exit code, that it serves reachable worlds
    only and that its end frees every remaining connection once, after libevent has been shut
    down; how it fails: on a port that is no number, a file of logins or of the log that cannot be opened, and once it
    serves by a callback or not at all (\<open>Process\<close>). The
    global log level decides which messages reach file and console (\<open>Logging\<close>), and the dump of a
    byte vector can be read back (\<open>LogText\<close>).
  \<^item> Support: the login file accepts what its last entry for a user says; \<open>Optional\<close> refines
    \<open>option\<close> but for the assignment of a value, which changes nothing, the accessors \<open>*\<close> and \<open>->\<close>, which read an absent
    value, and some comparisons; memory cursors stay in their block but for one
    wrap-around; the concurrent queue is first-in first-out and loses no wake-up.
  \<^item> Signals: without hash collisions the storage is the table of subscriptions, and no slot of a destroyed
    object stays in it as long as objects connect their own members only. No signal is delivered: the call behind an
    emission is made through a type that is not that of its function, which is undefined, so that in no program that completes
    has a slot been called. The call of a slot would fit only in the two cases that \<open>CallTypes\<close> names.
  \<^item> Threaded server: sockets never leave blocking mode; on POSIX \<open>select\<close> is asked about nothing, so
    that nobody is served; apart from that, what one pass over the clients does, that under any
    answers, and with the traces on if no full buffer lacks a zero, its loop is free of faults and tells of every client in order, that the handler only
    knows live sockets, and that the end of a connection is taken for data.

  \<^bold>\<open>Interfaces.\<close> Locales state what one class relies on in another, each interpreted on the model's
  own definitions: \<open>machine_store\<close> (where a \<open>StateMachine\<close> is kept: in a recorder, in a session),
  \<open>socks_connection\<close> (closing a connection: \<open>EventSocketConnected\<close>, \<open>EventSocket\<close>), \<open>codec\<close> and
  \<open>exact_codec\<close> (an encoder and its decoder: the three message types), \<open>deserializer\<close> (the
  functions \<open>read\<close> that the templates of \<open>Serialization\<close> call) and \<open>flag_switch\<close> (\<open>setNonBlock\<close> of
  \<open>TcpSocket\<close> and of \<open>BaseSocket\<close>).

  \<^bold>\<open>Bounds.\<close> There is no fuel: \<open>stringSplit\<close> is a partial function that is shown to return exactly
  for a non-empty delimiter, all other loops are structural. The loops \<open>while (_run)\<close> of threads
  take the list of what the tests of \<open>_run\<close> see (\<open>run_while\<close>), for any such list.
  \<open>reachable_worlds_are_ok\<close> holds for at most \<open>2^32\<close> accepted connections, after which the
  session counter comes back to identifiers that may be in use; \<open>reused_identifier_leaks_connection\<close> shows what happens then.
  The block of a memory cursor is smaller than \<open>2^63\<close> bytes, as every C++ object is.

  \<^bold>\<open>Not modelled.\<close> The log lines of the sessions, and what spdlog does with a line; the event
  loop itself, and what the constructors of libevent do: their results are parameters, and the event
  base of the process is assumed to be made;
  errors in the format strings of log lines, since a line comes with its text formatted; the order in which an allocator hands out the addresses
  that the sets of pointers of \<open>TcpServer.h\<close> are sorted by, and the reuse of an address: objects are numbered as they are created
  and no number comes back; \<open>NQObject::emitAll\<close> is modelled for a compiler that takes the name of a
  member template without the \<open>&\<close> the language asks for;
  \<open>Event2Server.cpp\<close>, which is one comment; the Windows variants of the socket classes and their
  time-outs; \<open>Tracer.h\<close>, which \<open>TcpServer.h\<close> includes and which is not in the repository; the mocks of
  the tests.
\<close>

end
